theory Spec2Isabelle
  imports Main "HOL-Library.AList"
begin

section \<open>Data model of the watch-room server\<close>

text \<open>
  The repository holds the room server twice: the class \<open>WatchRoomServer\<close> of the custom
  Next.js server (\<open>server.js\<close>, with owner tokens, disbanding and grace timers) and the class
  of the same name in \<open>src/lib/watch-room-server.ts\<close> (no owner reclaim, no grace timer,
  owner-only \<open>play:update\<close>). Both are embedded; the handlers that are textually the same in
  the two files are defined once, the handlers that differ are defined once per file, the
  ones of the TypeScript file with the suffix \<open>_ts\<close>.

  A JavaScript \<open>Map\<close> keeps its entries in insertion order, \<open>set\<close> on a present key
  replaces the value in place and on an absent key appends, \<open>delete\<close> removes the entry,
  \<open>size\<close> counts the entries. This is an association list with \<open>AList.update\<close>,
  \<open>AList.delete\<close>, \<open>map_of\<close> and \<open>length\<close>. Socket identifiers, room identifiers
  and tokens are strings; \<open>Date.now()\<close> is an integer number of milliseconds.
\<close>

datatype State =
    PlayState (url: string) (currentTime: int) (isPlaying: bool) (videoId: string)
      (videoName: string) (videoYear: "string option") (searchTitle: "string option")
      (episode: "int option") (source: string)
  | LiveState (channelId: string) (channelName: string) (channelUrl: string)

text \<open>
  Interface \<open>Room\<close>. The fields \<open>id\<close> and \<open>name\<close> are \<open>room_id\<close> and \<open>room_name\<close>
  here. An optional field is an \<open>option\<close>; \<open>currentState: null\<close> is \<open>None\<close>.
\<close>

record Room =
  room_id :: string
  room_name :: string
  description :: string
  password :: "string option"
  isPublic :: bool
  ownerId :: string
  ownerName :: string
  ownerToken :: string
  memberCount :: nat
  currentState :: "State option"
  createdAt :: int
  lastOwnerHeartbeat :: int

record Member =
  member_id :: string
  member_name :: string
  isOwner :: bool
  lastHeartbeat :: int

text \<open>Interface \<open>RoomMemberInfo\<close>, the value type of \<open>socketToRoom\<close>.\<close>

record RoomMemberInfo =
  roomId :: string
  userId :: string
  userName :: string
  info_isOwner :: bool

datatype ChatType = TextMsg | EmojiMsg

record ChatMessage =
  msg_id :: string
  msg_userId :: string
  msg_userName :: string
  content :: string
  msg_type :: ChatType
  timestamp :: int

text \<open>Payloads of \<open>room:create\<close> and \<open>room:join\<close>.\<close>

record CreateData =
  c_name :: string
  c_description :: string
  c_password :: "string option"
  c_isPublic :: bool
  c_userName :: string

record JoinData =
  j_roomId :: string
  j_password :: "string option"
  j_userName :: string
  j_ownerToken :: "string option"

text \<open>
  The response object handed to the acknowledgement callback of \<open>room:create\<close> and
  \<open>room:join\<close>: \<open>{ success, room?, members?, error? }\<close>. The error texts of the source are
  Chinese string literals; they are kept as their lists of UTF-16 code units.
\<close>

record Response =
  success :: bool
  resp_room :: "Room option"
  resp_members :: "Member list option"
  error :: "int list option"

definition err_room_not_found :: "int list" where
  "err_room_not_found = [0x623F, 0x95F4, 0x4E0D, 0x5B58, 0x5728]"

definition err_wrong_password :: "int list" where
  "err_wrong_password = [0x5BC6, 0x7801, 0x9519, 0x8BEF]"

text \<open>Server-to-client messages: the callback arguments and the emitted events.\<close>

datatype ServerEvent =
    Ack Response
  | RoomListAck "Room list"
  | MemberJoined Member
  | MemberLeft string
  | RoomDeleted "string option"
  | PlayUpdate State
  | PlaySeek int
  | PlayPlay
  | PlayPause
  | PlayChange State
  | LiveChange State
  | ChatMessageEv ChatMessage
  | VoiceOffer string string
  | VoiceAnswer string string
  | VoiceIce string string

text \<open>
  One outbound transmission: the sockets it is delivered to, resolved against the Socket.IO
  adapter at the moment of the \<open>emit\<close>, and the message.
\<close>

datatype Emit = Emit (recipients: "string list") (message: ServerEvent)

text \<open>
  The fields of the class, and the two pieces of the runtime the handlers act on:
  \<^item> \<open>timeouts\<close>: the pending \<open>setTimeout\<close> callbacks of the event loop, handle \<open>\<mapsto>\<close>
    (the room id captured by the closure, the delay in ms); \<open>nextHandle\<close> is the next
    fresh handle; \<open>clearTimeout\<close> removes the entry;
  \<^item> \<open>adapter\<close>: the Socket.IO room membership, pairs (socket id, room name), changed by
    \<open>socket.join\<close> and \<open>socket.leave\<close>.
  The TypeScript class has no \<open>roomDeletionTimers\<close>; its handlers never touch the field.
\<close>

record server =
  rooms :: "(string \<times> Room) list"
  members :: "(string \<times> (string \<times> Member) list) list"
  socketToRoom :: "(string \<times> RoomMemberInfo) list"
  roomDeletionTimers :: "(string \<times> nat) list"
  timeouts :: "(nat \<times> string \<times> int) list"
  nextHandle :: nat
  adapter :: "(string \<times> string) list"

definition init :: server where
  "init = \<lparr>rooms = [], members = [], socketToRoom = [], roomDeletionTimers = [],
            timeouts = [], nextHandle = 0, adapter = []\<rparr>"

section \<open>Socket.IO primitives\<close>

text \<open>
  \<open>socket.join(room)\<close>, \<open>socket.leave(room)\<close>, \<open>socket.to(room).emit(ev)\<close> (every socket
  in the room except the sender), \<open>io.to(room).emit(ev)\<close> (every socket in the room) and the
  acknowledgement callback (the requesting socket only).
\<close>

definition socket_join :: "string \<Rightarrow> string \<Rightarrow> server \<Rightarrow> server" where
  "socket_join sid room s = s\<lparr>adapter := List.insert (sid, room) (adapter s)\<rparr>"

definition socket_leave :: "string \<Rightarrow> string \<Rightarrow> server \<Rightarrow> server" where
  "socket_leave sid room s = s\<lparr>adapter := removeAll (sid, room) (adapter s)\<rparr>"

definition in_room :: "server \<Rightarrow> string \<Rightarrow> string list" where
  "in_room s room = map fst (filter (\<lambda>p. snd p = room) (adapter s))"

definition socket_to :: "server \<Rightarrow> string \<Rightarrow> string \<Rightarrow> ServerEvent \<Rightarrow> Emit" where
  "socket_to s sid room ev = Emit (filter (\<lambda>x. x \<noteq> sid) (in_room s room)) ev"

definition io_to :: "server \<Rightarrow> string \<Rightarrow> ServerEvent \<Rightarrow> Emit" where
  "io_to s room ev = Emit (in_room s room) ev"

definition callback :: "string \<Rightarrow> ServerEvent \<Rightarrow> Emit" where
  "callback sid ev = Emit [sid] ev"

text \<open>JavaScript truthiness of an optional string: present and not empty.\<close>

definition truthy :: "string option \<Rightarrow> bool" where
  "truthy x = (case x of None \<Rightarrow> False | Some v \<Rightarrow> v \<noteq> [])"

text \<open>
  The two tests of \<open>room:join\<close>:
  \<open>room.password && room.password !== data.password\<close> and
  \<open>data.ownerToken && data.ownerToken === room.ownerToken\<close>.
\<close>

definition password_mismatch :: "Room \<Rightarrow> JoinData \<Rightarrow> bool" where
  "password_mismatch room data = (truthy (password room) \<and> password room \<noteq> j_password data)"

definition owner_reconnect :: "Room \<Rightarrow> JoinData \<Rightarrow> bool" where
  "owner_reconnect room data =
     (truthy (j_ownerToken data) \<and> j_ownerToken data = Some (ownerToken room))"

definition failure :: "int list \<Rightarrow> ServerEvent" where
  "failure e = Ack \<lparr>success = False, resp_room = None, resp_members = None, error = Some e\<rparr>"

section \<open>Handlers shared by the two files\<close>

text \<open>
  \<open>room:create\<close>. The two results of \<open>generateRoomId()\<close> (room id and owner token) and
  \<open>Date.now()\<close> are inputs of the handler. With a payload of the declared type nothing in
  the \<open>try\<close> block throws, so the \<open>catch\<close> branch has no counterpart.
\<close>

definition room_create ::
  "string \<Rightarrow> CreateData \<Rightarrow> string \<Rightarrow> string \<Rightarrow> int \<Rightarrow> server \<Rightarrow> server \<times> Emit list" where
  "room_create sid data rid token now s =
    (let uid = sid;
         room = \<lparr>room_id = rid, room_name = c_name data, description = c_description data,
                 password = c_password data, isPublic = c_isPublic data, ownerId = uid,
                 ownerName = c_userName data, ownerToken = token, memberCount = 1,
                 currentState = None, createdAt = now, lastOwnerHeartbeat = now\<rparr>;
         member = \<lparr>member_id = uid, member_name = c_userName data, isOwner = True,
                   lastHeartbeat = now\<rparr>;
         s1 = s\<lparr>rooms := AList.update rid room (rooms s),
                members := AList.update rid [(uid, member)] (members s),
                socketToRoom := AList.update sid
                  \<lparr>roomId = rid, userId = uid, userName = c_userName data, info_isOwner = True\<rparr>
                  (socketToRoom s)\<rparr>;
         s2 = socket_join sid rid s1
     in (s2, [callback sid (Ack \<lparr>success = True, resp_room = Some room,
                                  resp_members = None, error = None\<rparr>)]))"

text \<open>\<open>room:list\<close>: the public rooms, each as the whole \<open>Room\<close> object.\<close>

definition room_list :: "string \<Rightarrow> server \<Rightarrow> server \<times> Emit list" where
  "room_list sid s = (s, [callback sid (RoomListAck (filter isPublic (map snd (rooms s))))])"

text \<open>\<open>play:seek\<close>, \<open>play:play\<close>, \<open>play:pause\<close>: relayed for any bound socket.\<close>

definition play_seek :: "string \<Rightarrow> int \<Rightarrow> server \<Rightarrow> server \<times> Emit list" where
  "play_seek sid t s =
    (case map_of (socketToRoom s) sid of
       None \<Rightarrow> (s, [])
     | Some roomInfo \<Rightarrow> (s, [socket_to s sid (roomId roomInfo) (PlaySeek t)]))"

definition play_play :: "string \<Rightarrow> server \<Rightarrow> server \<times> Emit list" where
  "play_play sid s =
    (case map_of (socketToRoom s) sid of
       None \<Rightarrow> (s, [])
     | Some roomInfo \<Rightarrow> (s, [socket_to s sid (roomId roomInfo) PlayPlay]))"

definition play_pause :: "string \<Rightarrow> server \<Rightarrow> server \<times> Emit list" where
  "play_pause sid s =
    (case map_of (socketToRoom s) sid of
       None \<Rightarrow> (s, [])
     | Some roomInfo \<Rightarrow> (s, [socket_to s sid (roomId roomInfo) PlayPause]))"

text \<open>
  The owner-gated state update, the common body of \<open>play:change\<close> and \<open>live:change\<close> in
  both files and of \<open>play:update\<close> in the TypeScript file:
  \<open>if (!roomInfo || !roomInfo.isOwner) return;\<close> then store and relay when the room exists.
\<close>

definition owner_update ::
  "(State \<Rightarrow> ServerEvent) \<Rightarrow> string \<Rightarrow> State \<Rightarrow> server \<Rightarrow> server \<times> Emit list" where
  "owner_update ev sid st s =
    (case map_of (socketToRoom s) sid of
       None \<Rightarrow> (s, [])
     | Some roomInfo \<Rightarrow>
         if \<not> info_isOwner roomInfo then (s, [])
         else (case map_of (rooms s) (roomId roomInfo) of
                 None \<Rightarrow> (s, [])
               | Some room \<Rightarrow>
                   (s\<lparr>rooms := AList.update (roomId roomInfo)
                                  (room\<lparr>currentState := Some st\<rparr>) (rooms s)\<rparr>,
                    [socket_to s sid (roomId roomInfo) (ev st)])))"

definition play_change :: "string \<Rightarrow> State \<Rightarrow> server \<Rightarrow> server \<times> Emit list" where
  "play_change = owner_update PlayChange"

definition live_change :: "string \<Rightarrow> State \<Rightarrow> server \<Rightarrow> server \<times> Emit list" where
  "live_change = owner_update LiveChange"

text \<open>
  \<open>chat:message\<close>: only the binding is consulted, the room is not looked up. The result of
  \<open>generateMessageId()\<close> and \<open>Date.now()\<close> are inputs.
\<close>

definition chat_message ::
  "string \<Rightarrow> string \<Rightarrow> ChatType \<Rightarrow> string \<Rightarrow> int \<Rightarrow> server \<Rightarrow> server \<times> Emit list" where
  "chat_message sid text ty mid now s =
    (case map_of (socketToRoom s) sid of
       None \<Rightarrow> (s, [])
     | Some roomInfo \<Rightarrow>
         (s, [io_to s (roomId roomInfo)
                (ChatMessageEv \<lparr>msg_id = mid, msg_userId = userId roomInfo,
                                msg_userName = userName roomInfo, content = text,
                                msg_type = ty, timestamp = now\<rparr>)]))"

text \<open>WebRTC signalling: forwarded to the room named by the target socket id.\<close>

definition voice ::
  "(string \<Rightarrow> string \<Rightarrow> ServerEvent) \<Rightarrow> string \<Rightarrow> string \<Rightarrow> string \<Rightarrow> server
     \<Rightarrow> server \<times> Emit list" where
  "voice ev sid target payload s =
    (case map_of (socketToRoom s) sid of
       None \<Rightarrow> (s, [])
     | Some roomInfo \<Rightarrow> (s, [io_to s target (ev sid payload)]))"

definition heartbeat :: "string \<Rightarrow> int \<Rightarrow> server \<Rightarrow> server \<times> Emit list" where
  "heartbeat sid now s =
    (case map_of (socketToRoom s) sid of
       None \<Rightarrow> (s, [])
     | Some roomInfo \<Rightarrow>
         let s1 = (case map_of (members s) (roomId roomInfo) of
                     None \<Rightarrow> s
                   | Some roomMembers \<Rightarrow>
                       (case map_of roomMembers (userId roomInfo) of
                          None \<Rightarrow> s
                        | Some member \<Rightarrow>
                            s\<lparr>members := AList.update (roomId roomInfo)
                                 (AList.update (userId roomInfo)
                                    (member\<lparr>lastHeartbeat := now\<rparr>) roomMembers)
                                 (members s)\<rparr>));
             s2 = (if info_isOwner roomInfo
                   then (case map_of (rooms s1) (roomId roomInfo) of
                           None \<Rightarrow> s1
                         | Some room \<Rightarrow>
                             s1\<lparr>rooms := AList.update (roomId roomInfo)
                                   (room\<lparr>lastOwnerHeartbeat := now\<rparr>) (rooms s1)\<rparr>)
                   else s1)
         in (s2, []))"

text \<open>
  \<open>deleteRoom(roomId, skipNotify = false)\<close>. The TypeScript method has no second
  parameter and always notifies: it is \<open>deleteRoom rid False\<close>.
\<close>

definition deleteRoom :: "string \<Rightarrow> bool \<Rightarrow> server \<Rightarrow> server \<times> Emit list" where
  "deleteRoom rid skipNotify s =
    (s\<lparr>rooms := AList.delete rid (rooms s), members := AList.delete rid (members s)\<rparr>,
     if skipNotify then [] else [io_to s rid (RoomDeleted None)])"

text \<open>
  The body of the \<open>setInterval\<close> callback of \<open>startCleanupTimer\<close>: every room whose owner
  heartbeat is older than five minutes is deleted. The loop runs over the entries the map
  had when the callback started; deleting a room touches no other entry.
\<close>

definition owner_timeout :: int where
  "owner_timeout = 5 * 60 * 1000"

fun cleanup_loop :: "(string \<times> Room) list \<Rightarrow> int \<Rightarrow> server \<Rightarrow> server \<times> Emit list" where
  "cleanup_loop [] now s = (s, [])"
| "cleanup_loop ((rid, room) # rest) now s =
    (if now - lastOwnerHeartbeat room > owner_timeout
     then (let (s1, out1) = deleteRoom rid False s;
               (s2, out2) = cleanup_loop rest now s1
           in (s2, out1 @ out2))
     else cleanup_loop rest now s)"

definition cleanup_tick :: "int \<Rightarrow> server \<Rightarrow> server \<times> Emit list" where
  "cleanup_tick now s = cleanup_loop (rooms s) now s"

section \<open>Handlers of \<open>server.js\<close>\<close>

text \<open>\<open>clearTimeout\<close> of the timer registered for a room, and removal of the registration.\<close>

definition cancel_deletion_timer :: "string \<Rightarrow> server \<Rightarrow> server" where
  "cancel_deletion_timer rid s =
    (case map_of (roomDeletionTimers s) rid of
       None \<Rightarrow> s
     | Some h \<Rightarrow> s\<lparr>timeouts := AList.delete h (timeouts s),
                    roomDeletionTimers := AList.delete rid (roomDeletionTimers s)\<rparr>)"

text \<open>
  \<open>room:join\<close> of \<open>server.js\<close>: lookup, password check, owner reclaim by token, timer
  cancellation, member insertion with recomputed \<open>memberCount\<close>, binding, notification of
  the others, reply with the room object and the member list.
\<close>

definition room_join :: "string \<Rightarrow> JoinData \<Rightarrow> int \<Rightarrow> server \<Rightarrow> server \<times> Emit list" where
  "room_join sid data now s =
    (case map_of (rooms s) (j_roomId data) of
       None \<Rightarrow> (s, [callback sid (failure err_room_not_found)])
     | Some room \<Rightarrow>
         if password_mismatch room data
         then (s, [callback sid (failure err_wrong_password)])
         else
           let rid = j_roomId data;
               uid = sid;
               owner = owner_reconnect room data;
               room1 = (if owner then room\<lparr>ownerId := uid, lastOwnerHeartbeat := now\<rparr>
                        else room);
               s1 = (if owner then s\<lparr>rooms := AList.update rid room1 (rooms s)\<rparr> else s);
               s2 = cancel_deletion_timer rid s1;
               member = \<lparr>member_id = uid, member_name = j_userName data, isOwner = owner,
                         lastHeartbeat = now\<rparr>;
               room2 = (case map_of (members s2) rid of
                          None \<Rightarrow> room1
                        | Some roomMembers \<Rightarrow>
                            room1\<lparr>memberCount := length (AList.update uid member roomMembers)\<rparr>);
               s3 = (case map_of (members s2) rid of
                       None \<Rightarrow> s2
                     | Some roomMembers \<Rightarrow>
                         s2\<lparr>members := AList.update rid
                                          (AList.update uid member roomMembers) (members s2),
                            rooms := AList.update rid room2 (rooms s2)\<rparr>);
               s4 = s3\<lparr>socketToRoom := AList.update sid
                         \<lparr>roomId = rid, userId = uid, userName = j_userName data,
                          info_isOwner = owner\<rparr> (socketToRoom s3)\<rparr>;
               s5 = socket_join sid rid s4;
               membersList = (case map_of (members s5) rid of
                                None \<Rightarrow> []
                              | Some roomMembers \<Rightarrow> map snd roomMembers)
           in (s5, [socket_to s5 sid rid (MemberJoined member),
                    callback sid (Ack \<lparr>success = True, resp_room = Some room2,
                                       resp_members = Some membersList, error = None\<rparr>)]))"

text \<open>\<open>play:update\<close> of \<open>server.js\<close>: no owner test, any bound socket stores and relays.\<close>

definition play_update :: "string \<Rightarrow> State \<Rightarrow> server \<Rightarrow> server \<times> Emit list" where
  "play_update sid st s =
    (case map_of (socketToRoom s) sid of
       None \<Rightarrow> (s, [])
     | Some roomInfo \<Rightarrow>
         (case map_of (rooms s) (roomId roomInfo) of
            None \<Rightarrow> (s, [])
          | Some room \<Rightarrow>
              (s\<lparr>rooms := AList.update (roomId roomInfo)
                             (room\<lparr>currentState := Some st\<rparr>) (rooms s)\<rparr>,
               [socket_to s sid (roomId roomInfo) (PlayUpdate st)])))"

text \<open>The delay of the grace timer, the second argument of \<open>setTimeout\<close>.\<close>

definition grace_delay :: int where
  "grace_delay = 30000"

text \<open>
  \<open>handleLeaveRoom\<close> of \<open>server.js\<close>. The owner branch is taken on the \<open>isOwner\<close> flag of
  the binding. \<open>members.forEach(memberId => this.socketToRoom.delete(memberId))\<close> is the
  fold over the remaining keys.
\<close>

definition evict :: "string list \<Rightarrow> (string \<times> RoomMemberInfo) list \<Rightarrow> (string \<times> RoomMemberInfo) list" where
  "evict ks m = fold AList.delete ks m"

definition arm_deletion_timer :: "string \<Rightarrow> server \<Rightarrow> server" where
  "arm_deletion_timer rid s =
    s\<lparr>timeouts := AList.update (nextHandle s) (rid, grace_delay) (timeouts s),
      roomDeletionTimers := AList.update rid (nextHandle s) (roomDeletionTimers s),
      nextHandle := Suc (nextHandle s)\<rparr>"

definition handleLeaveRoom :: "string \<Rightarrow> server \<Rightarrow> server \<times> Emit list" where
  "handleLeaveRoom sid s =
    (case map_of (socketToRoom s) sid of
       None \<Rightarrow> (s, [])
     | Some roomInfo \<Rightarrow>
         let rid = roomId roomInfo;
             uid = userId roomInfo;
             (s1, out) =
               (case map_of (members s) rid of
                  None \<Rightarrow> (s, [])
                | Some roomMembers \<Rightarrow>
                    let remaining = AList.delete uid roomMembers;
                        sa = s\<lparr>members := AList.update rid remaining (members s)\<rparr>;
                        sb = (case map_of (rooms s) rid of
                                None \<Rightarrow> sa
                              | Some room \<Rightarrow>
                                  sa\<lparr>rooms := AList.update rid
                                       (room\<lparr>memberCount := length remaining\<rparr>) (rooms sa)\<rparr>);
                        left = socket_to sb sid rid (MemberLeft uid)
                    in if info_isOwner roomInfo
                       then
                         let deleted = socket_to sb sid rid (RoomDeleted (Some ''owner_left''));
                             sc = sb\<lparr>socketToRoom := evict (map fst remaining) (socketToRoom sb)\<rparr>;
                             (sd, out_d) = deleteRoom rid True sc
                         in (cancel_deletion_timer rid sd, [left, deleted] @ out_d)
                       else if length remaining = 0
                       then (arm_deletion_timer rid sb, [left])
                       else (sb, [left]))
         in ((socket_leave sid rid s1)\<lparr>socketToRoom :=
                AList.delete sid (socketToRoom (socket_leave sid rid s1))\<rparr>, out))"

text \<open>
  The \<open>setTimeout\<close> callback armed by \<open>handleLeaveRoom\<close>, for the room id it captured, and
  the firing of a pending timeout: a cleared or already fired handle does nothing.
\<close>

definition deletion_timer_callback :: "string \<Rightarrow> server \<Rightarrow> server \<times> Emit list" where
  "deletion_timer_callback rid s =
    (case map_of (members s) rid of
       None \<Rightarrow> (s, [])
     | Some currentRoomMembers \<Rightarrow>
         if length currentRoomMembers = 0
         then (let (s1, out) = deleteRoom rid False s
               in (s1\<lparr>roomDeletionTimers := AList.delete rid (roomDeletionTimers s1)\<rparr>, out))
         else (s, []))"

definition timeout_fires :: "nat \<Rightarrow> server \<Rightarrow> server \<times> Emit list" where
  "timeout_fires h s =
    (case map_of (timeouts s) h of
       None \<Rightarrow> (s, [])
     | Some (rid, delay) \<Rightarrow>
         deletion_timer_callback rid (s\<lparr>timeouts := AList.delete h (timeouts s)\<rparr>))"

section \<open>Handlers of \<open>src/lib/watch-room-server.ts\<close>\<close>

text \<open>\<open>room:join\<close>: the joiner is never an owner, the token of the payload is not read.\<close>

definition room_join_ts :: "string \<Rightarrow> JoinData \<Rightarrow> int \<Rightarrow> server \<Rightarrow> server \<times> Emit list" where
  "room_join_ts sid data now s =
    (case map_of (rooms s) (j_roomId data) of
       None \<Rightarrow> (s, [callback sid (failure err_room_not_found)])
     | Some room \<Rightarrow>
         if password_mismatch room data
         then (s, [callback sid (failure err_wrong_password)])
         else
           let rid = j_roomId data;
               uid = sid;
               member = \<lparr>member_id = uid, member_name = j_userName data, isOwner = False,
                         lastHeartbeat = now\<rparr>;
               room2 = (case map_of (members s) rid of
                          None \<Rightarrow> room
                        | Some roomMembers \<Rightarrow>
                            room\<lparr>memberCount := length (AList.update uid member roomMembers)\<rparr>);
               s3 = (case map_of (members s) rid of
                       None \<Rightarrow> s
                     | Some roomMembers \<Rightarrow>
                         s\<lparr>members := AList.update rid
                                         (AList.update uid member roomMembers) (members s),
                           rooms := AList.update rid room2 (rooms s)\<rparr>);
               s4 = s3\<lparr>socketToRoom := AList.update sid
                         \<lparr>roomId = rid, userId = uid, userName = j_userName data,
                          info_isOwner = False\<rparr> (socketToRoom s3)\<rparr>;
               s5 = socket_join sid rid s4;
               membersList = (case map_of (members s5) rid of
                                None \<Rightarrow> []
                              | Some roomMembers \<Rightarrow> map snd roomMembers)
           in (s5, [socket_to s5 sid rid (MemberJoined member),
                    callback sid (Ack \<lparr>success = True, resp_room = Some room2,
                                       resp_members = Some membersList, error = None\<rparr>)]))"

text \<open>\<open>play:update\<close>: owner-gated like \<open>play:change\<close>.\<close>

definition play_update_ts :: "string \<Rightarrow> State \<Rightarrow> server \<Rightarrow> server \<times> Emit list" where
  "play_update_ts = owner_update PlayUpdate"

text \<open>
  \<open>handleLeaveRoom\<close>: the owner flag only logs; the room is deleted at once, with the
  notification, when the member map is empty after the removal.
\<close>

definition handleLeaveRoom_ts :: "string \<Rightarrow> server \<Rightarrow> server \<times> Emit list" where
  "handleLeaveRoom_ts sid s =
    (case map_of (socketToRoom s) sid of
       None \<Rightarrow> (s, [])
     | Some roomInfo \<Rightarrow>
         let rid = roomId roomInfo;
             uid = userId roomInfo;
             (s1, out) =
               (case map_of (members s) rid of
                  None \<Rightarrow> (s, [])
                | Some roomMembers \<Rightarrow>
                    let remaining = AList.delete uid roomMembers;
                        sa = s\<lparr>members := AList.update rid remaining (members s)\<rparr>;
                        sb = (case map_of (rooms sa) rid of
                                None \<Rightarrow> sa
                              | Some room \<Rightarrow>
                                  sa\<lparr>rooms := AList.update rid
                                       (room\<lparr>memberCount := length remaining\<rparr>) (rooms sa)\<rparr>);
                        left = socket_to sb sid rid (MemberLeft uid)
                    in if length remaining = 0
                       then (let (sd, out_d) = deleteRoom rid False sb in (sd, left # out_d))
                       else (sb, [left]))
         in ((socket_leave sid rid s1)\<lparr>socketToRoom :=
                AList.delete sid (socketToRoom (socket_leave sid rid s1))\<rparr>, out))"

section \<open>The server as a transition system\<close>

text \<open>
  The inbound events: the socket events with their payloads, the connection and the
  disconnection of a socket, the firing of a pending timeout and the tick of the cleanup
  interval. What the handler draws from the environment (random identifiers, the clock)
  travels with the event.
\<close>

datatype ClientEvent =
    Connection string
  | RoomCreate string CreateData string string int
  | RoomJoin string JoinData int
  | RoomLeave string
  | RoomListReq string
  | PlayUpdateReq string State
  | PlaySeekReq string int
  | PlayPlayReq string
  | PlayPauseReq string
  | PlayChangeReq string State
  | LiveChangeReq string State
  | ChatMessageReq string string ChatType string int
  | VoiceOfferReq string string string
  | VoiceAnswerReq string string string
  | VoiceIceReq string string string
  | Heartbeat string int
  | Disconnect string
  | TimeoutFires nat
  | CleanupTick int

datatype Variant = ServerJs | LibTs

text \<open>
  A new socket is in the room named by its own id. A disconnecting socket has left every
  room when its \<open>disconnect\<close> handler runs.
\<close>

definition connection :: "string \<Rightarrow> server \<Rightarrow> server \<times> Emit list" where
  "connection sid s = (socket_join sid sid s, [])"

definition leave_all :: "string \<Rightarrow> server \<Rightarrow> server" where
  "leave_all sid s = s\<lparr>adapter := filter (\<lambda>p. fst p \<noteq> sid) (adapter s)\<rparr>"

fun step :: "Variant \<Rightarrow> server \<Rightarrow> ClientEvent \<Rightarrow> server \<times> Emit list" where
  "step v s (Connection sid) = connection sid s"
| "step v s (RoomCreate sid data rid token now) = room_create sid data rid token now s"
| "step v s (RoomJoin sid data now) =
     (case v of ServerJs \<Rightarrow> room_join sid data now s | LibTs \<Rightarrow> room_join_ts sid data now s)"
| "step v s (RoomLeave sid) =
     (case v of ServerJs \<Rightarrow> handleLeaveRoom sid s | LibTs \<Rightarrow> handleLeaveRoom_ts sid s)"
| "step v s (RoomListReq sid) = room_list sid s"
| "step v s (PlayUpdateReq sid st) =
     (case v of ServerJs \<Rightarrow> play_update sid st s | LibTs \<Rightarrow> play_update_ts sid st s)"
| "step v s (PlaySeekReq sid t) = play_seek sid t s"
| "step v s (PlayPlayReq sid) = play_play sid s"
| "step v s (PlayPauseReq sid) = play_pause sid s"
| "step v s (PlayChangeReq sid st) = play_change sid st s"
| "step v s (LiveChangeReq sid st) = live_change sid st s"
| "step v s (ChatMessageReq sid text ty mid now) = chat_message sid text ty mid now s"
| "step v s (VoiceOfferReq sid target payload) = voice VoiceOffer sid target payload s"
| "step v s (VoiceAnswerReq sid target payload) = voice VoiceAnswer sid target payload s"
| "step v s (VoiceIceReq sid target payload) = voice VoiceIce sid target payload s"
| "step v s (Heartbeat sid now) = heartbeat sid now s"
| "step v s (Disconnect sid) =
     (case v of ServerJs \<Rightarrow> handleLeaveRoom sid (leave_all sid s)
              | LibTs \<Rightarrow> handleLeaveRoom_ts sid (leave_all sid s))"
| "step v s (TimeoutFires h) = timeout_fires h s"
| "step v s (CleanupTick now) = cleanup_tick now s"

text \<open>The state after a sequence of events, and everything sent along the way.\<close>

fun run :: "Variant \<Rightarrow> server \<Rightarrow> ClientEvent list \<Rightarrow> server" where
  "run v s [] = s"
| "run v s (e # es) = run v (fst (step v s e)) es"

fun sent :: "Variant \<Rightarrow> server \<Rightarrow> ClientEvent list \<Rightarrow> Emit list" where
  "sent v s [] = []"
| "sent v s (e # es) = snd (step v s e) @ sent v (fst (step v s e)) es"

section \<open>Auxiliary notions for the statements\<close>

text \<open>The room ids the cleanup callback deletes at time \<open>now\<close>.\<close>

definition expired :: "(string \<times> Room) list \<Rightarrow> int \<Rightarrow> string list" where
  "expired rs now = map fst (filter (\<lambda>p. now - lastOwnerHeartbeat (snd p) > owner_timeout) rs)"

text \<open>
  Invariants of the registry: every room has a member map with pairwise different keys
  whose size is the room's \<open>memberCount\<close>; every binding is stored under the socket id it
  holds as \<open>userId\<close>; every room is stored under its own \<open>id\<close>; every registered timer
  handle was issued before.
\<close>

definition count_inv :: "server \<Rightarrow> bool" where
  "count_inv s = (\<forall>rid room. map_of (rooms s) rid = Some room \<longrightarrow>
      (\<exists>ms. map_of (members s) rid = Some ms \<and> distinct (map fst ms)
            \<and> memberCount room = length ms))"

definition binding_inv :: "server \<Rightarrow> bool" where
  "binding_inv s = (\<forall>sid info. map_of (socketToRoom s) sid = Some info \<longrightarrow> userId info = sid)"

definition ids_inv :: "server \<Rightarrow> bool" where
  "ids_inv s = (\<forall>p \<in> set (rooms s). room_id (snd p) = fst p)"

definition handles_inv :: "server \<Rightarrow> bool" where
  "handles_inv s = (\<forall>rid h. map_of (roomDeletionTimers s) rid = Some h \<longrightarrow> h < nextHandle s)"

text \<open>A registered handle that is still pending belongs to the room it is registered for.\<close>

definition timers_inv :: "server \<Rightarrow> bool" where
  "timers_inv s = (\<forall>rid h r d. map_of (roomDeletionTimers s) rid = Some h \<longrightarrow>
      map_of (timeouts s) h = Some (r, d) \<longrightarrow> r = rid)"

text \<open>A bound socket has joined the Socket.IO room of its binding.\<close>

definition joined_inv :: "server \<Rightarrow> bool" where
  "joined_inv s = (\<forall>x i. map_of (socketToRoom s) x = Some i \<longrightarrow> (x, roomId i) \<in> set (adapter s))"

text \<open>
  The socket an inbound event comes from (none for the two timer callbacks), the room id
  drawn by a \<open>room:create\<close>, and the room id a \<open>room:join\<close> asks for.
\<close>

fun sender :: "ClientEvent \<Rightarrow> string option" where
  "sender (Connection sid) = Some sid"
| "sender (RoomCreate sid data rid token now) = Some sid"
| "sender (RoomJoin sid data now) = Some sid"
| "sender (RoomLeave sid) = Some sid"
| "sender (RoomListReq sid) = Some sid"
| "sender (PlayUpdateReq sid st) = Some sid"
| "sender (PlaySeekReq sid t) = Some sid"
| "sender (PlayPlayReq sid) = Some sid"
| "sender (PlayPauseReq sid) = Some sid"
| "sender (PlayChangeReq sid st) = Some sid"
| "sender (LiveChangeReq sid st) = Some sid"
| "sender (ChatMessageReq sid body ty mid now) = Some sid"
| "sender (VoiceOfferReq sid target payload) = Some sid"
| "sender (VoiceAnswerReq sid target payload) = Some sid"
| "sender (VoiceIceReq sid target payload) = Some sid"
| "sender (Heartbeat sid now) = Some sid"
| "sender (Disconnect sid) = Some sid"
| "sender (TimeoutFires h) = None"
| "sender (CleanupTick now) = None"

fun created_room :: "ClientEvent \<Rightarrow> string option" where
  "created_room (RoomCreate sid data rid token now) = Some rid"
| "created_room e = None"

fun joined_room :: "ClientEvent \<Rightarrow> string option" where
  "joined_room (RoomJoin sid data now) = Some (j_roomId data)"
| "joined_room e = None"

text \<open>
  The owner tokens a message carries: that of the \<open>Room\<close> object of a response, those of
  the \<open>Room\<close> objects of a room list. No other message has a \<open>Room\<close> in its payload.
\<close>

fun tokens_of :: "ServerEvent \<Rightarrow> string list" where
  "tokens_of (Ack r) = (case resp_room r of None \<Rightarrow> [] | Some room \<Rightarrow> [ownerToken room])"
| "tokens_of (RoomListAck rs) = map ownerToken rs"
| "tokens_of ev = []"

text \<open>The messages delivered to one socket, in the order they were sent.\<close>

definition received :: "string \<Rightarrow> Emit list \<Rightarrow> ServerEvent list" where
  "received sid out = map message (filter (\<lambda>e. sid \<in> set (recipients e)) out)"

text \<open>Payloads and abbreviations used in the concrete runs below.\<close>

definition alice_room :: CreateData where
  "alice_room = \<lparr>c_name = ''movie night'', c_description = ''demo'', c_password = None,
                  c_isPublic = True, c_userName = ''alice''\<rparr>"

definition locked_room :: CreateData where
  "locked_room = \<lparr>c_name = ''private'', c_description = ''demo'', c_password = Some ''pw'',
                   c_isPublic = False, c_userName = ''alice''\<rparr>"

definition join_as :: "string \<Rightarrow> string \<Rightarrow> string option \<Rightarrow> string option \<Rightarrow> JoinData" where
  "join_as rid name pw tok =
     \<lparr>j_roomId = rid, j_password = pw, j_userName = name, j_ownerToken = tok\<rparr>"

text \<open>The keys of a member map whose \<open>Member\<close> has \<open>isOwner = true\<close>.\<close>

definition owners :: "(string \<times> Member) list \<Rightarrow> string list" where
  "owners ms = map fst (filter (\<lambda>p. isOwner (snd p)) ms)"

definition demo_state :: State where
  "demo_state = PlayState ''http://v/1.m3u8'' 42 True ''v1'' ''film'' None None None ''src''"

text \<open>A room created by \<open>s1\<close> and joined by \<open>s2\<close> (and by \<open>s3\<close>) without a token.\<close>

definition two_members :: "ClientEvent list" where
  "two_members =
     [Connection ''s1'', RoomCreate ''s1'' alice_room ''ROOM01'' ''TOKEN1'' 1000,
      Connection ''s2'', RoomJoin ''s2'' (join_as ''ROOM01'' ''bob'' None None) 2000]"

definition three_members :: "ClientEvent list" where
  "three_members =
     two_members @ [Connection ''s3'', RoomJoin ''s3'' (join_as ''ROOM01'' ''carol'' None None) 3000]"




text \<open>The owner \<open>s1\<close> of a room of two has disconnected; \<open>s3\<close> has connected.\<close>

definition owner_left_ts :: "ClientEvent list" where
  "owner_left_ts = two_members @ [Disconnect ''s1'', Connection ''s3'']"

text \<open>
  The creator \<open>s1\<close> of a room of two joined it again without a token and left: \<open>s2\<close> is
  the only member, and is not the owner.
\<close>

definition last_member :: "ClientEvent list" where
  "last_member = two_members @
     [RoomJoin ''s1'' (join_as ''ROOM01'' ''alice'' None None) 2500, RoomLeave ''s1'']"

text \<open>
  Two rooms, \<open>ROOM01\<close> of \<open>s1\<close> and \<open>ROOM02\<close> of \<open>s2\<close>; \<open>s3\<close> has joined
  \<open>ROOM01\<close>. In the longer run \<open>s3\<close> joins \<open>ROOM02\<close>, joins \<open>ROOM01\<close> again, and
  leaves.
\<close>

definition two_rooms :: "ClientEvent list" where
  "two_rooms =
     [Connection ''s1'', RoomCreate ''s1'' alice_room ''ROOM01'' ''TOKEN1'' 1000,
      Connection ''s2'', RoomCreate ''s2'' alice_room ''ROOM02'' ''TOKEN2'' 1100,
      Connection ''s3'', RoomJoin ''s3'' (join_as ''ROOM01'' ''carol'' None None) 2000]"

definition ghost_returns :: "ClientEvent list" where
  "ghost_returns =
     two_rooms @ [RoomJoin ''s3'' (join_as ''ROOM02'' ''carol'' None None) 3000,
                  RoomJoin ''s3'' (join_as ''ROOM01'' ''carol'' None None) 4000,
                  RoomLeave ''s3'']"

section \<open>The effect of each handler on the fields\<close>


lemma fields_socket_join [simp]:
  "rooms (socket_join a b s) = rooms s" "members (socket_join a b s) = members s"
  "socketToRoom (socket_join a b s) = socketToRoom s"
  "roomDeletionTimers (socket_join a b s) = roomDeletionTimers s"
  "timeouts (socket_join a b s) = timeouts s" "nextHandle (socket_join a b s) = nextHandle s"
  by (simp_all add: socket_join_def)

lemma fields_socket_leave [simp]:
  "rooms (socket_leave a b s) = rooms s" "members (socket_leave a b s) = members s"
  "socketToRoom (socket_leave a b s) = socketToRoom s"
  "roomDeletionTimers (socket_leave a b s) = roomDeletionTimers s"
  "timeouts (socket_leave a b s) = timeouts s" "nextHandle (socket_leave a b s) = nextHandle s"
  by (simp_all add: socket_leave_def)

lemma fields_leave_all [simp]:
  "rooms (leave_all a s) = rooms s" "members (leave_all a s) = members s"
  "socketToRoom (leave_all a s) = socketToRoom s"
  "roomDeletionTimers (leave_all a s) = roomDeletionTimers s"
  "timeouts (leave_all a s) = timeouts s" "nextHandle (leave_all a s) = nextHandle s"
  by (simp_all add: leave_all_def)

lemma fields_cancel [simp]:
  "rooms (cancel_deletion_timer r s) = rooms s" "members (cancel_deletion_timer r s) = members s"
  "socketToRoom (cancel_deletion_timer r s) = socketToRoom s"
  "nextHandle (cancel_deletion_timer r s) = nextHandle s"
  "adapter (cancel_deletion_timer r s) = adapter s"
  by (simp_all add: cancel_deletion_timer_def split: option.splits)

lemma fields_arm [simp]:
  "rooms (arm_deletion_timer r s) = rooms s" "members (arm_deletion_timer r s) = members s"
  "socketToRoom (arm_deletion_timer r s) = socketToRoom s"
  "adapter (arm_deletion_timer r s) = adapter s"
  by (simp_all add: arm_deletion_timer_def)

lemma fields_deleteRoom [simp]:
  "rooms (fst (deleteRoom r b s)) = AList.delete r (rooms s)"
  "members (fst (deleteRoom r b s)) = AList.delete r (members s)"
  "socketToRoom (fst (deleteRoom r b s)) = socketToRoom s"
  "roomDeletionTimers (fst (deleteRoom r b s)) = roomDeletionTimers s"
  "timeouts (fst (deleteRoom r b s)) = timeouts s"
  "nextHandle (fst (deleteRoom r b s)) = nextHandle s"
  "adapter (fst (deleteRoom r b s)) = adapter s"
  by (simp_all add: deleteRoom_def)



lemma cancel_timers [simp]:
  "roomDeletionTimers (cancel_deletion_timer rid s) = AList.delete rid (roomDeletionTimers s)"
  "timeouts (cancel_deletion_timer rid s) =
     (case map_of (roomDeletionTimers s) rid of
        None \<Rightarrow> timeouts s | Some h \<Rightarrow> AList.delete h (timeouts s))"
proof -
  show "roomDeletionTimers (cancel_deletion_timer rid s) = AList.delete rid (roomDeletionTimers s)"
  proof (cases "map_of (roomDeletionTimers s) rid")
    case None
    then have "rid \<notin> fst ` set (roomDeletionTimers s)" by (simp add: map_of_eq_None_iff)
    with None show ?thesis by (simp add: cancel_deletion_timer_def)
  next
    case (Some h)
    then show ?thesis by (simp add: cancel_deletion_timer_def)
  qed
  show "timeouts (cancel_deletion_timer rid s) =
     (case map_of (roomDeletionTimers s) rid of
        None \<Rightarrow> timeouts s | Some h \<Rightarrow> AList.delete h (timeouts s))"
    by (simp add: cancel_deletion_timer_def split: option.splits)
qed

lemma arm_timers [simp]:
  "roomDeletionTimers (arm_deletion_timer rid s) = AList.update rid (nextHandle s) (roomDeletionTimers s)"
  "timeouts (arm_deletion_timer rid s) = AList.update (nextHandle s) (rid, grace_delay) (timeouts s)"
  "nextHandle (arm_deletion_timer rid s) = Suc (nextHandle s)"
  by (simp_all add: arm_deletion_timer_def)

lemma create_fields:
  "rooms (fst (room_create sid data rid token now s)) = AList.update rid
      \<lparr>room_id = rid, room_name = c_name data, description = c_description data,
        password = c_password data, isPublic = c_isPublic data, ownerId = sid,
        ownerName = c_userName data, ownerToken = token, memberCount = 1,
        currentState = None, createdAt = now, lastOwnerHeartbeat = now\<rparr> (rooms s)"
  "members (fst (room_create sid data rid token now s)) = AList.update rid
      [(sid, \<lparr>member_id = sid, member_name = c_userName data, isOwner = True,
               lastHeartbeat = now\<rparr>)] (members s)"
  "socketToRoom (fst (room_create sid data rid token now s)) = AList.update sid
      \<lparr>roomId = rid, userId = sid, userName = c_userName data, info_isOwner = True\<rparr>
      (socketToRoom s)"
  "roomDeletionTimers (fst (room_create sid data rid token now s)) = roomDeletionTimers s"
  "timeouts (fst (room_create sid data rid token now s)) = timeouts s"
  "nextHandle (fst (room_create sid data rid token now s)) = nextHandle s"
  by (simp_all add: room_create_def Let_def)

lemma join_fail:
  "map_of (rooms s) (j_roomId data) = None \<Longrightarrow>
     room_join sid data now s = (s, [callback sid (failure err_room_not_found)])"
  "map_of (rooms s) (j_roomId data) = Some room \<Longrightarrow> password_mismatch room data \<Longrightarrow>
     room_join sid data now s = (s, [callback sid (failure err_wrong_password)])"
  "map_of (rooms s) (j_roomId data) = None \<Longrightarrow>
     room_join_ts sid data now s = (s, [callback sid (failure err_room_not_found)])"
  "map_of (rooms s) (j_roomId data) = Some room \<Longrightarrow> password_mismatch room data \<Longrightarrow>
     room_join_ts sid data now s = (s, [callback sid (failure err_wrong_password)])"
  by (simp_all add: room_join_def room_join_ts_def)

lemma join_fields:
  assumes "map_of (rooms s) (j_roomId data) = Some room"
    and "\<not> password_mismatch room data"
    and "map_of (members s) (j_roomId data) = Some ms"
  shows "rooms (fst (room_join sid data now s)) = AList.update (j_roomId data)
          ((if owner_reconnect room data then room\<lparr>ownerId := sid, lastOwnerHeartbeat := now\<rparr> else room)
            \<lparr>memberCount := length (AList.update sid
               \<lparr>member_id = sid, member_name = j_userName data,
                isOwner = owner_reconnect room data, lastHeartbeat = now\<rparr> ms)\<rparr>) (rooms s)"
    and "members (fst (room_join sid data now s)) = AList.update (j_roomId data) (AList.update sid
               \<lparr>member_id = sid, member_name = j_userName data,
                isOwner = owner_reconnect room data, lastHeartbeat = now\<rparr> ms) (members s)"
    and "socketToRoom (fst (room_join sid data now s)) = AList.update sid \<lparr>roomId = j_roomId data, userId = sid,
            userName = j_userName data, info_isOwner = owner_reconnect room data\<rparr> (socketToRoom s)"
    and "timeouts (fst (room_join sid data now s)) = (case map_of (roomDeletionTimers s) (j_roomId data) of
                        None \<Rightarrow> timeouts s | Some h \<Rightarrow> AList.delete h (timeouts s))"
    and "roomDeletionTimers (fst (room_join sid data now s)) = AList.delete (j_roomId data) (roomDeletionTimers s)"
    and "nextHandle (fst (room_join sid data now s)) = nextHandle s"
    and "adapter (fst (room_join sid data now s)) = List.insert (sid, j_roomId data) (adapter s)"
  using assms
  by (simp_all add: room_join_def Let_def socket_join_def cong: option.case_cong)

lemma join_fields_nomembers:
  assumes "map_of (rooms s) (j_roomId data) = Some room"
    and "\<not> password_mismatch room data"
    and "map_of (members s) (j_roomId data) = None"
  shows "rooms (fst (room_join sid data now s)) =
          (if owner_reconnect room data then AList.update (j_roomId data)
             (room\<lparr>ownerId := sid, lastOwnerHeartbeat := now\<rparr>) (rooms s) else rooms s)"
    and "members (fst (room_join sid data now s)) = members s"
    and "socketToRoom (fst (room_join sid data now s)) = AList.update sid \<lparr>roomId = j_roomId data, userId = sid,
            userName = j_userName data, info_isOwner = owner_reconnect room data\<rparr> (socketToRoom s)"
    and "timeouts (fst (room_join sid data now s)) = (case map_of (roomDeletionTimers s) (j_roomId data) of
                        None \<Rightarrow> timeouts s | Some h \<Rightarrow> AList.delete h (timeouts s))"
    and "roomDeletionTimers (fst (room_join sid data now s)) = AList.delete (j_roomId data) (roomDeletionTimers s)"
    and "nextHandle (fst (room_join sid data now s)) = nextHandle s"
  using assms
  by (simp_all add: room_join_def Let_def socket_join_def cong: option.case_cong)

lemma join_ts_fields:
  assumes "map_of (rooms s) (j_roomId data) = Some room"
    and "\<not> password_mismatch room data"
    and "map_of (members s) (j_roomId data) = Some ms"
  shows "rooms (fst (room_join_ts sid data now s)) = AList.update (j_roomId data)
          (room\<lparr>memberCount := length (AList.update sid
               \<lparr>member_id = sid, member_name = j_userName data,
                isOwner = False, lastHeartbeat = now\<rparr> ms)\<rparr>) (rooms s)"
    and "members (fst (room_join_ts sid data now s)) = AList.update (j_roomId data) (AList.update sid
               \<lparr>member_id = sid, member_name = j_userName data,
                isOwner = False, lastHeartbeat = now\<rparr> ms) (members s)"
    and "socketToRoom (fst (room_join_ts sid data now s)) = AList.update sid \<lparr>roomId = j_roomId data, userId = sid,
            userName = j_userName data, info_isOwner = False\<rparr> (socketToRoom s)"
    and "timeouts (fst (room_join_ts sid data now s)) = timeouts s"
    and "roomDeletionTimers (fst (room_join_ts sid data now s)) = roomDeletionTimers s"
    and "nextHandle (fst (room_join_ts sid data now s)) = nextHandle s"
    and "adapter (fst (room_join_ts sid data now s)) = List.insert (sid, j_roomId data) (adapter s)"
  using assms
  by (simp_all add: room_join_ts_def Let_def socket_join_def)

lemma join_ts_fields_nomembers:
  assumes "map_of (rooms s) (j_roomId data) = Some room"
    and "\<not> password_mismatch room data"
    and "map_of (members s) (j_roomId data) = None"
  shows "rooms (fst (room_join_ts sid data now s)) = rooms s"
    and "members (fst (room_join_ts sid data now s)) = members s"
    and "socketToRoom (fst (room_join_ts sid data now s)) = AList.update sid \<lparr>roomId = j_roomId data, userId = sid,
            userName = j_userName data, info_isOwner = False\<rparr> (socketToRoom s)"
    and "timeouts (fst (room_join_ts sid data now s)) = timeouts s"
    and "roomDeletionTimers (fst (room_join_ts sid data now s)) = roomDeletionTimers s"
    and "nextHandle (fst (room_join_ts sid data now s)) = nextHandle s"
  using assms
  by (simp_all add: room_join_ts_def Let_def socket_join_def)

lemma leave_unbound:
  "map_of (socketToRoom s) sid = None \<Longrightarrow> handleLeaveRoom sid s = (s, [])"
  "map_of (socketToRoom s) sid = None \<Longrightarrow> handleLeaveRoom_ts sid s = (s, [])"
  by (simp_all add: handleLeaveRoom_def handleLeaveRoom_ts_def)

lemma leave_fields_nomembers:
  assumes "map_of (socketToRoom s) sid = Some info"
    and "map_of (members s) (roomId info) = None"
  shows "rooms (fst (handleLeaveRoom sid s)) = rooms s"
    and "members (fst (handleLeaveRoom sid s)) = members s"
    and "socketToRoom (fst (handleLeaveRoom sid s)) = AList.delete sid (socketToRoom s)"
    and "roomDeletionTimers (fst (handleLeaveRoom sid s)) = roomDeletionTimers s"
    and "timeouts (fst (handleLeaveRoom sid s)) = timeouts s"
    and "nextHandle (fst (handleLeaveRoom sid s)) = nextHandle s"
    and "snd (handleLeaveRoom sid s) = []"
  using assms by (simp_all add: handleLeaveRoom_def Let_def)

lemma leave_fields_owner:
  assumes "map_of (socketToRoom s) sid = Some info"
    and "map_of (members s) (roomId info) = Some ms"
    and "info_isOwner info"
  shows "rooms (fst (handleLeaveRoom sid s)) = AList.delete (roomId info) (rooms s)"
    and "members (fst (handleLeaveRoom sid s)) = AList.delete (roomId info) (members s)"
    and "socketToRoom (fst (handleLeaveRoom sid s)) =
           AList.delete sid (evict (map fst (AList.delete (userId info) ms)) (socketToRoom s))"
    and "roomDeletionTimers (fst (handleLeaveRoom sid s)) = AList.delete (roomId info) (roomDeletionTimers s)"
    and "timeouts (fst (handleLeaveRoom sid s)) = (case map_of (roomDeletionTimers s) (roomId info) of
                        None \<Rightarrow> timeouts s | Some h \<Rightarrow> AList.delete h (timeouts s))"
    and "nextHandle (fst (handleLeaveRoom sid s)) = nextHandle s"
    and "snd (handleLeaveRoom sid s) =
           [Emit (filter (\<lambda>x. x \<noteq> sid) (in_room s (roomId info))) (MemberLeft (userId info)),
            Emit (filter (\<lambda>x. x \<noteq> sid) (in_room s (roomId info))) (RoomDeleted (Some ''owner_left''))]"
  using assms
  by (simp_all add: handleLeaveRoom_def Let_def deleteRoom_def delete_update_same socket_to_def
        in_room_def split: option.splits cong: option.case_cong)

lemma leave_fields_member:
  assumes "map_of (socketToRoom s) sid = Some info"
    and "map_of (members s) (roomId info) = Some ms"
    and "\<not> info_isOwner info"
  shows "rooms (fst (handleLeaveRoom sid s)) =
          (case map_of (rooms s) (roomId info) of
             None \<Rightarrow> rooms s
           | Some room \<Rightarrow> AList.update (roomId info)
               (room\<lparr>memberCount := length (AList.delete (userId info) ms)\<rparr>) (rooms s))"
    and "members (fst (handleLeaveRoom sid s)) =
           AList.update (roomId info) (AList.delete (userId info) ms) (members s)"
    and "socketToRoom (fst (handleLeaveRoom sid s)) = AList.delete sid (socketToRoom s)"
    and "roomDeletionTimers (fst (handleLeaveRoom sid s)) =
           (if AList.delete (userId info) ms = []
            then AList.update (roomId info) (nextHandle s) (roomDeletionTimers s)
            else roomDeletionTimers s)"
    and "timeouts (fst (handleLeaveRoom sid s)) =
           (if AList.delete (userId info) ms = []
            then AList.update (nextHandle s) (roomId info, grace_delay) (timeouts s)
            else timeouts s)"
    and "nextHandle (fst (handleLeaveRoom sid s)) =
           (if AList.delete (userId info) ms = [] then Suc (nextHandle s) else nextHandle s)"
    and "snd (handleLeaveRoom sid s) =
           [Emit (filter (\<lambda>x. x \<noteq> sid) (in_room s (roomId info))) (MemberLeft (userId info))]"
  using assms
  by (simp_all add: handleLeaveRoom_def Let_def socket_to_def in_room_def
        split: option.splits)

lemma leave_ts_fields_nomembers:
  assumes "map_of (socketToRoom s) sid = Some info"
    and "map_of (members s) (roomId info) = None"
  shows "rooms (fst (handleLeaveRoom_ts sid s)) = rooms s"
    and "members (fst (handleLeaveRoom_ts sid s)) = members s"
    and "socketToRoom (fst (handleLeaveRoom_ts sid s)) = AList.delete sid (socketToRoom s)"
    and "snd (handleLeaveRoom_ts sid s) = []"
  using assms by (simp_all add: handleLeaveRoom_ts_def Let_def)

lemma leave_ts_fields:
  assumes "map_of (socketToRoom s) sid = Some info"
    and "map_of (members s) (roomId info) = Some ms"
  shows "rooms (fst (handleLeaveRoom_ts sid s)) =
          (if AList.delete (userId info) ms = [] then AList.delete (roomId info) (rooms s)
           else (case map_of (rooms s) (roomId info) of
             None \<Rightarrow> rooms s
           | Some room \<Rightarrow> AList.update (roomId info)
               (room\<lparr>memberCount := length (AList.delete (userId info) ms)\<rparr>) (rooms s)))"
    and "members (fst (handleLeaveRoom_ts sid s)) =
          (if AList.delete (userId info) ms = [] then AList.delete (roomId info) (members s)
           else AList.update (roomId info) (AList.delete (userId info) ms) (members s))"
    and "socketToRoom (fst (handleLeaveRoom_ts sid s)) = AList.delete sid (socketToRoom s)"
    and "snd (handleLeaveRoom_ts sid s) =
          (if AList.delete (userId info) ms = []
           then [Emit (filter (\<lambda>x. x \<noteq> sid) (in_room s (roomId info))) (MemberLeft (userId info)),
                 Emit (in_room s (roomId info)) (RoomDeleted None)]
           else [Emit (filter (\<lambda>x. x \<noteq> sid) (in_room s (roomId info))) (MemberLeft (userId info))])"
  using assms
  by (simp_all add: handleLeaveRoom_ts_def Let_def deleteRoom_def delete_update_same socket_to_def
        io_to_def in_room_def split: option.splits)

lemma leave_ts_timers [simp]:
  "roomDeletionTimers (fst (handleLeaveRoom_ts sid s)) = roomDeletionTimers s"
  "timeouts (fst (handleLeaveRoom_ts sid s)) = timeouts s"
  "nextHandle (fst (handleLeaveRoom_ts sid s)) = nextHandle s"
  by (simp_all add: handleLeaveRoom_ts_def Let_def deleteRoom_def split: option.splits)




lemma fst_simple [simp]:
  "fst (room_list sid s) = s" "fst (play_seek sid t s) = s" "fst (play_play sid s) = s"
  "fst (play_pause sid s) = s" "fst (chat_message sid text ty mid now s) = s"
  "fst (voice ev sid target payload s) = s"
  by (simp_all add: room_list_def play_seek_def play_play_def play_pause_def chat_message_def
        voice_def split: option.splits)


lemma connection_fields [simp]:
  "rooms (fst (connection sid s)) = rooms s" "members (fst (connection sid s)) = members s"
  "socketToRoom (fst (connection sid s)) = socketToRoom s"
  "roomDeletionTimers (fst (connection sid s)) = roomDeletionTimers s"
  "timeouts (fst (connection sid s)) = timeouts s"
  "nextHandle (fst (connection sid s)) = nextHandle s"
  by (simp_all add: connection_def)


lemma owner_update_fields [simp]:
  "members (fst (owner_update ev sid st s)) = members s"
  "socketToRoom (fst (owner_update ev sid st s)) = socketToRoom s"
  "roomDeletionTimers (fst (owner_update ev sid st s)) = roomDeletionTimers s"
  "timeouts (fst (owner_update ev sid st s)) = timeouts s"
  "nextHandle (fst (owner_update ev sid st s)) = nextHandle s"
  "adapter (fst (owner_update ev sid st s)) = adapter s"
  by (simp_all add: owner_update_def split: option.splits)


lemma owner_update_rooms:
  "rooms (fst (owner_update ev sid st s)) = rooms s \<or>
   (\<exists>rid room. map_of (rooms s) rid = Some room \<and>
      rooms (fst (owner_update ev sid st s)) =
        AList.update rid (room\<lparr>currentState := Some st\<rparr>) (rooms s))"
  by (auto simp: owner_update_def split: option.splits)


lemma play_update_fields [simp]:
  "members (fst (play_update sid st s)) = members s"
  "socketToRoom (fst (play_update sid st s)) = socketToRoom s"
  "roomDeletionTimers (fst (play_update sid st s)) = roomDeletionTimers s"
  "timeouts (fst (play_update sid st s)) = timeouts s"
  "nextHandle (fst (play_update sid st s)) = nextHandle s"
  "adapter (fst (play_update sid st s)) = adapter s"
  by (simp_all add: play_update_def split: option.splits)


lemma play_update_rooms:
  "rooms (fst (play_update sid st s)) = rooms s \<or>
   (\<exists>rid room. map_of (rooms s) rid = Some room \<and>
      rooms (fst (play_update sid st s)) =
        AList.update rid (room\<lparr>currentState := Some st\<rparr>) (rooms s))"
  by (auto simp: play_update_def split: option.splits)




lemma heartbeat_fields [simp]:
  "socketToRoom (fst (heartbeat sid now s)) = socketToRoom s"
  "roomDeletionTimers (fst (heartbeat sid now s)) = roomDeletionTimers s"
  "timeouts (fst (heartbeat sid now s)) = timeouts s"
  "nextHandle (fst (heartbeat sid now s)) = nextHandle s"
  "adapter (fst (heartbeat sid now s)) = adapter s"
  by (simp_all add: heartbeat_def Let_def split: option.splits)


lemma heartbeat_members:
  "members (fst (heartbeat sid now s)) = members s \<or>
   (\<exists>rid ms uid m. map_of (members s) rid = Some ms \<and> map_of ms uid = Some m \<and>
      members (fst (heartbeat sid now s)) =
        AList.update rid (AList.update uid (m\<lparr>lastHeartbeat := now\<rparr>) ms) (members s))"
  by (auto simp: heartbeat_def Let_def split: option.splits)


lemma heartbeat_rooms:
  "rooms (fst (heartbeat sid now s)) = rooms s \<or>
   (\<exists>rid room. map_of (rooms s) rid = Some room \<and>
      rooms (fst (heartbeat sid now s)) =
        AList.update rid (room\<lparr>lastOwnerHeartbeat := now\<rparr>) (rooms s))"
  by (auto simp: heartbeat_def Let_def split: option.splits)




lemma timeout_fires_fields [simp]:
  "socketToRoom (fst (timeout_fires h s)) = socketToRoom s"
  "nextHandle (fst (timeout_fires h s)) = nextHandle s"
  "adapter (fst (timeout_fires h s)) = adapter s"
  by (simp_all add: timeout_fires_def deletion_timer_callback_def deleteRoom_def
        split: option.splits prod.splits)


lemma delete_absent: "map_of al k = None \<Longrightarrow> AList.delete k al = al"
  by (simp add: map_of_eq_None_iff)


lemma timeout_fires_timeouts [simp]:
  "timeouts (fst (timeout_fires h s)) = AList.delete h (timeouts s)"
  by (simp add: timeout_fires_def deletion_timer_callback_def deleteRoom_def delete_absent
        split: option.splits prod.splits)


lemma timeout_fires_registry:
  "(rooms (fst (timeout_fires h s)) = rooms s \<and> members (fst (timeout_fires h s)) = members s
      \<and> roomDeletionTimers (fst (timeout_fires h s)) = roomDeletionTimers s
      \<and> snd (timeout_fires h s) = []) \<or>
   (\<exists>rid d. map_of (timeouts s) h = Some (rid, d) \<and> map_of (members s) rid = Some [] \<and>
      rooms (fst (timeout_fires h s)) = AList.delete rid (rooms s) \<and>
      members (fst (timeout_fires h s)) = AList.delete rid (members s) \<and>
      roomDeletionTimers (fst (timeout_fires h s)) = AList.delete rid (roomDeletionTimers s) \<and>
      snd (timeout_fires h s) = [Emit (in_room s rid) (RoomDeleted None)])"
  by (auto simp: timeout_fires_def deletion_timer_callback_def deleteRoom_def io_to_def in_room_def
        split: option.splits prod.splits)





lemma expired_simps [simp]:
  "expired [] now = []"
  "expired ((rid, room) # rs) now =
     (if now - lastOwnerHeartbeat room > owner_timeout then rid # expired rs now else expired rs now)"
  by (simp_all add: expired_def)

lemma cleanup_loop_rooms:
  "rooms (fst (cleanup_loop rs now s)) = fold AList.delete (expired rs now) (rooms s)"
  by (induction rs now s rule: cleanup_loop.induct)
     (simp_all add: deleteRoom_def case_prod_beta)

lemma cleanup_loop_members:
  "members (fst (cleanup_loop rs now s)) = fold AList.delete (expired rs now) (members s)"
  by (induction rs now s rule: cleanup_loop.induct)
     (simp_all add: deleteRoom_def case_prod_beta)

lemma cleanup_loop_fields [simp]:
  "socketToRoom (fst (cleanup_loop rs now s)) = socketToRoom s"
  "roomDeletionTimers (fst (cleanup_loop rs now s)) = roomDeletionTimers s"
  "timeouts (fst (cleanup_loop rs now s)) = timeouts s"
  "nextHandle (fst (cleanup_loop rs now s)) = nextHandle s"
  "adapter (fst (cleanup_loop rs now s)) = adapter s"
  by (induction rs now s rule: cleanup_loop.induct;
      simp add: deleteRoom_def case_prod_beta)+

lemma map_of_fold_delete:
  "map_of (fold AList.delete ks al) k = (if k \<in> set ks then None else map_of al k)"
  by (induction ks arbitrary: al) (auto simp: delete_conv')

lemma set_delete_subset: "set (AList.delete k al) \<subseteq> set al"
  by (auto simp: AList.delete_eq)

lemma set_fold_delete: "set (fold AList.delete ks al) \<subseteq> set al"
proof (induction ks arbitrary: al)
  case Nil
  then show ?case by simp
next
  case (Cons k ks)
  have "set (fold AList.delete ks (AList.delete k al)) \<subseteq> set (AList.delete k al)"
    by (rule Cons.IH)
  also have "\<dots> \<subseteq> set al" by (rule set_delete_subset)
  finally show ?case by simp
qed


section \<open>The member count invariant\<close>


lemma count_inv_same:
  "count_inv s \<Longrightarrow> rooms s' = rooms s \<Longrightarrow> members s' = members s \<Longrightarrow> count_inv s'"
  by (simp add: count_inv_def)

lemma count_inv_set:
  assumes "count_inv s"
    and "rooms s' = AList.update rid room (rooms s)"
    and "members s' = AList.update rid ms (members s)"
    and "distinct (map fst ms)" and "memberCount room = length ms"
  shows "count_inv s'"
  using assms by (auto simp: count_inv_def update_conv')

lemma count_inv_set_members:
  assumes "count_inv s"
    and "rooms s' = (case map_of (rooms s) rid of
                       None \<Rightarrow> rooms s
                     | Some room \<Rightarrow> AList.update rid (room\<lparr>memberCount := length ms\<rparr>) (rooms s))"
    and "members s' = AList.update rid ms (members s)"
    and "\<And>room. map_of (rooms s) rid = Some room \<Longrightarrow> distinct (map fst ms)"
  shows "count_inv s'"
  using assms by (auto simp: count_inv_def update_conv' split: option.splits)

lemma count_inv_fold_delete:
  assumes "count_inv s"
    and "rooms s' = fold AList.delete ks (rooms s)"
    and "members s' = fold AList.delete ks (members s)"
  shows "count_inv s'"
  using assms by (auto simp: count_inv_def map_of_fold_delete split: if_splits)

lemma count_inv_delete:
  assumes "count_inv s"
    and "rooms s' = AList.delete rid (rooms s)"
    and "members s' = AList.delete rid (members s)"
  shows "count_inv s'"
  using assms by (auto simp: count_inv_def delete_conv' split: if_splits)

lemma count_inv_room_only:
  assumes "count_inv s"
    and "map_of (rooms s) rid = Some room"
    and "rooms s' = AList.update rid room' (rooms s)"
    and "memberCount room' = memberCount room"
    and "members s' = members s"
  shows "count_inv s'"
  using assms by (auto simp: count_inv_def update_conv')

lemma count_inv_members_only:
  assumes "count_inv s"
    and "map_of (members s) rid = Some ms"
    and "members s' = AList.update rid ms' (members s)"
    and "length ms' = length ms" and "distinct (map fst ms) \<Longrightarrow> distinct (map fst ms')"
    and "rooms s' = rooms s"
  shows "count_inv s'"
  unfolding count_inv_def
proof (intro allI impI)
  fix r room assume r: "map_of (rooms s') r = Some room"
  with assms(6) have r0: "map_of (rooms s) r = Some room" by simp
  from assms(1) r0 obtain m0 where m0: "map_of (members s) r = Some m0"
    "distinct (map fst m0)" "memberCount room = length m0"
    by (auto simp: count_inv_def)
  show "\<exists>ms. map_of (members s') r = Some ms \<and> distinct (map fst ms)
            \<and> memberCount room = length ms"
  proof (cases "r = rid")
    case True
    with m0 assms(2) have "m0 = ms" by simp
    with m0 assms True show ?thesis by (simp add: update_conv')
  next
    case False
    with m0 assms show ?thesis by (simp add: update_conv')
  qed
qed

lemma count_invD:
  "count_inv s \<Longrightarrow> map_of (rooms s) rid = Some room \<Longrightarrow>
     \<exists>ms. map_of (members s) rid = Some ms \<and> distinct (map fst ms) \<and> memberCount room = length ms"
  by (simp add: count_inv_def)

lemma count_inv_create:
  "count_inv s \<Longrightarrow> count_inv (fst (room_create sid data rid token now s))"
  by (rule count_inv_set[OF _ create_fields(1) create_fields(2)]) simp_all

lemma count_inv_join:
  assumes "count_inv s" shows "count_inv (fst (room_join sid data now s))"
proof (cases "map_of (rooms s) (j_roomId data)")
  case None
  then show ?thesis using assms by (simp add: join_fail)
next
  case (Some room)
  show ?thesis
  proof (cases "password_mismatch room data")
    case True
    with Some show ?thesis using assms by (simp add: join_fail)
  next
    case False
    from count_invD[OF assms Some] obtain ms where
      ms: "map_of (members s) (j_roomId data) = Some ms" "distinct (map fst ms)" by blast
    show ?thesis
      by (rule count_inv_set[OF assms join_fields(1)[OF Some False ms(1)]
                join_fields(2)[OF Some False ms(1)]])
         (simp_all add: distinct_update ms)
  qed
qed

lemma count_inv_join_ts:
  assumes "count_inv s" shows "count_inv (fst (room_join_ts sid data now s))"
proof (cases "map_of (rooms s) (j_roomId data)")
  case None
  then show ?thesis using assms by (simp add: join_fail)
next
  case (Some room)
  show ?thesis
  proof (cases "password_mismatch room data")
    case True
    with Some show ?thesis using assms by (simp add: join_fail)
  next
    case False
    from count_invD[OF assms Some] obtain ms where
      ms: "map_of (members s) (j_roomId data) = Some ms" "distinct (map fst ms)" by blast
    show ?thesis
      by (rule count_inv_set[OF assms join_ts_fields(1)[OF Some False ms(1)]
                join_ts_fields(2)[OF Some False ms(1)]])
         (simp_all add: distinct_update ms)
  qed
qed

lemma count_inv_leave:
  assumes "count_inv s" shows "count_inv (fst (handleLeaveRoom sid s))"
proof (cases "map_of (socketToRoom s) sid")
  case None
  then show ?thesis using assms by (simp add: leave_unbound)
next
  case (Some info)
  show ?thesis
  proof (cases "map_of (members s) (roomId info)")
    case None
    show ?thesis
      by (rule count_inv_same[OF assms]) (simp_all add: leave_fields_nomembers[OF Some None])
  next
    case ms: (Some ms)
    show ?thesis
    proof (cases "info_isOwner info")
      case True
      show ?thesis
        by (rule count_inv_delete[OF assms leave_fields_owner(1)[OF Some ms True]
              leave_fields_owner(2)[OF Some ms True]])
    next
      case False
      show ?thesis
      proof (rule count_inv_set_members[OF assms leave_fields_member(1)[OF Some ms False]
                leave_fields_member(2)[OF Some ms False]])
        fix room assume "map_of (rooms s) (roomId info) = Some room"
        from count_invD[OF assms this] ms
        show "distinct (map fst (AList.delete (userId info) ms))"
          by (simp add: distinct_delete)
      qed
    qed
  qed
qed

lemma count_inv_leave_ts:
  assumes "count_inv s" shows "count_inv (fst (handleLeaveRoom_ts sid s))"
proof (cases "map_of (socketToRoom s) sid")
  case None
  then show ?thesis using assms by (simp add: leave_unbound)
next
  case (Some info)
  show ?thesis
  proof (cases "map_of (members s) (roomId info)")
    case None
    show ?thesis
      by (rule count_inv_same[OF assms]) (simp_all add: leave_ts_fields_nomembers[OF Some None])
  next
    case ms: (Some ms)
    show ?thesis
    proof (cases "AList.delete (userId info) ms = []")
      case True
      show ?thesis
        by (rule count_inv_delete[OF assms, where rid = "roomId info"])
           (simp_all add: leave_ts_fields[OF Some ms] True)
    next
      case False
      show ?thesis
      proof (rule count_inv_set_members[OF assms, where rid = "roomId info"
                 and ms = "AList.delete (userId info) ms"])
        show "rooms (fst (handleLeaveRoom_ts sid s)) =
               (case map_of (rooms s) (roomId info) of None \<Rightarrow> rooms s
                | Some room \<Rightarrow> AList.update (roomId info)
                    (room\<lparr>memberCount := length (AList.delete (userId info) ms)\<rparr>) (rooms s))"
          by (simp add: leave_ts_fields[OF Some ms] False)
        show "members (fst (handleLeaveRoom_ts sid s)) =
               AList.update (roomId info) (AList.delete (userId info) ms) (members s)"
          by (simp add: leave_ts_fields[OF Some ms] False)
        fix room assume "map_of (rooms s) (roomId info) = Some room"
        from count_invD[OF assms this] ms
        show "distinct (map fst (AList.delete (userId info) ms))"
          by (simp add: distinct_delete)
      qed
    qed
  qed
qed

lemma count_inv_owner_update:
  assumes "count_inv s" shows "count_inv (fst (owner_update ev sid st s))"
  using owner_update_rooms[of ev sid st s]
proof (elim disjE exE conjE)
  assume "rooms (fst (owner_update ev sid st s)) = rooms s"
  then show ?thesis by (intro count_inv_same[OF assms]) simp_all
next
  fix rid room
  assume a: "map_of (rooms s) rid = Some room"
    and b: "rooms (fst (owner_update ev sid st s)) =
           AList.update rid (room\<lparr>currentState := Some st\<rparr>) (rooms s)"
  show ?thesis by (rule count_inv_room_only[OF assms a b]) simp_all
qed

lemma count_inv_play_update:
  assumes "count_inv s" shows "count_inv (fst (play_update sid st s))"
  using play_update_rooms[of sid st s]
proof (elim disjE exE conjE)
  assume "rooms (fst (play_update sid st s)) = rooms s"
  then show ?thesis by (intro count_inv_same[OF assms]) simp_all
next
  fix rid room
  assume a: "map_of (rooms s) rid = Some room"
    and b: "rooms (fst (play_update sid st s)) =
           AList.update rid (room\<lparr>currentState := Some st\<rparr>) (rooms s)"
  show ?thesis by (rule count_inv_room_only[OF assms a b]) simp_all
qed

lemma length_update_present:
  "map_of al k = Some v \<Longrightarrow> length (AList.update k v' al) = length al"
  by (induction al) (auto split: if_splits)

lemma count_inv_heartbeat:
  assumes "count_inv s" shows "count_inv (fst (heartbeat sid now s))"
proof -
  let ?s' = "fst (heartbeat sid now s)"
  let ?t = "s\<lparr>members := members ?s'\<rparr>"
  have t: "count_inv ?t"
    using heartbeat_members[of sid now s]
  proof (elim disjE exE conjE)
    assume "members ?s' = members s"
    then show ?thesis by (intro count_inv_same[OF assms]) simp_all
  next
    fix rid ms uid m
    assume a: "map_of (members s) rid = Some ms" and m: "map_of ms uid = Some m"
      and b: "members ?s' = AList.update rid (AList.update uid (m\<lparr>lastHeartbeat := now\<rparr>) ms) (members s)"
    have b': "members ?t = AList.update rid (AList.update uid (m\<lparr>lastHeartbeat := now\<rparr>) ms) (members s)"
      using b by simp
    show ?thesis
      by (rule count_inv_members_only[OF assms a b'])
         (simp_all add: length_update_present[OF m] distinct_update)
  qed
  show ?thesis
    using heartbeat_rooms[of sid now s]
  proof (elim disjE exE conjE)
    assume "rooms ?s' = rooms s"
    then show ?thesis by (intro count_inv_same[OF t]) simp_all
  next
    fix rid room
    assume a: "map_of (rooms s) rid = Some room"
      and b: "rooms ?s' = AList.update rid (room\<lparr>lastOwnerHeartbeat := now\<rparr>) (rooms s)"
    have a': "map_of (rooms ?t) rid = Some room" using a by simp
    have b': "rooms ?s' = AList.update rid (room\<lparr>lastOwnerHeartbeat := now\<rparr>) (rooms ?t)"
      using b by simp
    show ?thesis by (rule count_inv_room_only[OF t a' b']) simp_all
  qed
qed

lemma count_inv_timeout_fires:
  assumes "count_inv s" shows "count_inv (fst (timeout_fires h s))"
  using timeout_fires_registry[of h s]
  by (elim disjE exE conjE) (auto intro: count_inv_same[OF assms] count_inv_delete[OF assms])

lemma count_inv_cleanup:
  assumes "count_inv s" shows "count_inv (fst (cleanup_tick now s))"
  unfolding cleanup_tick_def
  by (rule count_inv_fold_delete[OF assms cleanup_loop_rooms cleanup_loop_members])

lemma count_inv_step:
  assumes "count_inv s" shows "count_inv (fst (step v s e))"
proof (cases e)
  case (RoomJoin sid data now)
  then show ?thesis using assms by (cases v) (simp_all add: count_inv_join count_inv_join_ts)
next
  case (RoomLeave sid)
  then show ?thesis using assms by (cases v) (simp_all add: count_inv_leave count_inv_leave_ts)
next
  case (Disconnect sid)
  have "count_inv (leave_all sid s)" by (rule count_inv_same[OF assms]) simp_all
  with Disconnect show ?thesis by (cases v) (simp_all add: count_inv_leave count_inv_leave_ts)
next
  case (PlayUpdateReq sid st)
  then show ?thesis using assms
    by (cases v) (simp_all add: count_inv_play_update count_inv_owner_update play_update_ts_def)
next
  case (Connection sid)
  then show ?thesis using assms by (auto intro: count_inv_same)
qed (use assms in \<open>simp_all add: count_inv_create count_inv_owner_update play_change_def
       live_change_def count_inv_heartbeat count_inv_timeout_fires count_inv_cleanup\<close>)

lemma count_inv_init: "count_inv init"
  by (simp add: count_inv_def init_def)

lemma count_inv_run: "count_inv s \<Longrightarrow> count_inv (run v s es)"
  by (induction es arbitrary: s) (simp_all add: count_inv_step)


section \<open>Case analysis of one step\<close>


lemma step_cases:
  fixes v s e
  defines "s' \<equiv> fst (step v s e)"
  obtains
    (same) "rooms s' = rooms s" "members s' = members s" "socketToRoom s' = socketToRoom s"
      "roomDeletionTimers s' = roomDeletionTimers s" "timeouts s' = timeouts s"
      "nextHandle s' = nextHandle s"
  | (create) sid data rid token now where
      "e = RoomCreate sid data rid token now"
      "rooms s' = AList.update rid
        \<lparr>room_id = rid, room_name = c_name data, description = c_description data,
          password = c_password data, isPublic = c_isPublic data, ownerId = sid,
          ownerName = c_userName data, ownerToken = token, memberCount = 1,
          currentState = None, createdAt = now, lastOwnerHeartbeat = now\<rparr> (rooms s)"
      "members s' = AList.update rid
        [(sid, \<lparr>member_id = sid, member_name = c_userName data, isOwner = True,
                 lastHeartbeat = now\<rparr>)] (members s)"
      "socketToRoom s' = AList.update sid
        \<lparr>roomId = rid, userId = sid, userName = c_userName data, info_isOwner = True\<rparr>
        (socketToRoom s)"
      "roomDeletionTimers s' = roomDeletionTimers s" "timeouts s' = timeouts s"
      "nextHandle s' = nextHandle s"
  | (join) sid data now room ms owner where
      "e = RoomJoin sid data now"
      "map_of (rooms s) (j_roomId data) = Some room" "\<not> password_mismatch room data"
      "map_of (members s) (j_roomId data) = Some ms"
      "owner = (v = ServerJs \<and> owner_reconnect room data)"
      "rooms s' = AList.update (j_roomId data)
          ((if owner then room\<lparr>ownerId := sid, lastOwnerHeartbeat := now\<rparr> else room)
            \<lparr>memberCount := length (AList.update sid
               \<lparr>member_id = sid, member_name = j_userName data,
                isOwner = owner, lastHeartbeat = now\<rparr> ms)\<rparr>) (rooms s)"
      "members s' = AList.update (j_roomId data) (AList.update sid
               \<lparr>member_id = sid, member_name = j_userName data,
                isOwner = owner, lastHeartbeat = now\<rparr> ms) (members s)"
      "socketToRoom s' = AList.update sid \<lparr>roomId = j_roomId data, userId = sid,
            userName = j_userName data, info_isOwner = owner\<rparr> (socketToRoom s)"
      "timeouts s' = (if v = ServerJs
                      then (case map_of (roomDeletionTimers s) (j_roomId data) of
                              None \<Rightarrow> timeouts s | Some h \<Rightarrow> AList.delete h (timeouts s))
                      else timeouts s)"
      "roomDeletionTimers s' = (if v = ServerJs
                      then AList.delete (j_roomId data) (roomDeletionTimers s)
                      else roomDeletionTimers s)"
      "nextHandle s' = nextHandle s"
  | (join_nomembers) sid data now room owner where
      "e = RoomJoin sid data now"
      "map_of (rooms s) (j_roomId data) = Some room" "\<not> password_mismatch room data"
      "map_of (members s) (j_roomId data) = None"
      "owner = (v = ServerJs \<and> owner_reconnect room data)"
      "rooms s' = (if owner then AList.update (j_roomId data)
             (room\<lparr>ownerId := sid, lastOwnerHeartbeat := now\<rparr>) (rooms s) else rooms s)"
      "members s' = members s"
      "socketToRoom s' = AList.update sid \<lparr>roomId = j_roomId data, userId = sid,
            userName = j_userName data, info_isOwner = owner\<rparr> (socketToRoom s)"
      "timeouts s' = (if v = ServerJs
                      then (case map_of (roomDeletionTimers s) (j_roomId data) of
                              None \<Rightarrow> timeouts s | Some h \<Rightarrow> AList.delete h (timeouts s))
                      else timeouts s)"
      "roomDeletionTimers s' = (if v = ServerJs
                      then AList.delete (j_roomId data) (roomDeletionTimers s)
                      else roomDeletionTimers s)"
      "nextHandle s' = nextHandle s"
  | (leave_nomembers) sid info where
      "e = RoomLeave sid \<or> e = Disconnect sid"
      "map_of (socketToRoom s) sid = Some info" "map_of (members s) (roomId info) = None"
      "rooms s' = rooms s" "members s' = members s"
      "socketToRoom s' = AList.delete sid (socketToRoom s)"
      "roomDeletionTimers s' = roomDeletionTimers s" "timeouts s' = timeouts s"
      "nextHandle s' = nextHandle s"
  | (leave_owner) sid info ms where
      "v = ServerJs" "e = RoomLeave sid \<or> e = Disconnect sid"
      "map_of (socketToRoom s) sid = Some info" "map_of (members s) (roomId info) = Some ms"
      "info_isOwner info"
      "rooms s' = AList.delete (roomId info) (rooms s)"
      "members s' = AList.delete (roomId info) (members s)"
      "socketToRoom s' =
         AList.delete sid (evict (map fst (AList.delete (userId info) ms)) (socketToRoom s))"
      "roomDeletionTimers s' = AList.delete (roomId info) (roomDeletionTimers s)"
      "timeouts s' = (case map_of (roomDeletionTimers s) (roomId info) of
                        None \<Rightarrow> timeouts s | Some h \<Rightarrow> AList.delete h (timeouts s))"
      "nextHandle s' = nextHandle s"
  | (leave_member) sid info ms where
      "v = ServerJs" "e = RoomLeave sid \<or> e = Disconnect sid"
      "map_of (socketToRoom s) sid = Some info" "map_of (members s) (roomId info) = Some ms"
      "\<not> info_isOwner info"
      "rooms s' = (case map_of (rooms s) (roomId info) of
             None \<Rightarrow> rooms s
           | Some room \<Rightarrow> AList.update (roomId info)
               (room\<lparr>memberCount := length (AList.delete (userId info) ms)\<rparr>) (rooms s))"
      "members s' = AList.update (roomId info) (AList.delete (userId info) ms) (members s)"
      "socketToRoom s' = AList.delete sid (socketToRoom s)"
      "roomDeletionTimers s' =
           (if AList.delete (userId info) ms = []
            then AList.update (roomId info) (nextHandle s) (roomDeletionTimers s)
            else roomDeletionTimers s)"
      "timeouts s' =
           (if AList.delete (userId info) ms = []
            then AList.update (nextHandle s) (roomId info, grace_delay) (timeouts s)
            else timeouts s)"
      "nextHandle s' =
           (if AList.delete (userId info) ms = [] then Suc (nextHandle s) else nextHandle s)"
  | (leave_ts_empty) sid info ms where
      "v = LibTs" "e = RoomLeave sid \<or> e = Disconnect sid"
      "map_of (socketToRoom s) sid = Some info" "map_of (members s) (roomId info) = Some ms"
      "AList.delete (userId info) ms = []"
      "rooms s' = AList.delete (roomId info) (rooms s)"
      "members s' = AList.delete (roomId info) (members s)"
      "socketToRoom s' = AList.delete sid (socketToRoom s)"
      "roomDeletionTimers s' = roomDeletionTimers s" "timeouts s' = timeouts s"
      "nextHandle s' = nextHandle s"
  | (leave_ts) sid info ms where
      "v = LibTs" "e = RoomLeave sid \<or> e = Disconnect sid"
      "map_of (socketToRoom s) sid = Some info" "map_of (members s) (roomId info) = Some ms"
      "AList.delete (userId info) ms \<noteq> []"
      "rooms s' = (case map_of (rooms s) (roomId info) of
             None \<Rightarrow> rooms s
           | Some room \<Rightarrow> AList.update (roomId info)
               (room\<lparr>memberCount := length (AList.delete (userId info) ms)\<rparr>) (rooms s))"
      "members s' = AList.update (roomId info) (AList.delete (userId info) ms) (members s)"
      "socketToRoom s' = AList.delete sid (socketToRoom s)"
      "roomDeletionTimers s' = roomDeletionTimers s" "timeouts s' = timeouts s"
      "nextHandle s' = nextHandle s"
  | (room_touch) rid room st where
      "map_of (rooms s) rid = Some room"
      "rooms s' = AList.update rid (room\<lparr>currentState := Some st\<rparr>) (rooms s)"
      "members s' = members s" "socketToRoom s' = socketToRoom s"
      "roomDeletionTimers s' = roomDeletionTimers s" "timeouts s' = timeouts s"
      "nextHandle s' = nextHandle s"
  | (heartbeat) sid now where
      "e = Heartbeat sid now"
      "members s' = members s \<or>
         (\<exists>rid ms uid m. map_of (members s) rid = Some ms \<and> map_of ms uid = Some m \<and>
            members s' = AList.update rid (AList.update uid (m\<lparr>lastHeartbeat := now\<rparr>) ms)
                           (members s))"
      "rooms s' = rooms s \<or>
         (\<exists>rid room. map_of (rooms s) rid = Some room \<and>
            rooms s' = AList.update rid (room\<lparr>lastOwnerHeartbeat := now\<rparr>) (rooms s))"
      "socketToRoom s' = socketToRoom s"
      "roomDeletionTimers s' = roomDeletionTimers s" "timeouts s' = timeouts s"
      "nextHandle s' = nextHandle s"
  | (timer) h rid d where
      "e = TimeoutFires h"
      "map_of (timeouts s) h = Some (rid, d)" "map_of (members s) rid = Some []"
      "rooms s' = AList.delete rid (rooms s)" "members s' = AList.delete rid (members s)"
      "roomDeletionTimers s' = AList.delete rid (roomDeletionTimers s)"
      "timeouts s' = AList.delete h (timeouts s)"
      "socketToRoom s' = socketToRoom s" "nextHandle s' = nextHandle s"
  | (timer_idle) h where
      "e = TimeoutFires h"
      "rooms s' = rooms s" "members s' = members s"
      "roomDeletionTimers s' = roomDeletionTimers s"
      "timeouts s' = AList.delete h (timeouts s)"
      "socketToRoom s' = socketToRoom s" "nextHandle s' = nextHandle s"
  | (sweep) now where
      "e = CleanupTick now"
      "rooms s' = fold AList.delete (expired (rooms s) now) (rooms s)"
      "members s' = fold AList.delete (expired (rooms s) now) (members s)"
      "socketToRoom s' = socketToRoom s"
      "roomDeletionTimers s' = roomDeletionTimers s" "timeouts s' = timeouts s"
      "nextHandle s' = nextHandle s"
proof -
  have leave: thesis
    if ev: "e = RoomLeave sid \<or> e = Disconnect sid"
      and t: "rooms t = rooms s" "members t = members s" "socketToRoom t = socketToRoom s"
        "roomDeletionTimers t = roomDeletionTimers s" "timeouts t = timeouts s"
        "nextHandle t = nextHandle s"
      and st: "s' = fst (case v of ServerJs \<Rightarrow> handleLeaveRoom sid t
                                | LibTs \<Rightarrow> handleLeaveRoom_ts sid t)"
    for sid t
  proof (cases "map_of (socketToRoom s) sid")
    case None
    show thesis
      by (rule same) (use None t st in \<open>simp_all add: leave_unbound split: Variant.splits\<close>)
  next
    case (Some info)
    then have b: "map_of (socketToRoom t) sid = Some info" by (simp add: t)
    show thesis
    proof (cases "map_of (members s) (roomId info)")
      case None
      then have m: "map_of (members t) (roomId info) = None" by (simp add: t)
      show thesis
        by (rule leave_nomembers[OF ev Some None])
           (use t st in \<open>simp_all add: leave_fields_nomembers[OF b m]
              leave_ts_fields_nomembers[OF b m] split: Variant.splits\<close>)
    next
      case ms: (Some ms)
      then have m: "map_of (members t) (roomId info) = Some ms" by (simp add: t)
      show thesis
      proof (cases v)
        case ServerJs
        show thesis
        proof (cases "info_isOwner info")
          case True
          show thesis
            by (rule leave_owner[OF ServerJs ev Some ms True])
               (use t st ServerJs in \<open>simp_all add: leave_fields_owner[OF b m True]
                  cong: option.case_cong\<close>)
        next
          case False
          show thesis
            by (rule leave_member[OF ServerJs ev Some ms False])
               (use t st ServerJs in \<open>simp_all add: leave_fields_member[OF b m False]
                  cong: option.case_cong\<close>)
        qed
      next
        case LibTs
        show thesis
        proof (cases "AList.delete (userId info) ms = []")
          case True
          show thesis
            by (rule leave_ts_empty[OF LibTs ev Some ms True])
               (use t st LibTs True in \<open>simp_all add: leave_ts_fields[OF b m]
                  cong: option.case_cong\<close>)
        next
          case False
          show thesis
            by (rule leave_ts[OF LibTs ev Some ms False])
               (use t st LibTs False in \<open>simp_all add: leave_ts_fields[OF b m]
                  cong: option.case_cong\<close>)
        qed
      qed
    qed
  qed
  have touch: thesis
    if "rooms s' = rooms s \<or>
          (\<exists>rid room. map_of (rooms s) rid = Some room \<and>
             rooms s' = AList.update rid (room\<lparr>currentState := Some st\<rparr>) (rooms s))"
      and "members s' = members s" "socketToRoom s' = socketToRoom s"
        "roomDeletionTimers s' = roomDeletionTimers s" "timeouts s' = timeouts s"
        "nextHandle s' = nextHandle s"
    for st
    using that(1)
  proof (elim disjE exE conjE)
    assume "rooms s' = rooms s"
    then show thesis using that by (intro same)
  next
    fix rid room
    assume "map_of (rooms s) rid = Some room"
      "rooms s' = AList.update rid (room\<lparr>currentState := Some st\<rparr>) (rooms s)"
    then show thesis using that by (intro room_touch)
  qed
  show thesis
  proof (cases e)
    case (Connection sid)
    show thesis by (rule same) (simp_all add: s'_def Connection)
  next
    case (RoomCreate sid data rid token now)
    show thesis
      by (rule create[OF RoomCreate]) (simp_all add: s'_def RoomCreate create_fields)
  next
    case (RoomJoin sid data now)
    show thesis
    proof (cases "map_of (rooms s) (j_roomId data)")
      case None
      show thesis
        by (rule same) (simp_all add: s'_def RoomJoin join_fail(1,3)[OF None] split: Variant.splits)
    next
      case (Some room)
      show thesis
      proof (cases "password_mismatch room data")
        case True
        show thesis
          by (rule same)
             (simp_all add: s'_def RoomJoin join_fail(2,4)[OF Some True] split: Variant.splits)
      next
        case False
        show thesis
        proof (cases "map_of (members s) (j_roomId data)")
          case None
          show thesis
            by (rule join_nomembers[OF RoomJoin Some False None refl])
               (cases v; simp add: s'_def RoomJoin join_fields_nomembers[OF Some False None]
                  join_ts_fields_nomembers[OF Some False None])+
        next
          case ms: (Some ms)
          show thesis
            by (rule join[OF RoomJoin Some False ms refl])
               (cases v; simp add: s'_def RoomJoin join_fields[OF Some False ms]
                  join_ts_fields[OF Some False ms])+
        qed
      qed
    qed
  next
    case (RoomLeave sid)
    show thesis
      by (rule leave[of sid s]) (simp_all add: RoomLeave s'_def split: Variant.splits)
  next
    case (RoomListReq sid)
    show thesis by (rule same) (simp_all add: s'_def RoomListReq)
  next
    case (PlayUpdateReq sid st)
    show thesis
    proof (cases v)
      case ServerJs
      show thesis
        by (rule touch[of st])
           (use play_update_rooms[of sid st s] in \<open>simp_all add: s'_def PlayUpdateReq ServerJs\<close>)
    next
      case LibTs
      show thesis
        by (rule touch[of st])
           (use owner_update_rooms[of PlayUpdate sid st s] in
              \<open>simp_all add: s'_def PlayUpdateReq LibTs play_update_ts_def\<close>)
    qed
  next
    case (PlaySeekReq sid t)
    show thesis by (rule same) (simp_all add: s'_def PlaySeekReq)
  next
    case (PlayPlayReq sid)
    show thesis by (rule same) (simp_all add: s'_def PlayPlayReq)
  next
    case (PlayPauseReq sid)
    show thesis by (rule same) (simp_all add: s'_def PlayPauseReq)
  next
    case (PlayChangeReq sid st)
    show thesis
      by (rule touch[of st])
         (use owner_update_rooms[of PlayChange sid st s] in
            \<open>simp_all add: s'_def PlayChangeReq play_change_def\<close>)
  next
    case (LiveChangeReq sid st)
    show thesis
      by (rule touch[of st])
         (use owner_update_rooms[of LiveChange sid st s] in
            \<open>simp_all add: s'_def LiveChangeReq live_change_def\<close>)
  next
    case (ChatMessageReq sid body ty mid now)
    show thesis by (rule same) (simp_all add: s'_def ChatMessageReq)
  next
    case (VoiceOfferReq sid target payload)
    show thesis by (rule same) (simp_all add: s'_def VoiceOfferReq)
  next
    case (VoiceAnswerReq sid target payload)
    show thesis by (rule same) (simp_all add: s'_def VoiceAnswerReq)
  next
    case (VoiceIceReq sid target payload)
    show thesis by (rule same) (simp_all add: s'_def VoiceIceReq)
  next
    case (Heartbeat sid now)
    show thesis
      by (rule heartbeat[OF Heartbeat])
         (use heartbeat_members[of sid now s] heartbeat_rooms[of sid now s] in
            \<open>simp_all add: s'_def Heartbeat\<close>)
  next
    case (Disconnect sid)
    show thesis
      by (rule leave[of sid "leave_all sid s"])
         (simp_all add: Disconnect s'_def split: Variant.splits)
  next
    case (TimeoutFires h)
    from timeout_fires_registry[of h s] show thesis
    proof (elim disjE exE conjE)
      assume "rooms (fst (timeout_fires h s)) = rooms s"
        "members (fst (timeout_fires h s)) = members s"
        "roomDeletionTimers (fst (timeout_fires h s)) = roomDeletionTimers s"
      then show thesis
        by (intro timer_idle[OF TimeoutFires]) (simp_all add: s'_def TimeoutFires)
    next
      fix rid d
      assume "map_of (timeouts s) h = Some (rid, d)" "map_of (members s) rid = Some []"
        "rooms (fst (timeout_fires h s)) = AList.delete rid (rooms s)"
        "members (fst (timeout_fires h s)) = AList.delete rid (members s)"
        "roomDeletionTimers (fst (timeout_fires h s)) = AList.delete rid (roomDeletionTimers s)"
      then show thesis
        by (intro timer[OF TimeoutFires]) (simp_all add: s'_def TimeoutFires)
    qed
  next
    case (CleanupTick now)
    show thesis
      by (rule sweep[OF CleanupTick])
         (simp_all add: s'_def CleanupTick cleanup_tick_def cleanup_loop_rooms
            cleanup_loop_members)
  qed
qed


section \<open>Invariants and what persists from step to step\<close>


lemma map_of_evict:
  "map_of (evict ks m) k = (if k \<in> set ks then None else map_of m k)"
  by (simp add: evict_def map_of_fold_delete)

lemma set_update_cases:
  "p \<in> set (AList.update k v al) \<Longrightarrow> p = (k, v) \<or> p \<in> set al"
  by (induction al) (auto split: if_splits)

lemma binding_inv_step: "binding_inv s \<Longrightarrow> binding_inv (fst (step v s e))"
  by (cases rule: step_cases[of v s e])
     (auto simp: binding_inv_def update_conv' delete_conv' map_of_evict split: if_splits)

lemma ids_inv_step:
  assumes "ids_inv s" shows "ids_inv (fst (step v s e))"
proof -
  have upd: "ids_inv t" if "room_id room' = rid" "rooms t = AList.update rid room' (rooms s)" for t rid room'
    using that assms by (auto simp: ids_inv_def dest!: set_update_cases)
  have del: "ids_inv t" if "set (rooms t) \<subseteq> set (rooms s)" for t
    using that assms by (auto simp: ids_inv_def)
  have key: "room_id room = rid" if "map_of (rooms s) rid = Some room" for rid room
    using map_of_SomeD[OF that] assms by (auto simp: ids_inv_def)
  show ?thesis
  proof (cases rule: step_cases[of v s e])
    case same
    then show ?thesis by (intro del) simp
  next
    case (create sid data rid token now)
    then show ?thesis by (intro upd[where rid = rid]) simp_all
  next
    case (join sid data now room ms owner)
    then show ?thesis by (intro upd[where rid = "j_roomId data"]) (simp_all add: key)
  next
    case (join_nomembers sid data now room owner)
    show ?thesis
    proof (cases owner)
      case True
      with join_nomembers show ?thesis
        by (intro upd[where rid = "j_roomId data"]) (simp_all add: key)
    next
      case False
      with join_nomembers show ?thesis by (intro del) simp
    qed
  next
    case (leave_nomembers sid info)
    then show ?thesis by (intro del) simp
  next
    case (leave_owner sid info ms)
    then show ?thesis by (intro del) (simp add: set_delete_subset)
  next
    case (leave_member sid info ms)
    show ?thesis
    proof (cases "map_of (rooms s) (roomId info)")
      case None
      with leave_member show ?thesis by (intro del) simp
    next
      case (Some room)
      with leave_member show ?thesis
        by (intro upd[where rid = "roomId info"]) (simp_all add: key)
    qed
  next
    case (leave_ts_empty sid info ms)
    then show ?thesis by (intro del) (simp add: set_delete_subset)
  next
    case (leave_ts sid info ms)
    show ?thesis
    proof (cases "map_of (rooms s) (roomId info)")
      case None
      with leave_ts show ?thesis by (intro del) simp
    next
      case (Some room)
      with leave_ts show ?thesis
        by (intro upd[where rid = "roomId info"]) (simp_all add: key)
    qed
  next
    case (room_touch rid room st)
    then show ?thesis by (intro upd[where rid = rid]) (simp_all add: key)
  next
    case (heartbeat sid now)
    from heartbeat(3) show ?thesis
    proof (elim disjE exE conjE)
      assume "rooms (fst (step v s e)) = rooms s"
      then show ?thesis by (intro del) simp
    next
      fix rid room
      assume "map_of (rooms s) rid = Some room"
        "rooms (fst (step v s e)) = AList.update rid (room\<lparr>lastOwnerHeartbeat := now\<rparr>) (rooms s)"
      then show ?thesis by (intro upd[where rid = rid]) (simp_all add: key)
    qed
  next
    case (timer h rid d)
    then show ?thesis by (intro del) (simp add: set_delete_subset)
  next
    case (timer_idle h)
    then show ?thesis by (intro del) simp
  next
    case (sweep now)
    then show ?thesis by (intro del) (simp add: set_fold_delete)
  qed
qed

lemma handles_inv_step: "handles_inv s \<Longrightarrow> handles_inv (fst (step v s e))"
  by (cases rule: step_cases[of v s e])
     (auto simp: handles_inv_def update_conv' delete_conv' less_Suc_eq split: if_splits)



lemma timers_inv_step:
  assumes "timers_inv s" "handles_inv s"
  shows "timers_inv (fst (step v s e))"
proof -
  have fresh: "map_of (roomDeletionTimers s) r = Some h \<Longrightarrow> h \<noteq> nextHandle s" for r h
    using assms(2) by (auto simp: handles_inv_def)
  have own: "map_of (roomDeletionTimers s) r = Some h \<Longrightarrow> map_of (timeouts s) h = Some (r', d)
               \<Longrightarrow> r' = r" for r h r' d
    using assms(1) by (auto simp: timers_inv_def)
  show ?thesis
    by (cases rule: step_cases[of v s e])
       (auto simp: timers_inv_def update_conv' delete_conv' dest: fresh own
          split: if_splits option.splits)
qed

lemma rooms_absent_step:
  assumes "map_of (rooms s) rid = None" "created_room e \<noteq> Some rid"
  shows "map_of (rooms (fst (step v s e))) rid = None"
  using assms
  by (cases rule: step_cases[of v s e])
     (auto simp: update_conv' delete_conv' map_of_fold_delete split: if_splits option.splits)

lemma members_absent_step:
  assumes "map_of (members s) rid = None" "created_room e \<noteq> Some rid"
  shows "map_of (members (fst (step v s e))) rid = None"
  using assms
  by (cases rule: step_cases[of v s e])
     (auto simp: update_conv' delete_conv' map_of_fold_delete split: if_splits option.splits)

lemma cancelled_step:
  assumes "map_of (timeouts s) h = None" "h < nextHandle s"
  shows "map_of (timeouts (fst (step v s e))) h = None \<and> h < nextHandle (fst (step v s e))"
  using assms
  by (cases rule: step_cases[of v s e])
     (auto simp: update_conv' delete_conv' split: if_splits option.splits)



lemma pending_step:
  assumes t: "timers_inv s"
    and h: "h < nextHandle s"
    and g: "(map_of (rooms s) rid = None \<and> map_of (members s) rid = None) \<or>
            (map_of (members s) rid = Some [] \<and> map_of (timeouts s) h = Some (rid, d))"
    and e: "created_room e \<noteq> Some rid" "joined_room e \<noteq> Some rid" "e \<noteq> TimeoutFires h"
  shows "h < nextHandle (fst (step v s e)) \<and>
         ((map_of (rooms (fst (step v s e))) rid = None \<and>
           map_of (members (fst (step v s e))) rid = None) \<or>
          (map_of (members (fst (step v s e))) rid = Some [] \<and>
           map_of (timeouts (fst (step v s e))) h = Some (rid, d)))"
proof -
  have own: "map_of (roomDeletionTimers s) r = Some h' \<Longrightarrow> map_of (timeouts s) h' = Some (r', d')
               \<Longrightarrow> r' = r" for r h' r' d'
    using t by (auto simp: timers_inv_def)
  show ?thesis
    using h g e
    by (cases rule: step_cases[of v s e])
       (auto simp: update_conv' delete_conv' map_of_fold_delete dest: own
          split: if_splits option.splits)
qed

lemma ghost_step:
  assumes b: "binding_inv s"
    and m: "map_of (members s) a = Some ms" "map_of ms c \<noteq> None"
    and n: "\<forall>info. map_of (socketToRoom s) c = Some info \<longrightarrow> roomId info \<noteq> a"
    and e: "created_room e \<noteq> Some a" "\<not> (sender e = Some c \<and> joined_room e = Some a)"
  shows "map_of (members (fst (step v s e))) a = None \<or>
         ((\<exists>ms'. map_of (members (fst (step v s e))) a = Some ms' \<and> map_of ms' c \<noteq> None) \<and>
          (\<forall>info. map_of (socketToRoom (fst (step v s e))) c = Some info \<longrightarrow> roomId info \<noteq> a))"
proof -
  have uid: "map_of (socketToRoom s) x = Some info \<Longrightarrow> userId info = x" for x info
    using b by (auto simp: binding_inv_def)
  have ne: "AList.delete k ms \<noteq> []" if "k \<noteq> c" for k
  proof
    assume "AList.delete k ms = []"
    then have "map_of (AList.delete k ms) c = None" by simp
    with that m(2) show False by (simp add: delete_conv')
  qed
  show ?thesis
    using m n e
    by (cases rule: step_cases[of v s e])
       (auto simp: update_conv' delete_conv' map_of_fold_delete map_of_evict dest: uid ne
          split: if_splits option.splits)
qed


section \<open>Runs, and what the handlers send\<close>


lemma binding_inv_init: "binding_inv init" by (simp add: binding_inv_def init_def)
lemma ids_inv_init: "ids_inv init" by (simp add: ids_inv_def init_def)
lemma handles_inv_init: "handles_inv init" by (simp add: handles_inv_def init_def)
lemma timers_inv_init: "timers_inv init" by (simp add: timers_inv_def init_def)

lemma binding_inv_run: "binding_inv s \<Longrightarrow> binding_inv (run v s es)"
  by (induction es arbitrary: s) (simp_all add: binding_inv_step)

lemma ids_inv_run: "ids_inv s \<Longrightarrow> ids_inv (run v s es)"
  by (induction es arbitrary: s) (simp_all add: ids_inv_step)

lemma handles_inv_run: "handles_inv s \<Longrightarrow> handles_inv (run v s es)"
  by (induction es arbitrary: s) (simp_all add: handles_inv_step)

lemma timers_inv_run: "timers_inv s \<Longrightarrow> handles_inv s \<Longrightarrow> timers_inv (run v s es)"
  by (induction es arbitrary: s) (simp_all add: timers_inv_step handles_inv_step)

lemma run_append: "run v s (es @ es') = run v (run v s es) es'"
  by (induction es arbitrary: s) simp_all

lemma rooms_absent_run:
  "map_of (rooms s) rid = None \<Longrightarrow> \<forall>e \<in> set es. created_room e \<noteq> Some rid \<Longrightarrow>
     map_of (rooms (run v s es)) rid = None"
  by (induction es arbitrary: s) (simp_all add: rooms_absent_step)

lemma members_absent_run:
  "map_of (members s) rid = None \<Longrightarrow> \<forall>e \<in> set es. created_room e \<noteq> Some rid \<Longrightarrow>
     map_of (members (run v s es)) rid = None"
  by (induction es arbitrary: s) (simp_all add: members_absent_step)

lemma cancelled_run:
  "map_of (timeouts s) h = None \<Longrightarrow> h < nextHandle s \<Longrightarrow>
     map_of (timeouts (run v s es)) h = None \<and> h < nextHandle (run v s es)"
  by (induction es arbitrary: s) (simp_all add: cancelled_step)

lemma join_out:
  assumes "map_of (rooms s) (j_roomId data) = Some room"
    and "\<not> password_mismatch room data"
    and "map_of (members s) (j_roomId data) = Some ms"
  shows "snd (room_join sid data now s) =
     [Emit (filter (\<lambda>x. x \<noteq> sid) (in_room (socket_join sid (j_roomId data) s) (j_roomId data)))
        (MemberJoined \<lparr>member_id = sid, member_name = j_userName data,
                isOwner = owner_reconnect room data, lastHeartbeat = now\<rparr>),
      Emit [sid] (Ack \<lparr>success = True,
        resp_room = Some ((if owner_reconnect room data
                           then room\<lparr>ownerId := sid, lastOwnerHeartbeat := now\<rparr> else room)
            \<lparr>memberCount := length (AList.update sid
               \<lparr>member_id = sid, member_name = j_userName data,
                isOwner = owner_reconnect room data, lastHeartbeat = now\<rparr> ms)\<rparr>),
        resp_members = Some (map snd (AList.update sid
               \<lparr>member_id = sid, member_name = j_userName data,
                isOwner = owner_reconnect room data, lastHeartbeat = now\<rparr> ms)),
        error = None\<rparr>)]"
  using assms
  by (simp add: room_join_def Let_def socket_join_def socket_to_def callback_def in_room_def
        update_conv' cong: option.case_cong)

lemma join_out_nomembers:
  assumes "map_of (rooms s) (j_roomId data) = Some room"
    and "\<not> password_mismatch room data"
    and "map_of (members s) (j_roomId data) = None"
  shows "snd (room_join sid data now s) =
     [Emit (filter (\<lambda>x. x \<noteq> sid) (in_room (socket_join sid (j_roomId data) s) (j_roomId data)))
        (MemberJoined \<lparr>member_id = sid, member_name = j_userName data,
                isOwner = owner_reconnect room data, lastHeartbeat = now\<rparr>),
      Emit [sid] (Ack \<lparr>success = True,
        resp_room = Some (if owner_reconnect room data
                           then room\<lparr>ownerId := sid, lastOwnerHeartbeat := now\<rparr> else room),
        resp_members = Some [],
        error = None\<rparr>)]"
  using assms
  by (simp add: room_join_def Let_def socket_join_def socket_to_def callback_def in_room_def
        update_conv' cong: option.case_cong)

lemma join_ts_out:
  assumes "map_of (rooms s) (j_roomId data) = Some room"
    and "\<not> password_mismatch room data"
    and "map_of (members s) (j_roomId data) = Some ms"
  shows "snd (room_join_ts sid data now s) =
     [Emit (filter (\<lambda>x. x \<noteq> sid) (in_room (socket_join sid (j_roomId data) s) (j_roomId data)))
        (MemberJoined \<lparr>member_id = sid, member_name = j_userName data,
                isOwner = False, lastHeartbeat = now\<rparr>),
      Emit [sid] (Ack \<lparr>success = True,
        resp_room = Some (room\<lparr>memberCount := length (AList.update sid
               \<lparr>member_id = sid, member_name = j_userName data,
                isOwner = False, lastHeartbeat = now\<rparr> ms)\<rparr>),
        resp_members = Some (map snd (AList.update sid
               \<lparr>member_id = sid, member_name = j_userName data,
                isOwner = False, lastHeartbeat = now\<rparr> ms)),
        error = None\<rparr>)]"
  using assms
  by (simp add: room_join_ts_def Let_def socket_join_def socket_to_def callback_def in_room_def
        update_conv' cong: option.case_cong)

lemma join_ts_out_nomembers:
  assumes "map_of (rooms s) (j_roomId data) = Some room"
    and "\<not> password_mismatch room data"
    and "map_of (members s) (j_roomId data) = None"
  shows "snd (room_join_ts sid data now s) =
     [Emit (filter (\<lambda>x. x \<noteq> sid) (in_room (socket_join sid (j_roomId data) s) (j_roomId data)))
        (MemberJoined \<lparr>member_id = sid, member_name = j_userName data,
                isOwner = False, lastHeartbeat = now\<rparr>),
      Emit [sid] (Ack \<lparr>success = True, resp_room = Some room, resp_members = Some [],
        error = None\<rparr>)]"
  using assms
  by (simp add: room_join_ts_def Let_def socket_join_def socket_to_def callback_def in_room_def
        update_conv' cong: option.case_cong)

lemma in_room_leave_all:
  "filter (\<lambda>x. x \<noteq> sid) (in_room (leave_all sid s) r) = filter (\<lambda>x. x \<noteq> sid) (in_room s r)"
proof -
  have "filter (\<lambda>x. x \<noteq> sid) (map fst (filter (\<lambda>p. snd p = r) (filter (\<lambda>p. fst p \<noteq> sid) xs)))
      = filter (\<lambda>x. x \<noteq> sid) (map fst (filter (\<lambda>p. snd p = r) xs))" for xs :: "(string \<times> string) list"
    by (induction xs) auto
  then show ?thesis by (simp add: in_room_def leave_all_def)
qed

lemma owner_leave:
  assumes b: "map_of (socketToRoom s) sid = Some info"
    and m: "map_of (members s) (roomId info) = Some ms"
    and o: "info_isOwner info"
  defines "s' \<equiv> fst (handleLeaveRoom sid s)"
  shows "snd (handleLeaveRoom sid s) =
           [Emit (filter (\<lambda>x. x \<noteq> sid) (in_room s (roomId info))) (MemberLeft (userId info)),
            Emit (filter (\<lambda>x. x \<noteq> sid) (in_room s (roomId info)))
              (RoomDeleted (Some ''owner_left''))]"
    and "\<forall>x. map_of (AList.delete (userId info) ms) x \<noteq> None \<longrightarrow>
             map_of (socketToRoom s') x = None"
    and "map_of (socketToRoom s') sid = None"
    and "map_of (rooms s') (roomId info) = None"
    and "map_of (members s') (roomId info) = None"
    and "map_of (roomDeletionTimers s') (roomId info) = None"
    and "\<forall>h. map_of (roomDeletionTimers s) (roomId info) = Some h \<longrightarrow>
             map_of (timeouts s') h = None"
proof -
  note f = leave_fields_owner[OF b m o]
  show "snd (handleLeaveRoom sid s) =
           [Emit (filter (\<lambda>x. x \<noteq> sid) (in_room s (roomId info))) (MemberLeft (userId info)),
            Emit (filter (\<lambda>x. x \<noteq> sid) (in_room s (roomId info)))
              (RoomDeleted (Some ''owner_left''))]"
    by (rule f(7))
  have keys: "x \<in> set (map fst al)" if "map_of al x \<noteq> None" for x and al :: "(string \<times> Member) list"
    using that by (simp add: map_of_eq_None_iff)
  show "\<forall>x. map_of (AList.delete (userId info) ms) x \<noteq> None \<longrightarrow>
             map_of (socketToRoom s') x = None"
    using keys by (auto simp: s'_def f(3) delete_conv' map_of_evict)
  show "map_of (socketToRoom s') sid = None" by (simp add: s'_def f(3) delete_conv')
  show "map_of (rooms s') (roomId info) = None" by (simp add: s'_def f(1) delete_conv')
  show "map_of (members s') (roomId info) = None" by (simp add: s'_def f(2) delete_conv')
  show "map_of (roomDeletionTimers s') (roomId info) = None"
    by (simp add: s'_def f(4) delete_conv')
  show "\<forall>h. map_of (roomDeletionTimers s) (roomId info) = Some h \<longrightarrow>
             map_of (timeouts s') h = None"
    by (simp add: s'_def f(5) delete_conv')
qed

lemma received_both:
  "received x [Emit R a, Emit R b] = (if x \<in> set R then [a, b] else [])"
  by (simp add: received_def)


section \<open>Socket.IO rooms, bindings and the grace timer\<close>

lemma create_adapter:
  "adapter (fst (room_create sid data rid token now s)) = List.insert (sid, rid) (adapter s)"
  by (simp add: room_create_def Let_def socket_join_def)

lemma join_adapter_nomembers:
  assumes "map_of (rooms s) (j_roomId data) = Some room"
    and "\<not> password_mismatch room data"
    and "map_of (members s) (j_roomId data) = None"
  shows "adapter (fst (room_join sid data now s)) = List.insert (sid, j_roomId data) (adapter s)"
    and "adapter (fst (room_join_ts sid data now s)) = List.insert (sid, j_roomId data) (adapter s)"
  using assms
  by (simp_all add: room_join_def room_join_ts_def Let_def socket_join_def
        cong: option.case_cong)

lemma leave_adapter:
  "adapter (fst (handleLeaveRoom sid s)) =
     (case map_of (socketToRoom s) sid of
        None \<Rightarrow> adapter s | Some info \<Rightarrow> removeAll (sid, roomId info) (adapter s))"
  "adapter (fst (handleLeaveRoom_ts sid s)) =
     (case map_of (socketToRoom s) sid of
        None \<Rightarrow> adapter s | Some info \<Rightarrow> removeAll (sid, roomId info) (adapter s))"
  by (simp_all add: handleLeaveRoom_def handleLeaveRoom_ts_def Let_def deleteRoom_def
        socket_leave_def split: option.splits)

lemma adapter_keeps:
  assumes "(x, r) \<in> set (adapter s)" and "\<not> (e = RoomLeave x \<or> e = Disconnect x)"
  shows "(x, r) \<in> set (adapter (fst (step v s e)))"
proof (cases e)
  case (Connection sid)
  with assms show ?thesis by (simp add: connection_def socket_join_def)
next
  case (RoomCreate sid data rid token now)
  with assms show ?thesis by (simp add: create_adapter)
next
  case (RoomJoin sid data now)
  show ?thesis
  proof (cases "map_of (rooms s) (j_roomId data)")
    case None
    with assms RoomJoin show ?thesis by (cases v) (simp_all add: join_fail)
  next
    case (Some room)
    show ?thesis
    proof (cases "password_mismatch room data")
      case True
      with assms RoomJoin Some show ?thesis by (cases v) (simp_all add: join_fail)
    next
      case False
      show ?thesis
      proof (cases "map_of (members s) (j_roomId data)")
        case None
        with assms RoomJoin Some False show ?thesis
          by (cases v) (simp_all add: join_adapter_nomembers)
      next
        case ms: (Some ms)
        with assms RoomJoin Some False show ?thesis
          by (cases v) (simp_all add: join_fields(7) join_ts_fields(7))
      qed
    qed
  qed
next
  case (RoomLeave sid)
  with assms show ?thesis by (cases v) (auto simp: leave_adapter split: option.splits)
next
  case (Disconnect sid)
  with assms show ?thesis
    by (cases v) (auto simp: leave_adapter leave_all_def split: option.splits)
next
  case (PlayUpdateReq sid st)
  with assms show ?thesis by (cases v) (simp_all add: play_update_ts_def)
next
  case (CleanupTick now)
  with assms show ?thesis by (simp add: cleanup_tick_def)
qed (use assms in \<open>simp_all add: play_change_def live_change_def room_list_def play_seek_def
       play_play_def play_pause_def chat_message_def voice_def split: option.splits\<close>)

lemma leave_unbinds_handler:
  "map_of (socketToRoom (fst (handleLeaveRoom x t))) x = None"
  "map_of (socketToRoom (fst (handleLeaveRoom_ts x t))) x = None"
proof -
  show "map_of (socketToRoom (fst (handleLeaveRoom x t))) x = None"
  proof (cases "map_of (socketToRoom t) x")
    case None
    then show ?thesis by (simp add: leave_unbound)
  next
    case (Some info)
    show ?thesis
    proof (cases "map_of (members t) (roomId info)")
      case None
      show ?thesis by (simp add: leave_fields_nomembers(3)[OF Some None] delete_conv')
    next
      case ms: (Some ms)
      show ?thesis
        by (cases "info_isOwner info")
           (simp_all add: leave_fields_owner(3)[OF Some ms] leave_fields_member(3)[OF Some ms]
              delete_conv')
    qed
  qed
  show "map_of (socketToRoom (fst (handleLeaveRoom_ts x t))) x = None"
  proof (cases "map_of (socketToRoom t) x")
    case None
    then show ?thesis by (simp add: leave_unbound)
  next
    case (Some info)
    show ?thesis
    proof (cases "map_of (members t) (roomId info)")
      case None
      show ?thesis by (simp add: leave_ts_fields_nomembers(3)[OF Some None] delete_conv')
    next
      case ms: (Some ms)
      show ?thesis by (simp add: leave_ts_fields(3)[OF Some ms] delete_conv')
    qed
  qed
qed

lemma leave_unbinds:
  assumes "e = RoomLeave x \<or> e = Disconnect x"
  shows "map_of (socketToRoom (fst (step v s e))) x = None"
  using assms by (cases v) (auto simp: leave_unbinds_handler)

lemma binding_origin:
  assumes "map_of (socketToRoom (fst (step v s e))) x = Some i"
  shows "map_of (socketToRoom s) x = Some i \<or> (x, roomId i) \<in> set (adapter (fst (step v s e)))"
proof (cases rule: step_cases[of v s e])
  case (create sid data rid token now)
  with assms show ?thesis by (auto simp: update_conv' create_adapter split: if_splits)
next
  case (join sid data now room ms owner)
  with assms show ?thesis
    by (cases v) (auto simp: update_conv' join_fields(7) join_ts_fields(7) split: if_splits)
next
  case (join_nomembers sid data now room owner)
  with assms show ?thesis
    by (cases v) (auto simp: update_conv' join_adapter_nomembers split: if_splits)
qed (use assms in \<open>auto simp: delete_conv' map_of_evict split: if_splits\<close>)

lemma joined_inv_step:
  assumes "joined_inv s" shows "joined_inv (fst (step v s e))"
  unfolding joined_inv_def
proof (intro allI impI)
  fix x i assume b: "map_of (socketToRoom (fst (step v s e))) x = Some i"
  show "(x, roomId i) \<in> set (adapter (fst (step v s e)))"
  proof (cases "e = RoomLeave x \<or> e = Disconnect x")
    case True
    from leave_unbinds[OF True, of v s] b show ?thesis by simp
  next
    case False
    from binding_origin[OF b] show ?thesis
    proof
      assume "map_of (socketToRoom s) x = Some i"
      with assms have "(x, roomId i) \<in> set (adapter s)" by (auto simp: joined_inv_def)
      from adapter_keeps[OF this False] show ?thesis .
    qed
  qed
qed

lemma joined_inv_run: "joined_inv s \<Longrightarrow> joined_inv (run v s es)"
  by (induction es arbitrary: s) (simp_all add: joined_inv_step)

lemma joined_inv_init: "joined_inv init"
  by (simp add: joined_inv_def init_def)


lemma owners_update_none:
  assumes "owners ms = []" and "\<not> isOwner m"
  shows "owners (AList.update k m ms) = []"
  using assms by (induction ms) (auto simp: owners_def split: if_splits)


lemma reach_inv:
  "count_inv (run v init es)" "binding_inv (run v init es)" "ids_inv (run v init es)"
  "handles_inv (run v init es)" "timers_inv (run v init es)"
  by (simp_all add: count_inv_run count_inv_init binding_inv_run binding_inv_init
        ids_inv_run ids_inv_init handles_inv_run handles_inv_init timers_inv_run timers_inv_init)

lemma pending_run:
  assumes "timers_inv s" "handles_inv s" "h < nextHandle s"
    and "(map_of (rooms s) rid = None \<and> map_of (members s) rid = None) \<or>
         (map_of (members s) rid = Some [] \<and> map_of (timeouts s) h = Some (rid, d))"
    and "\<forall>x \<in> set es. created_room x \<noteq> Some rid \<and> joined_room x \<noteq> Some rid
            \<and> x \<noteq> TimeoutFires h"
  shows "(map_of (rooms (run v s es)) rid = None \<and> map_of (members (run v s es)) rid = None) \<or>
         (map_of (members (run v s es)) rid = Some [] \<and>
          map_of (timeouts (run v s es)) h = Some (rid, d))"
  using assms
proof (induction es arbitrary: s)
  case Nil
  then show ?case by simp
next
  case (Cons e es)
  from Cons.prems(5) have e: "created_room e \<noteq> Some rid" "joined_room e \<noteq> Some rid"
    "e \<noteq> TimeoutFires h" by simp_all
  note st = pending_step[OF Cons.prems(1,3,4) e, of v]
  show ?case
    using Cons.prems(5)
    by (simp, intro Cons.IH timers_inv_step handles_inv_step Cons.prems(1,2) st[THEN conjunct1]
          st[THEN conjunct2]) simp
qed

lemma list_absent:
  assumes "ids_inv s" and "map_of (rooms s) rid = None"
    and "x \<in> set (snd (step v s (RoomListReq c)))" and "message x = RoomListAck rs"
    and "r \<in> set rs"
  shows "room_id r \<noteq> rid"
proof
  assume eq: "room_id r = rid"
  from assms(3,4,5) have "r \<in> snd ` set (rooms s)"
    by (auto simp: room_list_def callback_def)
  then obtain k where k: "(k, r) \<in> set (rooms s)" by auto
  with assms(1) eq have "k = rid" by (auto simp: ids_inv_def)
  with k have "rid \<in> fst ` set (rooms s)" by force
  with assms(2) show False by (simp add: map_of_eq_None_iff)
qed

lemma fire_idle:
  "map_of (timeouts s) h = None \<Longrightarrow> step v s (TimeoutFires h) = (s, [])"
  by (simp add: timeout_fires_def)

lemma fire_empty:
  assumes "map_of (timeouts s) h = Some (rid, d)" and "map_of (members s) rid = Some []"
  shows "snd (step v s (TimeoutFires h)) = [Emit (in_room s rid) (RoomDeleted None)]"
    and "map_of (rooms (fst (step v s (TimeoutFires h)))) rid = None"
    and "map_of (members (fst (step v s (TimeoutFires h)))) rid = None"
  using assms
  by (simp_all add: timeout_fires_def deletion_timer_callback_def deleteRoom_def io_to_def
        in_room_def delete_conv')

lemma leave_as:
  assumes "e = RoomLeave sid \<or> e = Disconnect sid"
  shows "\<exists>t. step ServerJs s e = handleLeaveRoom sid t
    \<and> step LibTs s e = handleLeaveRoom_ts sid t
    \<and> rooms t = rooms s \<and> members t = members s \<and> socketToRoom t = socketToRoom s
    \<and> roomDeletionTimers t = roomDeletionTimers s \<and> timeouts t = timeouts s
    \<and> nextHandle t = nextHandle s
    \<and> (\<forall>r. filter (\<lambda>x. x \<noteq> sid) (in_room t r) = filter (\<lambda>x. x \<noteq> sid) (in_room s r))"
proof (cases "e = RoomLeave sid")
  case True
  then show ?thesis by (intro exI[of _ s]) simp
next
  case False
  with assms have "e = Disconnect sid" by simp
  then show ?thesis by (intro exI[of _ "leave_all sid s"]) (simp add: in_room_leave_all)
qed

lemma grace_armed:
  assumes ev: "e = RoomLeave sid \<or> e = Disconnect sid"
    and b: "map_of (socketToRoom s) sid = Some info"
    and m: "map_of (members s) (roomId info) = Some ms"
    and no: "\<not> info_isOwner info"
    and last: "AList.delete (userId info) ms = []"
    and st: "step ServerJs s e = (s1, out1)"
  shows "out1 = [Emit (filter (\<lambda>x. x \<noteq> sid) (in_room s (roomId info)))
                   (MemberLeft (userId info))]"
    and "map_of (members s1) (roomId info) = Some []"
    and "map_of (rooms s1) (roomId info) =
           map_option (\<lambda>r. r\<lparr>memberCount := 0\<rparr>) (map_of (rooms s) (roomId info))"
    and "map_of (roomDeletionTimers s1) (roomId info) = Some (nextHandle s)"
    and "map_of (timeouts s1) (nextHandle s) = Some (roomId info, grace_delay)"
    and "nextHandle s1 = Suc (nextHandle s)"
proof -
  from leave_as[OF ev, of s] obtain t where t: "step ServerJs s e = handleLeaveRoom sid t"
    "rooms t = rooms s" "members t = members s" "socketToRoom t = socketToRoom s"
    "roomDeletionTimers t = roomDeletionTimers s" "timeouts t = timeouts s"
    "nextHandle t = nextHandle s"
    "\<And>r. filter (\<lambda>x. x \<noteq> sid) (in_room t r) = filter (\<lambda>x. x \<noteq> sid) (in_room s r)"
    by blast
  have bt: "map_of (socketToRoom t) sid = Some info" using b t by simp
  have mt: "map_of (members t) (roomId info) = Some ms" using m t by simp
  have h: "handleLeaveRoom sid t = (s1, out1)" using st t(1) by simp
  note f = leave_fields_member[OF bt mt no, unfolded h fst_conv snd_conv t(8)]
  show "out1 = [Emit (filter (\<lambda>x. x \<noteq> sid) (in_room s (roomId info)))
                   (MemberLeft (userId info))]"
    by (rule f(7))
  show "map_of (members s1) (roomId info) = Some []"
    using f(2) last by (simp add: update_conv')
  show "map_of (rooms s1) (roomId info) =
           map_option (\<lambda>r. r\<lparr>memberCount := 0\<rparr>) (map_of (rooms s) (roomId info))"
    using f(1) last t by (auto simp: update_conv' split: option.splits)
  show "map_of (roomDeletionTimers s1) (roomId info) = Some (nextHandle s)"
    using f(4) last t by (simp add: update_conv')
  show "map_of (timeouts s1) (nextHandle s) = Some (roomId info, grace_delay)"
    using f(5) last t by (simp add: update_conv')
  show "nextHandle s1 = Suc (nextHandle s)" using f(6) last t by simp
qed

lemma grace_expiry:
  assumes reach: "s = run ServerJs init es0"
    and ev: "e = RoomLeave sid \<or> e = Disconnect sid"
    and b: "map_of (socketToRoom s) sid = Some info"
    and m: "map_of (members s) (roomId info) = Some ms"
    and no: "\<not> info_isOwner info"
    and last: "AList.delete (userId info) ms = []"
    and st: "step ServerJs s e = (s1, out1)"
    and quiet: "\<forall>x \<in> set es. created_room x \<noteq> Some (roomId info)
                  \<and> joined_room x \<noteq> Some (roomId info) \<and> x \<noteq> TimeoutFires (nextHandle s)"
    and fire: "step ServerJs (run ServerJs s1 es) (TimeoutFires (nextHandle s)) = (s3, out3)"
  shows "map_of (rooms s3) (roomId info) = None"
    and "map_of (members s3) (roomId info) = None"
    and "map_of (rooms (run ServerJs s1 es)) (roomId info) \<noteq> None \<longrightarrow>
           out3 = [Emit (in_room (run ServerJs s1 es) (roomId info)) (RoomDeleted None)]"
    and "\<forall>es' c x rs r. (\<forall>y \<in> set es'. created_room y \<noteq> Some (roomId info)) \<longrightarrow>
           x \<in> set (snd (step ServerJs (run ServerJs s3 es') (RoomListReq c))) \<longrightarrow>
           message x = RoomListAck rs \<longrightarrow> r \<in> set rs \<longrightarrow> room_id r \<noteq> roomId info"
proof -
  let ?rid = "roomId info" and ?h = "nextHandle s"
  note A = grace_armed[OF ev b m no last st]
  have s1: "s1 = fst (step ServerJs s e)" using st by simp
  have inv1: "timers_inv s1" "handles_inv s1" "ids_inv s1"
    unfolding s1 reach
    by (simp_all add: timers_inv_step handles_inv_step ids_inv_step reach_inv)
  have G: "(map_of (rooms (run ServerJs s1 es)) ?rid = None \<and>
            map_of (members (run ServerJs s1 es)) ?rid = None) \<or>
           (map_of (members (run ServerJs s1 es)) ?rid = Some [] \<and>
            map_of (timeouts (run ServerJs s1 es)) ?h = Some (?rid, grace_delay))"
    by (rule pending_run[OF inv1(1,2) _ _ quiet]) (simp_all add: A)
  have s3: "s3 = fst (step ServerJs (run ServerJs s1 es) (TimeoutFires ?h))"
    and o3: "out3 = snd (step ServerJs (run ServerJs s1 es) (TimeoutFires ?h))"
    using fire by simp_all
  show r3: "map_of (rooms s3) ?rid = None"
    using G
  proof
    assume "map_of (rooms (run ServerJs s1 es)) ?rid = None \<and>
            map_of (members (run ServerJs s1 es)) ?rid = None"
    then show ?thesis unfolding s3 by (intro rooms_absent_step) simp_all
  next
    assume "map_of (members (run ServerJs s1 es)) ?rid = Some [] \<and>
            map_of (timeouts (run ServerJs s1 es)) ?h = Some (?rid, grace_delay)"
    then show ?thesis unfolding s3 by (intro fire_empty(2)[where d = grace_delay]) simp_all
  qed
  show "map_of (members s3) ?rid = None"
    using G
  proof
    assume "map_of (rooms (run ServerJs s1 es)) ?rid = None \<and>
            map_of (members (run ServerJs s1 es)) ?rid = None"
    then show ?thesis unfolding s3 by (intro members_absent_step) simp_all
  next
    assume "map_of (members (run ServerJs s1 es)) ?rid = Some [] \<and>
            map_of (timeouts (run ServerJs s1 es)) ?h = Some (?rid, grace_delay)"
    then show ?thesis unfolding s3 by (intro fire_empty(3)[where d = grace_delay]) simp_all
  qed
  show "map_of (rooms (run ServerJs s1 es)) ?rid \<noteq> None \<longrightarrow>
           out3 = [Emit (in_room (run ServerJs s1 es) ?rid) (RoomDeleted None)]"
  proof
    assume "map_of (rooms (run ServerJs s1 es)) ?rid \<noteq> None"
    with G have "map_of (members (run ServerJs s1 es)) ?rid = Some []"
      "map_of (timeouts (run ServerJs s1 es)) ?h = Some (?rid, grace_delay)" by auto
    from fire_empty(1)[OF this(2,1)] show
      "out3 = [Emit (in_room (run ServerJs s1 es) ?rid) (RoomDeleted None)]"
      unfolding o3 .
  qed
  have inv3: "ids_inv s3"
    unfolding s3 by (intro ids_inv_step ids_inv_run inv1)
  show "\<forall>es' c x rs r. (\<forall>y \<in> set es'. created_room y \<noteq> Some ?rid) \<longrightarrow>
           x \<in> set (snd (step ServerJs (run ServerJs s3 es') (RoomListReq c))) \<longrightarrow>
           message x = RoomListAck rs \<longrightarrow> r \<in> set rs \<longrightarrow> room_id r \<noteq> ?rid"
  proof (intro allI impI)
    fix es' c x rs r
    assume q: "\<forall>y \<in> set es'. created_room y \<noteq> Some ?rid"
      and x: "x \<in> set (snd (step ServerJs (run ServerJs s3 es') (RoomListReq c)))"
        "message x = RoomListAck rs" "r \<in> set rs"
    have "map_of (rooms (run ServerJs s3 es')) ?rid = None"
      by (rule rooms_absent_run[OF r3 q])
    from list_absent[OF ids_inv_run[OF inv3] this x] show "room_id r \<noteq> ?rid" .
  qed
qed

lemma grace_cancelled:
  assumes reach: "t = run ServerJs init es1"
    and room: "map_of (rooms t) (j_roomId data) = Some room"
    and pw: "\<not> password_mismatch room data"
    and reg: "map_of (roomDeletionTimers t) (j_roomId data) = Some h"
    and st: "step ServerJs t (RoomJoin c data now) = (t', out)"
  shows "map_of (rooms t') (j_roomId data) \<noteq> None"
    and "map_of (roomDeletionTimers t') (j_roomId data) = None"
    and "\<forall>es. map_of (timeouts (run ServerJs t' es)) h = None \<and>
              step ServerJs (run ServerJs t' es) (TimeoutFires h) = (run ServerJs t' es, [])"
proof -
  from count_invD[OF reach_inv(1) room[unfolded reach]] obtain ms where
    ms: "map_of (members t) (j_roomId data) = Some ms" unfolding reach by blast
  have t': "t' = fst (room_join c data now t)" using st by simp
  note f = join_fields[OF room pw ms, of c now, folded t']
  show "map_of (rooms t') (j_roomId data) \<noteq> None" by (simp add: f(1) update_conv')
  show "map_of (roomDeletionTimers t') (j_roomId data) = None" by (simp add: f(5) delete_conv')
  have "handles_inv t" unfolding reach by (rule reach_inv)
  with reg have "h < nextHandle t" by (auto simp: handles_inv_def)
  then have lt: "h < nextHandle t'" by (simp add: f(6))
  have none: "map_of (timeouts t') h = None" using reg by (simp add: f(4) delete_conv')
  show "\<forall>es. map_of (timeouts (run ServerJs t' es)) h = None \<and>
              step ServerJs (run ServerJs t' es) (TimeoutFires h) = (run ServerJs t' es, [])"
    using cancelled_run[OF none lt, of ServerJs] fire_idle by blast
qed

lemma immediate_delete_ts:
  assumes ev: "e = RoomLeave sid \<or> e = Disconnect sid"
    and b: "map_of (socketToRoom s) sid = Some info"
    and m: "map_of (members s) (roomId info) = Some ms"
    and last: "AList.delete (userId info) ms = []"
    and st: "step LibTs s e = (u, outu)"
  shows "map_of (rooms u) (roomId info) = None"
    and "map_of (members u) (roomId info) = None"
    and "timeouts u = timeouts s"
    and "map message outu = [MemberLeft (userId info), RoomDeleted None]"
proof -
  from leave_as[OF ev, of s] obtain t where t: "step LibTs s e = handleLeaveRoom_ts sid t"
    "rooms t = rooms s" "members t = members s" "socketToRoom t = socketToRoom s"
    "timeouts t = timeouts s"
    by blast
  have bt: "map_of (socketToRoom t) sid = Some info" using b t by simp
  have mt: "map_of (members t) (roomId info) = Some ms" using m t by simp
  have h: "handleLeaveRoom_ts sid t = (u, outu)" using st t(1) by simp
  note f = leave_ts_fields[OF bt mt, unfolded h fst_conv snd_conv]
  show "map_of (rooms u) (roomId info) = None" using f(1) last by (simp add: delete_conv')
  show "map_of (members u) (roomId info) = None" using f(2) last by (simp add: delete_conv')
  show "timeouts u = timeouts s" using leave_ts_timers(2)[of sid t] h t by simp
  show "map message outu = [MemberLeft (userId info), RoomDeleted None]"
    using f(4) last by simp
qed

lemma unbound_room_step:
  assumes "map_of (rooms s) rid = None"
    and "\<forall>x i. map_of (socketToRoom s) x = Some i \<longrightarrow> roomId i \<noteq> rid"
    and "created_room e \<noteq> Some rid"
  shows "\<forall>x i. map_of (socketToRoom (fst (step v s e))) x = Some i \<longrightarrow> roomId i \<noteq> rid"
  using assms
  by (cases rule: step_cases[of v s e])
     (auto simp: update_conv' delete_conv' map_of_evict split: if_splits)

lemma unbound_room_run:
  assumes "map_of (rooms s) rid = None"
    and "\<forall>x i. map_of (socketToRoom s) x = Some i \<longrightarrow> roomId i \<noteq> rid"
    and "\<forall>e \<in> set es. created_room e \<noteq> Some rid"
  shows "\<forall>x i. map_of (socketToRoom (run v s es)) x = Some i \<longrightarrow> roomId i \<noteq> rid"
  using assms
proof (induction es arbitrary: s)
  case Nil
  then show ?case by simp
next
  case (Cons e es)
  have 1: "map_of (rooms (fst (step v s e))) rid = None"
    using Cons.prems by (intro rooms_absent_step) simp_all
  have 2: "\<forall>x i. map_of (socketToRoom (fst (step v s e))) x = Some i \<longrightarrow> roomId i \<noteq> rid"
    using Cons.prems by (intro unbound_room_step) simp_all
  from Cons.IH[OF 1 2] Cons.prems(3) show ?case by simp
qed

lemma in_room_iff: "x \<in> set (in_room s r) \<longleftrightarrow> (x, r) \<in> set (adapter s)"
  by (force simp: in_room_def)


section \<open>Member records left behind\<close>

lemma ghost_run:
  assumes "binding_inv s"
    and "map_of (members s) a = None \<or>
         ((\<exists>ms'. map_of (members s) a = Some ms' \<and> map_of ms' c \<noteq> None) \<and>
          (\<forall>info. map_of (socketToRoom s) c = Some info \<longrightarrow> roomId info \<noteq> a))"
    and "\<forall>x \<in> set es. created_room x \<noteq> Some a \<and> \<not> (sender x = Some c \<and> joined_room x = Some a)"
  shows "map_of (members (run v s es)) a = None \<or>
         ((\<exists>ms'. map_of (members (run v s es)) a = Some ms' \<and> map_of ms' c \<noteq> None) \<and>
          (\<forall>info. map_of (socketToRoom (run v s es)) c = Some info \<longrightarrow> roomId info \<noteq> a))"
  using assms
proof (induction es arbitrary: s)
  case Nil
  then show ?case by simp
next
  case (Cons e es)
  from Cons.prems(3) have e: "created_room e \<noteq> Some a"
    "\<not> (sender e = Some c \<and> joined_room e = Some a)" by simp_all
  have q: "\<forall>x \<in> set es. created_room x \<noteq> Some a \<and> \<not> (sender x = Some c \<and> joined_room x = Some a)"
    using Cons.prems(3) by simp
  have bi: "binding_inv (fst (step v s e))" by (rule binding_inv_step[OF Cons.prems(1)])
  have "map_of (members (fst (step v s e))) a = None \<or>
         ((\<exists>ms'. map_of (members (fst (step v s e))) a = Some ms' \<and> map_of ms' c \<noteq> None) \<and>
          (\<forall>info. map_of (socketToRoom (fst (step v s e))) c = Some info \<longrightarrow> roomId info \<noteq> a))"
    using Cons.prems(2)
  proof
    assume "map_of (members s) a = None"
    from members_absent_step[OF this e(1)] show ?thesis by simp
  next
    assume h: "(\<exists>ms'. map_of (members s) a = Some ms' \<and> map_of ms' c \<noteq> None) \<and>
          (\<forall>info. map_of (socketToRoom s) c = Some info \<longrightarrow> roomId info \<noteq> a)"
    then obtain ms' where ms': "map_of (members s) a = Some ms'" "map_of ms' c \<noteq> None" by blast
    from h have n: "\<forall>info. map_of (socketToRoom s) c = Some info \<longrightarrow> roomId info \<noteq> a" by blast
    show ?thesis by (rule ghost_step[OF Cons.prems(1) ms' n e])
  qed
  from Cons.IH[OF bi this q] show ?case by simp
qed

lemma leave_other_room:
  assumes "e = RoomLeave c \<or> e = Disconnect c"
    and "\<forall>info. map_of (socketToRoom s) c = Some info \<longrightarrow> roomId info \<noteq> a"
  shows "map_of (members (fst (step v s e))) a = map_of (members s) a"
  using assms
  by (cases rule: step_cases[of v s e])
     (auto simp: update_conv' delete_conv' split: if_splits option.splits)

lemma leave_removes_record_handler:
  assumes b: "map_of (socketToRoom t) c = Some i" and uid: "userId i = c"
  shows "map_of (members (fst (handleLeaveRoom c t))) (roomId i) = Some msb \<Longrightarrow>
           map_of msb c = None"
    and "map_of (members (fst (handleLeaveRoom_ts c t))) (roomId i) = Some msb \<Longrightarrow>
           map_of msb c = None"
proof -
  show "map_of msb c = None"
    if h: "map_of (members (fst (handleLeaveRoom c t))) (roomId i) = Some msb"
  proof (cases "map_of (members t) (roomId i)")
    case None
    with h show ?thesis by (simp add: leave_fields_nomembers(2)[OF b None])
  next
    case ms: (Some ms)
    show ?thesis
      using h uid
      by (cases "info_isOwner i")
         (auto simp: leave_fields_owner(2)[OF b ms] leave_fields_member(2)[OF b ms]
            update_conv' delete_conv')
  qed
  show "map_of msb c = None"
    if h: "map_of (members (fst (handleLeaveRoom_ts c t))) (roomId i) = Some msb"
  proof (cases "map_of (members t) (roomId i)")
    case None
    with h show ?thesis by (simp add: leave_ts_fields_nomembers(2)[OF b None])
  next
    case ms: (Some ms)
    show ?thesis
      using h uid
      by (auto simp: leave_ts_fields(2)[OF b ms] update_conv' delete_conv' split: if_splits)
  qed
qed

lemma leave_removes_record:
  assumes "binding_inv s" and "e = RoomLeave c \<or> e = Disconnect c"
    and "map_of (socketToRoom s) c = Some i"
    and "map_of (members (fst (step v s e))) (roomId i) = Some msb"
  shows "map_of msb c = None"
proof -
  have uid: "userId i = c" using assms(1,3) by (auto simp: binding_inv_def)
  from leave_as[OF assms(2), of s] obtain t where t: "step ServerJs s e = handleLeaveRoom c t"
    "step LibTs s e = handleLeaveRoom_ts c t" "socketToRoom t = socketToRoom s"
    by blast
  have b: "map_of (socketToRoom t) c = Some i" using assms(3) t(3) by simp
  show ?thesis
    using assms(4) t(1,2) leave_removes_record_handler[OF b uid, of msb]
    by (cases v) simp_all
qed

lemma join_lists_member:
  assumes r: "map_of (rooms s) (j_roomId data) = Some room"
    and pw: "\<not> password_mismatch room data"
    and m: "map_of (members s) (j_roomId data) = Some ms"
    and c: "map_of ms c = Some mem" and d: "d \<noteq> c"
  shows "\<exists>rsp l. Emit [d] (Ack rsp) \<in> set (snd (step v s (RoomJoin d data now)))
            \<and> success rsp \<and> resp_members rsp = Some l \<and> mem \<in> set l"
proof -
  have in_upd: "mem \<in> snd ` set (AList.update d x ms)" for x
  proof -
    have "map_of (AList.update d x ms) c = Some mem" using c d by (simp add: update_conv')
    from map_of_SomeD[OF this] show ?thesis by force
  qed
  show ?thesis
  proof (cases v)
    case ServerJs
    show ?thesis
      unfolding ServerJs
      by (simp add: join_out[OF r pw m] in_upd)
  next
    case LibTs
    show ?thesis
      unfolding LibTs
      by (simp add: join_ts_out[OF r pw m] in_upd)
  qed
qed

section \<open>The claims\<close>

text \<open>
  C9. In every state the server reaches from its initial state, in either file, every room
  of \<open>rooms\<close> has a member map, and the room's \<open>memberCount\<close> is the size of that map,
  which is the number of its keys. As this holds after every event, each handler that adds
  or removes a member has re-established it when it returns.
\<close>

theorem memberCount_is_member_map_size:
  assumes "map_of (rooms (run v init es)) rid = Some room"
  shows "\<exists>ms. map_of (members (run v init es)) rid = Some ms \<and> memberCount room = length ms
           \<and> memberCount room = card (fst ` set ms)"
proof -
  have "count_inv (run v init es)" by (rule count_inv_run[OF count_inv_init])
  from count_invD[OF this assms] obtain ms where
    ms: "map_of (members (run v init es)) rid = Some ms" "distinct (map fst ms)"
        "memberCount room = length ms" by blast
  from ms(2) have "card (set (map fst ms)) = length (map fst ms)" by (rule distinct_card)
  then have "card (fst ` set ms) = length ms" by simp
  with ms show ?thesis by auto
qed

theorem memberCount_is_member_map_size_witness:
  "\<exists>ms. map_of (members (run ServerJs init
            [Connection ''s1'', RoomCreate ''s1'' alice_room ''ROOM01'' ''TOKEN1'' 1000,
             Connection ''s2'', RoomJoin ''s2'' (join_as ''ROOM01'' ''bob'' None None) 2000]))
          ''ROOM01'' = Some ms \<and> (2::nat) = length ms \<and> (2::nat) = card (fst ` set ms)"
proof -
  have h: "map_of (rooms (run ServerJs init
            [Connection ''s1'', RoomCreate ''s1'' alice_room ''ROOM01'' ''TOKEN1'' 1000,
             Connection ''s2'', RoomJoin ''s2'' (join_as ''ROOM01'' ''bob'' None None) 2000]))
          ''ROOM01'' =
        Some \<lparr>room_id = ''ROOM01'', room_name = ''movie night'', description = ''demo'',
              password = None, isPublic = True, ownerId = ''s1'', ownerName = ''alice'',
              ownerToken = ''TOKEN1'', memberCount = 2, currentState = None,
              createdAt = 1000, lastOwnerHeartbeat = 1000\<rparr>"
    by code_simp
  from memberCount_is_member_map_size[OF h] show ?thesis by simp
qed

text \<open>
  C7. A \<open>room:join\<close> for a room that has a (non-empty) password, with a payload whose
  password is missing or different, is answered to the requesting socket only, with
  \<open>success = false\<close>, the non-empty error text and neither \<open>room\<close> nor \<open>members\<close>; the
  server state is the same afterwards, so no member, no count, no binding and no timer has
  changed, and nothing is sent to anybody else. This is so in both files.
\<close>

theorem join_wrong_password_rejected:
  assumes "map_of (rooms s) (j_roomId data) = Some room"
    and "password room = Some p" and "p \<noteq> []" and "j_password data \<noteq> Some p"
  shows "step v s (RoomJoin sid data now) =
           (s, [Emit [sid] (Ack \<lparr>success = False, resp_room = None, resp_members = None,
                                  error = Some err_wrong_password\<rparr>)])
         \<and> err_wrong_password \<noteq> []"
  using assms
  by (cases v) (simp_all add: room_join_def room_join_ts_def password_mismatch_def truthy_def
        callback_def failure_def err_wrong_password_def)

theorem join_wrong_password_rejected_witness:
  "step ServerJs (run ServerJs init
       [Connection ''s1'', RoomCreate ''s1'' locked_room ''ROOM02'' ''TOKEN2'' 1000])
     (RoomJoin ''s2'' (join_as ''ROOM02'' ''bob'' (Some ''guess'') None) 2000) =
   (run ServerJs init
       [Connection ''s1'', RoomCreate ''s1'' locked_room ''ROOM02'' ''TOKEN2'' 1000],
    [Emit [''s2''] (Ack \<lparr>success = False, resp_room = None, resp_members = None,
                           error = Some err_wrong_password\<rparr>)])
   \<and> err_wrong_password \<noteq> []"
proof -
  have h1: "map_of (rooms (run ServerJs init
       [Connection ''s1'', RoomCreate ''s1'' locked_room ''ROOM02'' ''TOKEN2'' 1000]))
       (j_roomId (join_as ''ROOM02'' ''bob'' (Some ''guess'') None)) =
     Some \<lparr>room_id = ''ROOM02'', room_name = ''private'', description = ''demo'',
              password = Some ''pw'', isPublic = False, ownerId = ''s1'', ownerName = ''alice'',
              ownerToken = ''TOKEN2'', memberCount = 1, currentState = None,
              createdAt = 1000, lastOwnerHeartbeat = 1000\<rparr>"
    by code_simp
  have h2: "password \<lparr>room_id = ''ROOM02'', room_name = ''private'', description = ''demo'',
              password = Some ''pw'', isPublic = False, ownerId = ''s1'', ownerName = ''alice'',
              ownerToken = ''TOKEN2'', memberCount = 1, currentState = None,
              createdAt = 1000, lastOwnerHeartbeat = 1000\<rparr> = Some ''pw''"
    by simp
  have h3: "''pw'' \<noteq> []" by simp
  have h4: "j_password (join_as ''ROOM02'' ''bob'' (Some ''guess'') None) \<noteq> Some ''pw''"
    by (simp add: join_as_def)
  show ?thesis by (rule join_wrong_password_rejected[OF h1 h2 h3 h4])
qed

text \<open>
  C1, at the input where \<open>server.js\<close> departs from it. Socket \<open>s1\<close> creates a room and is
  its owner; socket \<open>s2\<close> joins with the room's owner token while the member record of
  \<open>s1\<close> is still in the map. Afterwards the member map of the room holds two members with
  \<open>isOwner = true\<close>.
\<close>

theorem two_owners_after_reclaim:
  "map_option owners (map_of (members (run ServerJs init
      [Connection ''s1'', RoomCreate ''s1'' alice_room ''ROOM01'' ''TOKEN1'' 1000,
       Connection ''s2'',
       RoomJoin ''s2'' (join_as ''ROOM01'' ''alice'' None (Some ''TOKEN1'')) 2000]))
     ''ROOM01'') = Some [''s1'', ''s2'']"
  by code_simp

text \<open>
  C8, at the input where \<open>server.js\<close> departs from it. A room with the members \<open>s1\<close>
  (owner) and \<open>s2\<close> is deleted by the cleanup sweep, which leaves the bindings and the
  Socket.IO room in place. The \<open>chat:message\<close> that \<open>s2\<close> sends afterwards is delivered
  to \<open>s2\<close> and \<open>s1\<close>, although the room is no longer in the registry.
\<close>

theorem chat_after_sweep_is_broadcast:
  "map_of (rooms (run ServerJs init
      [Connection ''s1'', RoomCreate ''s1'' alice_room ''ROOM01'' ''TOKEN1'' 1000,
       Connection ''s2'', RoomJoin ''s2'' (join_as ''ROOM01'' ''bob'' None None) 2000,
       CleanupTick 400000])) ''ROOM01'' = None
   \<and> snd (step ServerJs (run ServerJs init
      [Connection ''s1'', RoomCreate ''s1'' alice_room ''ROOM01'' ''TOKEN1'' 1000,
       Connection ''s2'', RoomJoin ''s2'' (join_as ''ROOM01'' ''bob'' None None) 2000,
       CleanupTick 400000]) (ChatMessageReq ''s2'' ''hello'' TextMsg ''m1'' 400500))
     = [Emit [''s2'', ''s1''] (ChatMessageEv \<lparr>msg_id = ''m1'', msg_userId = ''s2'',
            msg_userName = ''bob'', content = ''hello'', msg_type = TextMsg,
            timestamp = 400500\<rparr>)]"
  by code_simp

text \<open>
  C2, at the input where the code departs from it. \<open>s1\<close> creates the public room
  \<open>ROOM01\<close> with owner token \<open>TOKEN1\<close>. The reply to the \<open>room:join\<close> of \<open>s2\<close>, who
  sends no token and joins as an ordinary member, carries \<open>TOKEN1\<close>; so does the reply to
  the \<open>room:list\<close> of a third socket, who is in no room.
\<close>

theorem ownerToken_sent_to_joiner_and_lister:
  "map (\<lambda>e. (recipients e, tokens_of (message e)))
      (snd (step ServerJs (run ServerJs init
              [Connection ''s1'', RoomCreate ''s1'' alice_room ''ROOM01'' ''TOKEN1'' 1000,
               Connection ''s2''])
            (RoomJoin ''s2'' (join_as ''ROOM01'' ''bob'' None None) 2000)))
     = [([''s1''], []), ([''s2''], [''TOKEN1''])]
   \<and> map (\<lambda>e. (recipients e, tokens_of (message e)))
      (snd (step ServerJs (run ServerJs init (two_members @ [Connection ''s3'']))
            (RoomListReq ''s3'')))
     = [([''s3''], [''TOKEN1''])]"
  by code_simp

text \<open>
  C3, at an input where \<open>watch-room-server.ts\<close> departs from it. The owner \<open>s1\<close> leaves a
  room of three members: the two others get \<open>member-left\<close> only, the room stays in the
  registry with \<open>memberCount = 2\<close>, and the bindings of \<open>s2\<close> and \<open>s3\<close> stay.
\<close>

theorem owner_leaves_in_lib_ts:
  "map_option ownerId (map_of (rooms (run LibTs init three_members)) ''ROOM01'') = Some ''s1''
   \<and> map_option info_isOwner (map_of (socketToRoom (run LibTs init three_members)) ''s1'')
       = Some True
   \<and> snd (step LibTs (run LibTs init three_members) (RoomLeave ''s1''))
       = [Emit [''s3'', ''s2''] (MemberLeft ''s1'')]
   \<and> map_option memberCount (map_of (rooms (fst (step LibTs (run LibTs init three_members)
         (RoomLeave ''s1'')))) ''ROOM01'') = Some 2
   \<and> map fst (socketToRoom (fst (step LibTs (run LibTs init three_members) (RoomLeave ''s1''))))
       = [''s2'', ''s3'']"
  by code_simp

text \<open>
  C3 as amended: the claim, for \<open>server.js\<close>. In a reachable state let the current owner
  of a room leave or disconnect: the socket that \<open>ownerId\<close> of the room names and whose
  binding has \<open>isOwner = true\<close>; and let every socket bound to the room have a \<open>Member\<close>
  record in it. Then every other member whose binding names the room receives
  \<open>member-left\<close> and exactly one \<open>room-deleted\<close>, with reason \<open>owner_left\<close>; no
  \<open>room-deleted\<close> without a reason is sent; the binding of every member is removed; the
  room, its member map and its registered deletion timer are gone, the pending callback of
  that timer cancelled. From then on, whatever events follow, as long as no \<open>room:create\<close>
  draws the same id again: the room and its member map stay absent, no binding names the
  room, and every \<open>room:join\<close> for it is answered with the not-found error and changes
  nothing.
\<close>

theorem owner_departure_disbands_in_server_js:
  assumes reach: "s = run ServerJs init es0"
    and ev: "e = RoomLeave sid \<or> e = Disconnect sid"
    and b: "map_of (socketToRoom s) sid = Some info"
    and o: "info_isOwner info"
    and r: "map_of (rooms s) (roomId info) = Some room"
    and own: "ownerId room = sid"
    and m: "map_of (members s) (roomId info) = Some ms"
    and bound: "\<forall>x i. map_of (socketToRoom s) x = Some i \<and> roomId i = roomId info \<longrightarrow>
                 map_of ms x \<noteq> None"
    and js: "step ServerJs s e = (s', out)"
  shows "(\<forall>x i. map_of ms x \<noteq> None \<and> x \<noteq> sid
              \<and> map_of (socketToRoom s) x = Some i \<and> roomId i = roomId info \<longrightarrow>
            received x out = [MemberLeft sid, RoomDeleted (Some ''owner_left'')])
     \<and> (\<forall>x \<in> set out. message x \<noteq> RoomDeleted None)
     \<and> (\<forall>x. map_of ms x \<noteq> None \<longrightarrow> map_of (socketToRoom s') x = None)
     \<and> map_of (rooms s') (roomId info) = None
     \<and> map_of (members s') (roomId info) = None
     \<and> map_of (roomDeletionTimers s') (roomId info) = None
     \<and> (\<forall>h. map_of (roomDeletionTimers s) (roomId info) = Some h \<longrightarrow>
            map_of (timeouts s') h = None)
     \<and> (\<forall>es. (\<forall>x \<in> set es. created_room x \<noteq> Some (roomId info)) \<longrightarrow>
            map_of (rooms (run ServerJs s' es)) (roomId info) = None
            \<and> map_of (members (run ServerJs s' es)) (roomId info) = None
            \<and> (\<forall>x i. map_of (socketToRoom (run ServerJs s' es)) x = Some i \<longrightarrow>
                   roomId i \<noteq> roomId info)
            \<and> (\<forall>x d now. j_roomId d = roomId info \<longrightarrow>
                   step ServerJs (run ServerJs s' es) (RoomJoin x d now) =
                     (run ServerJs s' es, [Emit [x] (failure err_room_not_found)])))"
proof -
  let ?rid = "roomId info"
  have uid: "userId info = sid"
    using reach_inv(2)[of ServerJs es0] b unfolding reach binding_inv_def by blast
  have joined: "joined_inv s"
    unfolding reach by (rule joined_inv_run[OF joined_inv_init])
  from leave_as[OF ev, of s] obtain t where t: "step ServerJs s e = handleLeaveRoom sid t"
    "members t = members s" "socketToRoom t = socketToRoom s"
    "roomDeletionTimers t = roomDeletionTimers s"
    "\<And>r. filter (\<lambda>x. x \<noteq> sid) (in_room t r) = filter (\<lambda>x. x \<noteq> sid) (in_room s r)"
    by blast
  have bt: "map_of (socketToRoom t) sid = Some info" using b t by simp
  have mt: "map_of (members t) ?rid = Some ms" using m t by simp
  have h: "handleLeaveRoom sid t = (s', out)" using js t(1) by simp
  note L = owner_leave[OF bt mt o, unfolded h fst_conv snd_conv t(5) uid]
  note f3 = leave_fields_owner(3)[OF bt mt o, unfolded h fst_conv uid t(3)]
  have out: "out = [Emit (filter (\<lambda>x. x \<noteq> sid) (in_room s ?rid)) (MemberLeft sid),
                    Emit (filter (\<lambda>x. x \<noteq> sid) (in_room s ?rid))
                      (RoomDeleted (Some ''owner_left''))]"
    by (rule L(1))
  have c1: "\<forall>x i. map_of ms x \<noteq> None \<and> x \<noteq> sid
              \<and> map_of (socketToRoom s) x = Some i \<and> roomId i = ?rid \<longrightarrow>
            received x out = [MemberLeft sid, RoomDeleted (Some ''owner_left'')]"
  proof (intro allI impI)
    fix x i assume x: "map_of ms x \<noteq> None \<and> x \<noteq> sid
              \<and> map_of (socketToRoom s) x = Some i \<and> roomId i = ?rid"
    then have i: "map_of (socketToRoom s) x = Some i" "roomId i = ?rid" by simp_all
    from joined i(1) have "(x, roomId i) \<in> set (adapter s)"
      unfolding joined_inv_def by blast
    then have "(x, ?rid) \<in> set (adapter s)" by (simp add: i(2))
    with x have "x \<in> set (filter (\<lambda>x. x \<noteq> sid) (in_room s ?rid))"
      by (simp add: in_room_iff)
    then show "received x out = [MemberLeft sid, RoomDeleted (Some ''owner_left'')]"
      by (simp add: out received_both)
  qed
  have c2: "\<forall>x \<in> set out. message x \<noteq> RoomDeleted None" by (simp add: out)
  have c3: "\<forall>x. map_of ms x \<noteq> None \<longrightarrow> map_of (socketToRoom s') x = None"
  proof (intro allI impI)
    fix x assume x: "map_of ms x \<noteq> None"
    show "map_of (socketToRoom s') x = None"
    proof (cases "x = sid")
      case True
      then show ?thesis using L(3) by simp
    next
      case False
      with x have "map_of (AList.delete sid ms) x \<noteq> None" by (simp add: delete_conv')
      with L(2) show ?thesis by blast
    qed
  qed
  have r0: "map_of (rooms s') ?rid = None" by (rule L(4))
  have m0: "map_of (members s') ?rid = None" by (rule L(5))
  have c6: "map_of (roomDeletionTimers s') ?rid = None" by (rule L(6))
  have c7: "\<forall>h. map_of (roomDeletionTimers s) ?rid = Some h \<longrightarrow> map_of (timeouts s') h = None"
    using L(7) t(4) by simp
  have nb: "\<forall>x i. map_of (socketToRoom s') x = Some i \<longrightarrow> roomId i \<noteq> ?rid"
  proof (intro allI impI)
    fix x i assume x: "map_of (socketToRoom s') x = Some i"
    then have old: "map_of (socketToRoom s) x = Some i" and "x \<noteq> sid"
      and nk: "x \<notin> set (map fst (AList.delete sid ms))"
      by (auto simp: f3 delete_conv' map_of_evict split: if_splits)
    then have "map_of ms x = None"
      by (simp add: map_of_eq_None_iff[symmetric] delete_conv')
    with bound[rule_format, of x i] old show "roomId i \<noteq> ?rid" by blast
  qed
  have c8: "\<forall>es. (\<forall>x \<in> set es. created_room x \<noteq> Some ?rid) \<longrightarrow>
            map_of (rooms (run ServerJs s' es)) ?rid = None
            \<and> map_of (members (run ServerJs s' es)) ?rid = None
            \<and> (\<forall>x i. map_of (socketToRoom (run ServerJs s' es)) x = Some i \<longrightarrow> roomId i \<noteq> ?rid)
            \<and> (\<forall>x d now. j_roomId d = ?rid \<longrightarrow>
                   step ServerJs (run ServerJs s' es) (RoomJoin x d now) =
                     (run ServerJs s' es, [Emit [x] (failure err_room_not_found)]))"
  proof (intro allI impI)
    fix es assume q: "\<forall>x \<in> set es. created_room x \<noteq> Some ?rid"
    have a: "map_of (rooms (run ServerJs s' es)) ?rid = None" by (rule rooms_absent_run[OF r0 q])
    have b: "map_of (members (run ServerJs s' es)) ?rid = None"
      by (rule members_absent_run[OF m0 q])
    have c: "\<forall>x i. map_of (socketToRoom (run ServerJs s' es)) x = Some i \<longrightarrow> roomId i \<noteq> ?rid"
      by (rule unbound_room_run[OF r0 nb q])
    have d: "\<forall>x d now. j_roomId d = ?rid \<longrightarrow>
                   step ServerJs (run ServerJs s' es) (RoomJoin x d now) =
                     (run ServerJs s' es, [Emit [x] (failure err_room_not_found)])"
      using a by (simp add: join_fail callback_def)
    from a b c d show "map_of (rooms (run ServerJs s' es)) ?rid = None
            \<and> map_of (members (run ServerJs s' es)) ?rid = None
            \<and> (\<forall>x i. map_of (socketToRoom (run ServerJs s' es)) x = Some i \<longrightarrow> roomId i \<noteq> ?rid)
            \<and> (\<forall>x d now. j_roomId d = ?rid \<longrightarrow>
                   step ServerJs (run ServerJs s' es) (RoomJoin x d now) =
                     (run ServerJs s' es, [Emit [x] (failure err_room_not_found)]))"
      by blast
  qed
  from c1 c2 c3 r0 m0 c6 c7 c8 show ?thesis by blast
qed

theorem owner_departure_disbands_in_server_js_witness:
  "received ''s2'' (snd (step ServerJs (run ServerJs init three_members) (RoomLeave ''s1'')))
     = [MemberLeft ''s1'', RoomDeleted (Some ''owner_left'')]
   \<and> received ''s3'' (snd (step ServerJs (run ServerJs init three_members) (RoomLeave ''s1'')))
     = [MemberLeft ''s1'', RoomDeleted (Some ''owner_left'')]
   \<and> map_of (socketToRoom (fst (step ServerJs (run ServerJs init three_members)
         (RoomLeave ''s1'')))) ''s2'' = None
   \<and> map_of (rooms (fst (step ServerJs (run ServerJs init three_members)
         (RoomLeave ''s1'')))) ''ROOM01'' = None
   \<and> step ServerJs (run ServerJs (fst (step ServerJs (run ServerJs init three_members)
            (RoomLeave ''s1''))) [Heartbeat ''s2'' 4000])
         (RoomJoin ''s2'' (join_as ''ROOM01'' ''bob'' None None) 5000)
       = (run ServerJs (fst (step ServerJs (run ServerJs init three_members)
            (RoomLeave ''s1''))) [Heartbeat ''s2'' 4000],
          [Emit [''s2''] (failure err_room_not_found)])"
proof -
  let ?s = "run ServerJs init three_members"
  let ?i1 = "\<lparr>roomId = ''ROOM01'', userId = ''s1'', userName = ''alice'', info_isOwner = True\<rparr>"
  let ?i2 = "\<lparr>roomId = ''ROOM01'', userId = ''s2'', userName = ''bob'', info_isOwner = False\<rparr>"
  let ?i3 = "\<lparr>roomId = ''ROOM01'', userId = ''s3'', userName = ''carol'', info_isOwner = False\<rparr>"
  let ?r = "\<lparr>room_id = ''ROOM01'', room_name = ''movie night'', description = ''demo'',
              password = None, isPublic = True, ownerId = ''s1'', ownerName = ''alice'',
              ownerToken = ''TOKEN1'', memberCount = 3, currentState = None,
              createdAt = 1000, lastOwnerHeartbeat = 1000\<rparr>"
  let ?ms = "[(''s1'', \<lparr>member_id = ''s1'', member_name = ''alice'', isOwner = True,
                        lastHeartbeat = 1000\<rparr>),
              (''s2'', \<lparr>member_id = ''s2'', member_name = ''bob'', isOwner = False,
                        lastHeartbeat = 2000\<rparr>),
              (''s3'', \<lparr>member_id = ''s3'', member_name = ''carol'', isOwner = False,
                        lastHeartbeat = 3000\<rparr>)]"
  have idx: "socketToRoom ?s = [(''s1'', ?i1), (''s2'', ?i2), (''s3'', ?i3)]" by code_simp
  have b: "map_of (socketToRoom ?s) ''s1'' = Some ?i1" by (simp add: idx)
  have b2: "map_of (socketToRoom ?s) ''s2'' = Some ?i2" by (simp add: idx)
  have b3: "map_of (socketToRoom ?s) ''s3'' = Some ?i3" by (simp add: idx)
  have o: "info_isOwner ?i1" by simp
  have r: "map_of (rooms ?s) (roomId ?i1) = Some ?r" by code_simp
  have own: "ownerId ?r = ''s1''" by simp
  have m: "map_of (members ?s) (roomId ?i1) = Some ?ms" by code_simp
  have bound: "\<forall>x i. map_of (socketToRoom ?s) x = Some i \<and> roomId i = roomId ?i1 \<longrightarrow>
                 map_of ?ms x \<noteq> None"
    unfolding idx by (auto split: if_splits)
  have js: "step ServerJs ?s (RoomLeave ''s1'') =
              (fst (step ServerJs ?s (RoomLeave ''s1'')), snd (step ServerJs ?s (RoomLeave ''s1'')))"
    by simp
  note T = owner_departure_disbands_in_server_js[OF refl disjI1[OF refl] b o r own m bound js]
  have m2: "map_of ?ms ''s2'' \<noteq> None \<and> ''s2'' \<noteq> ''s1''
              \<and> map_of (socketToRoom ?s) ''s2'' = Some ?i2 \<and> roomId ?i2 = roomId ?i1"
    using b2 by simp
  have m3: "map_of ?ms ''s3'' \<noteq> None \<and> ''s3'' \<noteq> ''s1''
              \<and> map_of (socketToRoom ?s) ''s3'' = Some ?i3 \<and> roomId ?i3 = roomId ?i1"
    using b3 by simp
  have k2: "map_of ?ms ''s2'' \<noteq> None" by simp
  have q: "\<forall>x \<in> set [Heartbeat ''s2'' 4000]. created_room x \<noteq> Some (roomId ?i1)"
    by simp
  have j: "j_roomId (join_as ''ROOM01'' ''bob'' None None) = roomId ?i1" by (simp add: join_as_def)
  have sel: "roomId ?i1 = ''ROOM01''" by simp
  note c1 = T[THEN conjunct1, rule_format, OF m2]
  note c2 = T[THEN conjunct1, rule_format, OF m3]
  note c3 = T[THEN conjunct2, THEN conjunct2, THEN conjunct1, rule_format, OF k2]
  note c4 = T[THEN conjunct2, THEN conjunct2, THEN conjunct2, THEN conjunct1, unfolded sel]
  note c5 = T[THEN conjunct2, THEN conjunct2, THEN conjunct2, THEN conjunct2, THEN conjunct2,
              THEN conjunct2, THEN conjunct2, THEN spec, THEN mp, OF q, THEN conjunct2,
              THEN conjunct2, THEN conjunct2, rule_format, OF j]
  show ?thesis by (intro conjI c1 c2 c3 c4 c5)
qed




text \<open>
  C5, at an input where \<open>watch-room-server.ts\<close> departs from it. The owner \<open>s1\<close> has left
  the room; \<open>s2\<close>, who is not the owner, is its last member. When \<open>s2\<close> leaves, the room
  is deleted in the same step, with the \<open>room-deleted\<close> broadcast; no timer is armed, and a
  \<open>room:join\<close> right afterwards gets the not-found error.
\<close>

theorem last_member_leaves_in_lib_ts:
  "map_option (map fst) (map_of (members (run LibTs init owner_left_ts)) ''ROOM01'') = Some [''s2'']
   \<and> map_option info_isOwner (map_of (socketToRoom (run LibTs init owner_left_ts)) ''s2'')
       = Some False
   \<and> map_option ownerId (map_of (rooms (run LibTs init owner_left_ts)) ''ROOM01'') = Some ''s1''
   \<and> map message (snd (step LibTs (run LibTs init owner_left_ts) (RoomLeave ''s2'')))
       = [MemberLeft ''s2'', RoomDeleted None]
   \<and> rooms (fst (step LibTs (run LibTs init owner_left_ts) (RoomLeave ''s2''))) = []
   \<and> timeouts (fst (step LibTs (run LibTs init owner_left_ts) (RoomLeave ''s2''))) = []
   \<and> snd (step LibTs (fst (step LibTs (run LibTs init owner_left_ts) (RoomLeave ''s2'')))
         (RoomJoin ''s3'' (join_as ''ROOM01'' ''carol'' None None) 4000))
       = [Emit [''s3''] (failure err_room_not_found)]"
  by code_simp

text \<open>
  C5 as amended: the claim, for \<open>server.js\<close>. In a reachable state let the last member of a
  room leave or disconnect, a socket that is not the owner: \<open>ownerId\<close> of the room names
  another socket and the binding of the leaver has \<open>isOwner = false\<close>. Then no
  \<open>room-deleted\<close> is sent; the room stays, with \<open>memberCount = 0\<close> and an empty member
  map; and a timer with the fixed delay \<open>grace_delay\<close> is armed and registered for the room.
  If the events before the timer fires contain no \<open>room:join\<close> for the room (and no
  \<open>room:create\<close> that draws its id), then after the timer has fired the room and its
  member map are gone, the firing sends the \<open>room-deleted\<close> broadcast if the room was still
  there, and no later \<open>room:list\<close> reply contains the room. If a \<open>room:join\<close> that passes
  the password check arrives while this timer is the one registered for the room, the room
  is there after the join, and the firing of the timer at any later time does nothing.
\<close>

theorem grace_timer_in_server_js:
  assumes reach: "s = run ServerJs init es0"
    and ev: "e = RoomLeave sid \<or> e = Disconnect sid"
    and b: "map_of (socketToRoom s) sid = Some info"
    and no: "\<not> info_isOwner info"
    and r: "map_of (rooms s) (roomId info) = Some room"
    and notown: "ownerId room \<noteq> sid"
    and m: "map_of (members s) (roomId info) = Some ms"
    and last: "AList.delete (userId info) ms = []"
    and st: "step ServerJs s e = (s1, out1)"
  shows "(\<forall>x \<in> set out1. \<forall>reason. message x \<noteq> RoomDeleted reason)
     \<and> map_of (rooms s1) (roomId info) = Some (room\<lparr>memberCount := 0\<rparr>)
     \<and> map_of (members s1) (roomId info) = Some []
     \<and> map_of (roomDeletionTimers s1) (roomId info) = Some (nextHandle s)
     \<and> map_of (timeouts s1) (nextHandle s) = Some (roomId info, grace_delay)
     \<and> (\<forall>es. (\<forall>x \<in> set es. created_room x \<noteq> Some (roomId info)
                  \<and> joined_room x \<noteq> Some (roomId info) \<and> x \<noteq> TimeoutFires (nextHandle s)) \<longrightarrow>
            map_of (rooms (fst (step ServerJs (run ServerJs s1 es) (TimeoutFires (nextHandle s)))))
               (roomId info) = None
            \<and> map_of (members (fst (step ServerJs (run ServerJs s1 es)
                 (TimeoutFires (nextHandle s))))) (roomId info) = None
            \<and> (map_of (rooms (run ServerJs s1 es)) (roomId info) \<noteq> None \<longrightarrow>
                 snd (step ServerJs (run ServerJs s1 es) (TimeoutFires (nextHandle s))) =
                   [Emit (in_room (run ServerJs s1 es) (roomId info)) (RoomDeleted None)])
            \<and> (\<forall>es' c x rs q. (\<forall>y \<in> set es'. created_room y \<noteq> Some (roomId info)) \<longrightarrow>
                 x \<in> set (snd (step ServerJs
                       (run ServerJs (fst (step ServerJs (run ServerJs s1 es)
                          (TimeoutFires (nextHandle s)))) es') (RoomListReq c))) \<longrightarrow>
                 message x = RoomListAck rs \<longrightarrow> q \<in> set rs \<longrightarrow> room_id q \<noteq> roomId info))
     \<and> (\<forall>es c data now room'.
            j_roomId data = roomId info
            \<and> map_of (rooms (run ServerJs s1 es)) (roomId info) = Some room'
            \<and> \<not> password_mismatch room' data
            \<and> map_of (roomDeletionTimers (run ServerJs s1 es)) (roomId info) = Some (nextHandle s)
            \<longrightarrow>
            map_of (rooms (fst (step ServerJs (run ServerJs s1 es) (RoomJoin c data now))))
               (roomId info) \<noteq> None
            \<and> (\<forall>es'. step ServerJs
                   (run ServerJs (fst (step ServerJs (run ServerJs s1 es) (RoomJoin c data now))) es')
                   (TimeoutFires (nextHandle s)) =
                 (run ServerJs (fst (step ServerJs (run ServerJs s1 es) (RoomJoin c data now))) es',
                  [])))"
proof -
  let ?rid = "roomId info" and ?h = "nextHandle s"
  note A = grace_armed[OF ev b m no last st]
  have c1: "\<forall>x \<in> set out1. \<forall>reason. message x \<noteq> RoomDeleted reason" by (simp add: A(1))
  have c2: "map_of (rooms s1) ?rid = Some (room\<lparr>memberCount := 0\<rparr>)" by (simp add: A(3) r)
  have c6: "\<forall>es. (\<forall>x \<in> set es. created_room x \<noteq> Some ?rid
                  \<and> joined_room x \<noteq> Some ?rid \<and> x \<noteq> TimeoutFires ?h) \<longrightarrow>
            map_of (rooms (fst (step ServerJs (run ServerJs s1 es) (TimeoutFires ?h)))) ?rid = None
            \<and> map_of (members (fst (step ServerJs (run ServerJs s1 es)
                 (TimeoutFires ?h)))) ?rid = None
            \<and> (map_of (rooms (run ServerJs s1 es)) ?rid \<noteq> None \<longrightarrow>
                 snd (step ServerJs (run ServerJs s1 es) (TimeoutFires ?h)) =
                   [Emit (in_room (run ServerJs s1 es) ?rid) (RoomDeleted None)])
            \<and> (\<forall>es' c x rs q. (\<forall>y \<in> set es'. created_room y \<noteq> Some ?rid) \<longrightarrow>
                 x \<in> set (snd (step ServerJs
                       (run ServerJs (fst (step ServerJs (run ServerJs s1 es)
                          (TimeoutFires ?h))) es') (RoomListReq c))) \<longrightarrow>
                 message x = RoomListAck rs \<longrightarrow> q \<in> set rs \<longrightarrow> room_id q \<noteq> ?rid)"
  proof (intro allI impI)
    fix es
    assume quiet: "\<forall>x \<in> set es. created_room x \<noteq> Some ?rid
                  \<and> joined_room x \<noteq> Some ?rid \<and> x \<noteq> TimeoutFires ?h"
    have fire: "step ServerJs (run ServerJs s1 es) (TimeoutFires ?h) =
       (fst (step ServerJs (run ServerJs s1 es) (TimeoutFires ?h)),
        snd (step ServerJs (run ServerJs s1 es) (TimeoutFires ?h)))" by simp
    note X = grace_expiry[OF reach ev b m no last st quiet fire]
    show "map_of (rooms (fst (step ServerJs (run ServerJs s1 es) (TimeoutFires ?h)))) ?rid = None
            \<and> map_of (members (fst (step ServerJs (run ServerJs s1 es)
                 (TimeoutFires ?h)))) ?rid = None
            \<and> (map_of (rooms (run ServerJs s1 es)) ?rid \<noteq> None \<longrightarrow>
                 snd (step ServerJs (run ServerJs s1 es) (TimeoutFires ?h)) =
                   [Emit (in_room (run ServerJs s1 es) ?rid) (RoomDeleted None)])
            \<and> (\<forall>es' c x rs q. (\<forall>y \<in> set es'. created_room y \<noteq> Some ?rid) \<longrightarrow>
                 x \<in> set (snd (step ServerJs
                       (run ServerJs (fst (step ServerJs (run ServerJs s1 es)
                          (TimeoutFires ?h))) es') (RoomListReq c))) \<longrightarrow>
                 message x = RoomListAck rs \<longrightarrow> q \<in> set rs \<longrightarrow> room_id q \<noteq> ?rid)"
      by (intro conjI X)
  qed
  have c7: "\<forall>es c data now room'.
            j_roomId data = ?rid
            \<and> map_of (rooms (run ServerJs s1 es)) ?rid = Some room'
            \<and> \<not> password_mismatch room' data
            \<and> map_of (roomDeletionTimers (run ServerJs s1 es)) ?rid = Some ?h
            \<longrightarrow>
            map_of (rooms (fst (step ServerJs (run ServerJs s1 es) (RoomJoin c data now)))) ?rid
               \<noteq> None
            \<and> (\<forall>es'. step ServerJs
                   (run ServerJs (fst (step ServerJs (run ServerJs s1 es) (RoomJoin c data now))) es')
                   (TimeoutFires ?h) =
                 (run ServerJs (fst (step ServerJs (run ServerJs s1 es) (RoomJoin c data now))) es',
                  []))"
  proof (intro allI impI)
    fix es c data now room'
    assume h: "j_roomId data = ?rid
            \<and> map_of (rooms (run ServerJs s1 es)) ?rid = Some room'
            \<and> \<not> password_mismatch room' data
            \<and> map_of (roomDeletionTimers (run ServerJs s1 es)) ?rid = Some ?h"
    let ?t = "run ServerJs s1 es"
    have s1: "s1 = fst (step ServerJs s e)" using st by simp
    have rt: "?t = run ServerJs init (es0 @ e # es)"
      by (simp add: run_append reach s1)
    have room: "map_of (rooms ?t) (j_roomId data) = Some room'" using h by simp
    have pw: "\<not> password_mismatch room' data" using h by simp
    have reg: "map_of (roomDeletionTimers ?t) (j_roomId data) = Some ?h" using h by simp
    have j: "step ServerJs ?t (RoomJoin c data now) =
       (fst (step ServerJs ?t (RoomJoin c data now)), snd (step ServerJs ?t (RoomJoin c data now)))"
      by simp
    note Y = grace_cancelled[OF rt room pw reg j]
    have jr: "j_roomId data = ?rid" using h by simp
    from Y(1) Y(3) show "map_of (rooms (fst (step ServerJs ?t (RoomJoin c data now)))) ?rid
               \<noteq> None
            \<and> (\<forall>es'. step ServerJs
                   (run ServerJs (fst (step ServerJs ?t (RoomJoin c data now))) es')
                   (TimeoutFires ?h) =
                 (run ServerJs (fst (step ServerJs ?t (RoomJoin c data now))) es', []))"
      unfolding jr by blast
  qed
  show ?thesis by (intro conjI c1 c2 A(2) A(4) A(5) c6 c7)
qed

theorem grace_timer_in_server_js_witness:
  "map_of (timeouts (fst (step ServerJs (run ServerJs init last_member) (RoomLeave ''s2'')))) 0
     = Some (''ROOM01'', grace_delay)
   \<and> map_of (members (fst (step ServerJs (run ServerJs init last_member) (RoomLeave ''s2''))))
       ''ROOM01'' = Some []
   \<and> map_of (rooms (fst (step ServerJs
        (run ServerJs (fst (step ServerJs (run ServerJs init last_member) (RoomLeave ''s2'')))
           [Connection ''s3''])
        (TimeoutFires 0)))) ''ROOM01'' = None
   \<and> snd (step ServerJs
        (run ServerJs (fst (step ServerJs (run ServerJs init last_member) (RoomLeave ''s2'')))
           [Connection ''s3''])
        (TimeoutFires 0)) = [Emit [] (RoomDeleted None)]
   \<and> map_of (rooms (fst (step ServerJs
        (run ServerJs (fst (step ServerJs (run ServerJs init last_member) (RoomLeave ''s2'')))
           [Connection ''s3''])
        (RoomJoin ''s3'' (join_as ''ROOM01'' ''carol'' None None) 4000)))) ''ROOM01'' \<noteq> None
   \<and> step ServerJs
        (run ServerJs (fst (step ServerJs
           (run ServerJs (fst (step ServerJs (run ServerJs init last_member) (RoomLeave ''s2'')))
              [Connection ''s3''])
           (RoomJoin ''s3'' (join_as ''ROOM01'' ''carol'' None None) 4000)))
           [Heartbeat ''s3'' 40000])
        (TimeoutFires 0)
     = (run ServerJs (fst (step ServerJs
           (run ServerJs (fst (step ServerJs (run ServerJs init last_member) (RoomLeave ''s2'')))
              [Connection ''s3''])
           (RoomJoin ''s3'' (join_as ''ROOM01'' ''carol'' None None) 4000)))
           [Heartbeat ''s3'' 40000], [])"
proof -
  let ?s = "run ServerJs init last_member"
  let ?i = "\<lparr>roomId = ''ROOM01'', userId = ''s2'', userName = ''bob'', info_isOwner = False\<rparr>"
  let ?r = "\<lparr>room_id = ''ROOM01'', room_name = ''movie night'', description = ''demo'',
              password = None, isPublic = True, ownerId = ''s1'', ownerName = ''alice'',
              ownerToken = ''TOKEN1'', memberCount = 1, currentState = None,
              createdAt = 1000, lastOwnerHeartbeat = 1000\<rparr>"
  let ?ms = "[(''s2'', \<lparr>member_id = ''s2'', member_name = ''bob'', isOwner = False,
                        lastHeartbeat = 2000\<rparr>)]"
  let ?s1 = "fst (step ServerJs ?s (RoomLeave ''s2''))"
  let ?d = "join_as ''ROOM01'' ''carol'' None None"
  have b: "map_of (socketToRoom ?s) ''s2'' = Some ?i" by code_simp
  have no: "\<not> info_isOwner ?i" by simp
  have r: "map_of (rooms ?s) (roomId ?i) = Some ?r" by code_simp
  have notown: "ownerId ?r \<noteq> ''s2''" by simp
  have m: "map_of (members ?s) (roomId ?i) = Some ?ms" by code_simp
  have last: "AList.delete (userId ?i) ?ms = []" by simp
  have st: "step ServerJs ?s (RoomLeave ''s2'') = (?s1, snd (step ServerJs ?s (RoomLeave ''s2'')))"
    by simp
  have nh: "nextHandle ?s = 0" by code_simp
  have sel: "roomId ?i = ''ROOM01''" by simp
  note T = grace_timer_in_server_js[OF refl disjI1[OF refl] b no r notown m last st,
             unfolded nh sel]
  have quiet: "\<forall>x \<in> set [Connection ''s3'']. created_room x \<noteq> Some ''ROOM01''
                  \<and> joined_room x \<noteq> Some ''ROOM01'' \<and> x \<noteq> TimeoutFires 0" by simp
  have present: "map_of (rooms (run ServerJs ?s1 [Connection ''s3''])) ''ROOM01'' \<noteq> None"
    by code_simp
  have inr: "in_room (run ServerJs ?s1 [Connection ''s3'']) ''ROOM01'' = []" by code_simp
  have jh: "j_roomId ?d = ''ROOM01''
            \<and> map_of (rooms (run ServerJs ?s1 [Connection ''s3''])) ''ROOM01'' = Some (?r\<lparr>memberCount := 0\<rparr>)
            \<and> \<not> password_mismatch (?r\<lparr>memberCount := 0\<rparr>) ?d
            \<and> map_of (roomDeletionTimers (run ServerJs ?s1 [Connection ''s3''])) ''ROOM01'' = Some 0"
  proof (intro conjI)
    show "j_roomId ?d = ''ROOM01''" by (simp add: join_as_def)
    show "map_of (rooms (run ServerJs ?s1 [Connection ''s3''])) ''ROOM01'' = Some (?r\<lparr>memberCount := 0\<rparr>)"
      by code_simp
    show "\<not> password_mismatch (?r\<lparr>memberCount := 0\<rparr>) ?d"
      by (simp add: password_mismatch_def truthy_def)
    show "map_of (roomDeletionTimers (run ServerJs ?s1 [Connection ''s3''])) ''ROOM01'' = Some 0"
      by code_simp
  qed
  note c1 = T[THEN conjunct2, THEN conjunct2, THEN conjunct2, THEN conjunct2, THEN conjunct1]
  note c2 = T[THEN conjunct2, THEN conjunct2, THEN conjunct1]
  note X = T[THEN conjunct2, THEN conjunct2, THEN conjunct2, THEN conjunct2, THEN conjunct2,
             THEN conjunct1, THEN spec, THEN mp, OF quiet]
  note c3 = X[THEN conjunct1]
  note c4 = X[THEN conjunct2, THEN conjunct2, THEN conjunct1, THEN mp, OF present, unfolded inr]
  note Y = T[THEN conjunct2, THEN conjunct2, THEN conjunct2, THEN conjunct2, THEN conjunct2,
             THEN conjunct2, THEN spec, THEN spec, THEN spec, THEN spec, THEN spec, THEN mp, OF jh]
  note c5 = Y[THEN conjunct1]
  note c6 = Y[THEN conjunct2, THEN spec]
  show ?thesis by (intro conjI c1 c2 c3 c4 c5 c6)
qed

text \<open>
  C6, at an input where \<open>server.js\<close> departs from it. \<open>s2\<close> is an ordinary member of the
  room owned by \<open>s1\<close>; its \<open>play:update\<close> is stored as the room's \<open>currentState\<close> and
  relayed to \<open>s1\<close>.
\<close>

theorem play_update_by_non_owner_in_server_js:
  "map_option info_isOwner (map_of (socketToRoom (run ServerJs init two_members)) ''s2'') = Some False
   \<and> map_option ownerId (map_of (rooms (run ServerJs init two_members)) ''ROOM01'') = Some ''s1''
   \<and> map_option currentState (map_of (rooms (run ServerJs init two_members)) ''ROOM01'') = Some None
   \<and> map_option currentState (map_of (rooms (fst (step ServerJs (run ServerJs init two_members)
         (PlayUpdateReq ''s2'' demo_state)))) ''ROOM01'') = Some (Some demo_state)
   \<and> snd (step ServerJs (run ServerJs init two_members) (PlayUpdateReq ''s2'' demo_state))
       = [Emit [''s1''] (PlayUpdate demo_state)]"
  by code_simp

text \<open>
  C6 as amended: the claim, for \<open>watch-room-server.ts\<close>; \<open>server.js\<close> lets every member
  update. A \<open>play:update\<close> from a socket without a binding does nothing in either file. In
  \<open>watch-room-server.ts\<close>, a \<open>play:update\<close> from a socket that is not the current owner
  of its room (\<open>ownerId\<close> names another socket, and the binding of the sender has
  \<open>isOwner = false\<close>) does nothing; from the current owner (\<open>ownerId\<close> names the sender,
  and its binding has \<open>isOwner = true\<close>) the state is stored as \<open>currentState\<close>, nothing
  else changes, and the state is relayed to every other socket in the room. In
  \<open>server.js\<close> the same happens for every bound sender whose room exists.
\<close>

theorem play_update_owner_only:
  "(map_of (socketToRoom s) sid = None \<longrightarrow> step v s (PlayUpdateReq sid st) = (s, []))
   \<and> (map_of (socketToRoom s) sid = Some info \<and> map_of (rooms s) (roomId info) = Some room
        \<and> ownerId room \<noteq> sid \<and> \<not> info_isOwner info \<longrightarrow>
        step LibTs s (PlayUpdateReq sid st) = (s, []))
   \<and> (map_of (socketToRoom s) sid = Some info \<and> map_of (rooms s) (roomId info) = Some room
        \<and> ownerId room = sid \<and> info_isOwner info \<longrightarrow>
        step LibTs s (PlayUpdateReq sid st) =
          (s\<lparr>rooms := AList.update (roomId info) (room\<lparr>currentState := Some st\<rparr>) (rooms s)\<rparr>,
           [Emit (filter (\<lambda>x. x \<noteq> sid) (in_room s (roomId info))) (PlayUpdate st)]))
   \<and> (map_of (socketToRoom s) sid = Some info \<and> map_of (rooms s) (roomId info) = Some room \<longrightarrow>
        step ServerJs s (PlayUpdateReq sid st) =
          (s\<lparr>rooms := AList.update (roomId info) (room\<lparr>currentState := Some st\<rparr>) (rooms s)\<rparr>,
           [Emit (filter (\<lambda>x. x \<noteq> sid) (in_room s (roomId info))) (PlayUpdate st)]))"
  by (cases v)
     (simp_all add: play_update_def play_update_ts_def owner_update_def socket_to_def)

theorem play_update_owner_only_witness:
  "step LibTs (run LibTs init two_members) (PlayUpdateReq ''s9'' demo_state)
     = (run LibTs init two_members, [])
   \<and> step LibTs (run LibTs init two_members) (PlayUpdateReq ''s2'' demo_state)
     = (run LibTs init two_members, [])
   \<and> snd (step LibTs (run LibTs init two_members) (PlayUpdateReq ''s1'' demo_state))
     = [Emit [''s2''] (PlayUpdate demo_state)]
   \<and> snd (step ServerJs (run LibTs init two_members) (PlayUpdateReq ''s2'' demo_state))
     = [Emit [''s1''] (PlayUpdate demo_state)]"
proof -
  let ?s = "run LibTs init two_members"
  let ?i1 = "\<lparr>roomId = ''ROOM01'', userId = ''s1'', userName = ''alice'', info_isOwner = True\<rparr>"
  let ?i2 = "\<lparr>roomId = ''ROOM01'', userId = ''s2'', userName = ''bob'', info_isOwner = False\<rparr>"
  let ?r = "\<lparr>room_id = ''ROOM01'', room_name = ''movie night'', description = ''demo'',
              password = None, isPublic = True, ownerId = ''s1'', ownerName = ''alice'',
              ownerToken = ''TOKEN1'', memberCount = 2, currentState = None,
              createdAt = 1000, lastOwnerHeartbeat = 1000\<rparr>"
  have b9: "map_of (socketToRoom ?s) ''s9'' = None" by code_simp
  have b1: "map_of (socketToRoom ?s) ''s1'' = Some ?i1" by code_simp
  have b2: "map_of (socketToRoom ?s) ''s2'' = Some ?i2" by code_simp
  have r: "map_of (rooms ?s) ''ROOM01'' = Some ?r" by code_simp
  have in1: "filter (\<lambda>x. x \<noteq> ''s1'') (in_room ?s ''ROOM01'') = [''s2'']" by code_simp
  have in2: "filter (\<lambda>x. x \<noteq> ''s2'') (in_room ?s ''ROOM01'') = [''s1'']" by code_simp
  from play_update_owner_only[of ?s "''s9''" LibTs demo_state] b9
  have A: "step LibTs ?s (PlayUpdateReq ''s9'' demo_state) = (?s, [])" by simp
  from play_update_owner_only[of ?s "''s2''" LibTs demo_state ?i2 ?r] b2 r
  have B: "step LibTs ?s (PlayUpdateReq ''s2'' demo_state) = (?s, [])" by simp
  from play_update_owner_only[of ?s "''s1''" LibTs demo_state ?i1 ?r] b1 r in1
  have C: "snd (step LibTs ?s (PlayUpdateReq ''s1'' demo_state)) = [Emit [''s2''] (PlayUpdate demo_state)]"
    by simp
  from play_update_owner_only[of ?s "''s2''" ServerJs demo_state ?i2 ?r] b2 r in2
  have D: "snd (step ServerJs ?s (PlayUpdateReq ''s2'' demo_state)) = [Emit [''s1''] (PlayUpdate demo_state)]"
    by simp
  from A B C D show ?thesis by simp
qed

text \<open>
  C10, at an input where the code departs from it. \<open>s3\<close> is in \<open>ROOM01\<close> and joins
  \<open>ROOM02\<close>: its record stays in \<open>ROOM01\<close>. It then joins \<open>ROOM01\<close> again and leaves:
  now its record is removed from \<open>ROOM01\<close>, which has not been deleted, and stays in
  \<open>ROOM02\<close>. This is so in both files.
\<close>

theorem ghost_leaves_room_it_rejoined:
  "map_option (map fst) (map_of (members (run ServerJs init
       (two_rooms @ [RoomJoin ''s3'' (join_as ''ROOM02'' ''carol'' None None) 3000]))) ''ROOM01'')
     = Some [''s1'', ''s3'']
   \<and> map_option roomId (map_of (socketToRoom (run ServerJs init
       (two_rooms @ [RoomJoin ''s3'' (join_as ''ROOM02'' ''carol'' None None) 3000]))) ''s3'')
     = Some ''ROOM02''
   \<and> map_option (map fst) (map_of (members (run ServerJs init ghost_returns)) ''ROOM01'')
     = Some [''s1'']
   \<and> map_option memberCount (map_of (rooms (run ServerJs init ghost_returns)) ''ROOM01'') = Some 1
   \<and> map_option (map fst) (map_of (members (run ServerJs init ghost_returns)) ''ROOM02'')
     = Some [''s2'', ''s3'']
   \<and> map_option (map fst) (map_of (members (run LibTs init ghost_returns)) ''ROOM01'')
     = Some [''s1'']
   \<and> map_option memberCount (map_of (rooms (run LibTs init ghost_returns)) ''ROOM01'') = Some 1
   \<and> map_option (map fst) (map_of (members (run LibTs init ghost_returns)) ''ROOM02'')
     = Some [''s2'', ''s3'']"
  by code_simp

text \<open>
  C10 as amended: the claim, until the socket itself joins room A again. In a reachable
  state of either file let socket \<open>c\<close>, bound to room A and with a \<open>Member\<close> record in it,
  issue a successful \<open>room:join\<close> for another room B. Then its binding names B and the
  member map of A is unchanged. After any later events, as long as no \<open>room:join\<close> of
  \<open>c\<close> names A (and no \<open>room:create\<close> draws the id of A): either A and its member map
  have been deleted, or the member map of A still has a record of \<open>c\<close>, \<open>memberCount\<close> of A
  is the size of that map, the reply to a successful \<open>room:join\<close> of another socket for A
  lists that record, and a leave or disconnect of \<open>c\<close> leaves the member map of A as it is
  and removes the record of \<open>c\<close> from the room of its binding.
\<close>

theorem ghost_member_persists:
  assumes reach: "s = run v init es0"
    and b: "map_of (socketToRoom s) c = Some info"
    and ma: "map_of (members s) (roomId info) = Some ms"
    and ca: "map_of ms c = Some mem"
    and ab: "j_roomId data \<noteq> roomId info"
    and rb: "map_of (rooms s) (j_roomId data) = Some roomB"
    and pw: "\<not> password_mismatch roomB data"
    and st: "step v s (RoomJoin c data now) = (s1, out)"
  shows "(\<exists>i. map_of (socketToRoom s1) c = Some i \<and> roomId i = j_roomId data)
     \<and> map_of (members s1) (roomId info) = Some ms
     \<and> (\<forall>es. (\<forall>x \<in> set es. created_room x \<noteq> Some (roomId info)
                  \<and> \<not> (sender x = Some c \<and> joined_room x = Some (roomId info))) \<longrightarrow>
          (map_of (rooms (run v s1 es)) (roomId info) = None
             \<and> map_of (members (run v s1 es)) (roomId info) = None)
          \<or> (\<exists>ms' mem'. map_of (members (run v s1 es)) (roomId info) = Some ms'
               \<and> map_of ms' c = Some mem'
               \<and> (\<forall>room. map_of (rooms (run v s1 es)) (roomId info) = Some room \<longrightarrow>
                     memberCount room = length ms')
               \<and> (\<forall>d data' now' room'. d \<noteq> c \<and> j_roomId data' = roomId info
                     \<and> map_of (rooms (run v s1 es)) (roomId info) = Some room'
                     \<and> \<not> password_mismatch room' data' \<longrightarrow>
                     (\<exists>rsp l. Emit [d] (Ack rsp)
                                 \<in> set (snd (step v (run v s1 es) (RoomJoin d data' now')))
                              \<and> success rsp \<and> resp_members rsp = Some l \<and> mem' \<in> set l))
               \<and> (\<forall>e'. e' = RoomLeave c \<or> e' = Disconnect c \<longrightarrow>
                     map_of (members (fst (step v (run v s1 es) e'))) (roomId info) = Some ms'
                     \<and> (\<forall>i msb. map_of (socketToRoom (run v s1 es)) c = Some i \<and>
                           map_of (members (fst (step v (run v s1 es) e'))) (roomId i) = Some msb
                           \<longrightarrow> map_of msb c = None))))"
proof -
  let ?a = "roomId info"
  have s1: "s1 = fst (step v s (RoomJoin c data now))" using st by simp
  from count_invD[OF reach_inv(1) rb[unfolded reach]] obtain msb where
    msb: "map_of (members s) (j_roomId data) = Some msb" unfolding reach by blast
  have bind: "\<exists>i. map_of (socketToRoom s1) c = Some i \<and> roomId i = j_roomId data"
    unfolding s1
    by (cases v) (simp_all add: join_fields(3)[OF rb pw msb] join_ts_fields(3)[OF rb pw msb]
         update_conv')
  have keep: "map_of (members s1) ?a = Some ms"
    unfolding s1 using ab ma
    by (cases v) (simp_all add: join_fields(2)[OF rb pw msb] join_ts_fields(2)[OF rb pw msb]
         update_conv')
  have bi1: "binding_inv s1"
    unfolding s1 reach by (intro binding_inv_step reach_inv)
  have H1: "map_of (members s1) ?a = None \<or>
         ((\<exists>ms'. map_of (members s1) ?a = Some ms' \<and> map_of ms' c \<noteq> None) \<and>
          (\<forall>i. map_of (socketToRoom s1) c = Some i \<longrightarrow> roomId i \<noteq> ?a))"
    using keep ca bind ab by auto
  have rest: "(map_of (rooms (run v s1 es)) ?a = None
             \<and> map_of (members (run v s1 es)) ?a = None)
          \<or> (\<exists>ms' mem'. map_of (members (run v s1 es)) ?a = Some ms'
               \<and> map_of ms' c = Some mem'
               \<and> (\<forall>room. map_of (rooms (run v s1 es)) ?a = Some room \<longrightarrow>
                     memberCount room = length ms')
               \<and> (\<forall>d data' now' room'. d \<noteq> c \<and> j_roomId data' = ?a
                     \<and> map_of (rooms (run v s1 es)) ?a = Some room'
                     \<and> \<not> password_mismatch room' data' \<longrightarrow>
                     (\<exists>rsp l. Emit [d] (Ack rsp)
                                 \<in> set (snd (step v (run v s1 es) (RoomJoin d data' now')))
                              \<and> success rsp \<and> resp_members rsp = Some l \<and> mem' \<in> set l))
               \<and> (\<forall>e'. e' = RoomLeave c \<or> e' = Disconnect c \<longrightarrow>
                     map_of (members (fst (step v (run v s1 es) e'))) ?a = Some ms'
                     \<and> (\<forall>i msb. map_of (socketToRoom (run v s1 es)) c = Some i \<and>
                           map_of (members (fst (step v (run v s1 es) e'))) (roomId i) = Some msb
                           \<longrightarrow> map_of msb c = None)))"
    if q: "\<forall>x \<in> set es. created_room x \<noteq> Some ?a
                  \<and> \<not> (sender x = Some c \<and> joined_room x = Some ?a)" for es
  proof -
    let ?t = "run v s1 es"
    have rt: "?t = run v init (es0 @ RoomJoin c data now # es)"
      by (simp add: run_append reach s1)
    have ci: "count_inv ?t" and bi: "binding_inv ?t" unfolding rt by (rule reach_inv)+
    from ghost_run[OF bi1 H1 q, of v] show ?thesis
    proof
      assume n: "map_of (members ?t) ?a = None"
      have "map_of (rooms ?t) ?a = None"
      proof (rule ccontr)
        assume "map_of (rooms ?t) ?a \<noteq> None"
        then obtain room where "map_of (rooms ?t) ?a = Some room" by blast
        from count_invD[OF ci this] n show False by simp
      qed
      with n show ?thesis by blast
    next
      assume h: "(\<exists>ms'. map_of (members ?t) ?a = Some ms' \<and> map_of ms' c \<noteq> None) \<and>
          (\<forall>i. map_of (socketToRoom ?t) c = Some i \<longrightarrow> roomId i \<noteq> ?a)"
      then obtain ms' mem' where ms': "map_of (members ?t) ?a = Some ms'"
        "map_of ms' c = Some mem'" by blast
      from h have nb: "\<forall>i. map_of (socketToRoom ?t) c = Some i \<longrightarrow> roomId i \<noteq> ?a" by blast
      have cnt: "\<forall>room. map_of (rooms ?t) ?a = Some room \<longrightarrow> memberCount room = length ms'"
        using count_invD[OF ci] ms'(1) by fastforce
      have lst: "\<forall>d data' now' room'. d \<noteq> c \<and> j_roomId data' = ?a
                     \<and> map_of (rooms ?t) ?a = Some room'
                     \<and> \<not> password_mismatch room' data' \<longrightarrow>
                     (\<exists>rsp l. Emit [d] (Ack rsp)
                                 \<in> set (snd (step v ?t (RoomJoin d data' now')))
                              \<and> success rsp \<and> resp_members rsp = Some l \<and> mem' \<in> set l)"
      proof (intro allI impI)
        fix d data' now' room'
        assume x: "d \<noteq> c \<and> j_roomId data' = ?a \<and> map_of (rooms ?t) ?a = Some room'
                     \<and> \<not> password_mismatch room' data'"
        then have j: "j_roomId data' = ?a" by simp
        show "\<exists>rsp l. Emit [d] (Ack rsp) \<in> set (snd (step v ?t (RoomJoin d data' now')))
                              \<and> success rsp \<and> resp_members rsp = Some l \<and> mem' \<in> set l"
          by (rule join_lists_member[where room = room' and ms = ms' and c = c])
             (use x ms' in \<open>simp_all add: j\<close>)
      qed
      have lv: "\<forall>e'. e' = RoomLeave c \<or> e' = Disconnect c \<longrightarrow>
                     map_of (members (fst (step v ?t e'))) ?a = Some ms'
                     \<and> (\<forall>i msb. map_of (socketToRoom ?t) c = Some i \<and>
                           map_of (members (fst (step v ?t e'))) (roomId i) = Some msb
                           \<longrightarrow> map_of msb c = None)"
      proof (intro allI impI conjI)
        fix e' assume e': "e' = RoomLeave c \<or> e' = Disconnect c"
        show "map_of (members (fst (step v ?t e'))) ?a = Some ms'"
          using leave_other_room[OF e' nb, of v] ms'(1) by simp
      next
        fix e' i msb
        assume e': "e' = RoomLeave c \<or> e' = Disconnect c"
          and x: "map_of (socketToRoom ?t) c = Some i \<and>
                  map_of (members (fst (step v ?t e'))) (roomId i) = Some msb"
        show "map_of msb c = None"
          by (rule leave_removes_record[OF bi e', of i v msb]) (use x in simp_all)
      qed
      from ms' cnt lst lv show ?thesis by blast
    qed
  qed
  from bind keep rest show ?thesis by blast
qed

theorem ghost_member_persists_witness:
  "(\<exists>i. map_of (socketToRoom (fst (step ServerJs (run ServerJs init two_rooms)
            (RoomJoin ''s3'' (join_as ''ROOM02'' ''carol'' None None) 3000)))) ''s3'' = Some i
        \<and> roomId i = ''ROOM02'')
   \<and> map_option (map fst) (map_of (members (fst (step ServerJs (run ServerJs init two_rooms)
            (RoomJoin ''s3'' (join_as ''ROOM02'' ''carol'' None None) 3000)))) ''ROOM01'')
       = Some [''s1'', ''s3'']
   \<and> (\<exists>ms' mem'.
         map_of (members (run ServerJs (fst (step ServerJs (run ServerJs init two_rooms)
            (RoomJoin ''s3'' (join_as ''ROOM02'' ''carol'' None None) 3000)))
            [Heartbeat ''s1'' 3500])) ''ROOM01'' = Some ms'
         \<and> map_of ms' ''s3'' = Some mem'
         \<and> length ms' = 2
         \<and> map_of (members (fst (step ServerJs
              (run ServerJs (fst (step ServerJs (run ServerJs init two_rooms)
                 (RoomJoin ''s3'' (join_as ''ROOM02'' ''carol'' None None) 3000)))
                 [Heartbeat ''s1'' 3500])
              (Disconnect ''s3'')))) ''ROOM01'' = Some ms'
         \<and> (\<exists>rsp l. Emit [''s4''] (Ack rsp) \<in> set (snd (step ServerJs
              (run ServerJs (fst (step ServerJs (run ServerJs init two_rooms)
                 (RoomJoin ''s3'' (join_as ''ROOM02'' ''carol'' None None) 3000)))
                 [Heartbeat ''s1'' 3500])
              (RoomJoin ''s4'' (join_as ''ROOM01'' ''dave'' None None) 5000)))
            \<and> success rsp \<and> resp_members rsp = Some l \<and> mem' \<in> set l))"
proof -
  let ?s = "run ServerJs init two_rooms"
  let ?i = "\<lparr>roomId = ''ROOM01'', userId = ''s3'', userName = ''carol'', info_isOwner = False\<rparr>"
  let ?m1 = "\<lparr>member_id = ''s1'', member_name = ''alice'', isOwner = True, lastHeartbeat = 1000\<rparr>"
  let ?m3 = "\<lparr>member_id = ''s3'', member_name = ''carol'', isOwner = False, lastHeartbeat = 2000\<rparr>"
  let ?ms = "[(''s1'', ?m1), (''s3'', ?m3)]"
  let ?rb = "\<lparr>room_id = ''ROOM02'', room_name = ''movie night'', description = ''demo'',
              password = None, isPublic = True, ownerId = ''s2'', ownerName = ''alice'',
              ownerToken = ''TOKEN2'', memberCount = 1, currentState = None,
              createdAt = 1100, lastOwnerHeartbeat = 1100\<rparr>"
  let ?ra = "\<lparr>room_id = ''ROOM01'', room_name = ''movie night'', description = ''demo'',
              password = None, isPublic = True, ownerId = ''s1'', ownerName = ''alice'',
              ownerToken = ''TOKEN1'', memberCount = 2, currentState = None,
              createdAt = 1000, lastOwnerHeartbeat = 3500\<rparr>"
  let ?d = "join_as ''ROOM02'' ''carol'' None None"
  let ?da = "join_as ''ROOM01'' ''dave'' None None"
  let ?s1 = "fst (step ServerJs ?s (RoomJoin ''s3'' ?d 3000))"
  let ?t = "run ServerJs ?s1 [Heartbeat ''s1'' 3500]"
  have b: "map_of (socketToRoom ?s) ''s3'' = Some ?i" by code_simp
  have ma: "map_of (members ?s) (roomId ?i) = Some ?ms" by code_simp
  have ca: "map_of ?ms ''s3'' = Some ?m3" by simp
  have ab: "j_roomId ?d \<noteq> roomId ?i" by (simp add: join_as_def)
  have rb: "map_of (rooms ?s) (j_roomId ?d) = Some ?rb" by code_simp
  have pw: "\<not> password_mismatch ?rb ?d" by (simp add: password_mismatch_def truthy_def)
  have st: "step ServerJs ?s (RoomJoin ''s3'' ?d 3000) =
              (?s1, snd (step ServerJs ?s (RoomJoin ''s3'' ?d 3000)))" by simp
  have sel: "roomId ?i = ''ROOM01''" "j_roomId ?d = ''ROOM02''" by (simp_all add: join_as_def)
  note T = ghost_member_persists[OF refl b ma ca ab rb pw st, unfolded sel]
  note t1 = T[THEN conjunct1]
  have t2: "map_option (map fst) (map_of (members ?s1) ''ROOM01'') = Some [''s1'', ''s3'']"
    unfolding T[THEN conjunct2, THEN conjunct1] by simp
  have q: "\<forall>x \<in> set [Heartbeat ''s1'' 3500]. created_room x \<noteq> Some ''ROOM01''
              \<and> \<not> (sender x = Some ''s3'' \<and> joined_room x = Some ''ROOM01'')" by simp
  note D = T[THEN conjunct2, THEN conjunct2, THEN spec, THEN mp, OF q]
  have present: "map_of (rooms ?t) ''ROOM01'' = Some ?ra" by code_simp
  have present': "map_of (rooms ?t) ''ROOM01'' \<noteq> None" unfolding present by simp
  let ?G = "\<lambda>ms' mem'. map_of (members ?t) ''ROOM01'' = Some ms'
    \<and> map_of ms' ''s3'' = Some mem'
    \<and> (\<forall>room. map_of (rooms ?t) ''ROOM01'' = Some room \<longrightarrow> memberCount room = length ms')
    \<and> (\<forall>d data' now' room'. d \<noteq> ''s3'' \<and> j_roomId data' = ''ROOM01''
               \<and> map_of (rooms ?t) ''ROOM01'' = Some room'
               \<and> \<not> password_mismatch room' data' \<longrightarrow>
               (\<exists>rsp l. Emit [d] (Ack rsp) \<in> set (snd (step ServerJs ?t (RoomJoin d data' now')))
                   \<and> success rsp \<and> resp_members rsp = Some l \<and> mem' \<in> set l))
    \<and> (\<forall>e'. e' = RoomLeave ''s3'' \<or> e' = Disconnect ''s3'' \<longrightarrow>
               map_of (members (fst (step ServerJs ?t e'))) ''ROOM01'' = Some ms'
               \<and> (\<forall>i msb. map_of (socketToRoom ?t) ''s3'' = Some i \<and>
                     map_of (members (fst (step ServerJs ?t e'))) (roomId i) = Some msb
                     \<longrightarrow> map_of msb ''s3'' = None))"
  have B: "\<exists>ms' mem'. ?G ms' mem'"
  proof (rule disjE[OF D])
    assume "map_of (rooms ?t) ''ROOM01'' = None \<and> map_of (members ?t) ''ROOM01'' = None"
    then have "map_of (rooms ?t) ''ROOM01'' = None" by (rule conjunct1)
    then show ?thesis by (rule notE[OF present'])
  next
    assume "\<exists>ms' mem'. ?G ms' mem'"
    then show ?thesis .
  qed
  from B obtain ms' mem' where g: "?G ms' mem'" by (elim exE) (erule that)
  note g1 = g[THEN conjunct1]
  note g2 = g[THEN conjunct2, THEN conjunct1]
  note g3 = g[THEN conjunct2, THEN conjunct2, THEN conjunct1]
  note g4 = g[THEN conjunct2, THEN conjunct2, THEN conjunct2, THEN conjunct1]
  note g5 = g[THEN conjunct2, THEN conjunct2, THEN conjunct2, THEN conjunct2]
  have c3: "length ms' = 2" using g3[rule_format, OF present] by simp
  have c4: "map_of (members (fst (step ServerJs ?t (Disconnect ''s3'')))) ''ROOM01'' = Some ms'"
    by (rule g5[rule_format, OF disjI2[OF refl], THEN conjunct1])
  have h4: "''s4'' \<noteq> ''s3'' \<and> j_roomId ?da = ''ROOM01''
               \<and> map_of (rooms ?t) ''ROOM01'' = Some ?ra \<and> \<not> password_mismatch ?ra ?da"
  proof (intro conjI)
    show "''s4'' \<noteq> ''s3''" by simp
    show "j_roomId ?da = ''ROOM01''" by (simp add: join_as_def)
    show "map_of (rooms ?t) ''ROOM01'' = Some ?ra" by (rule present)
    show "\<not> password_mismatch ?ra ?da" by (simp add: password_mismatch_def truthy_def)
  qed
  note c5 = g4[rule_format, OF h4, of 5000]
  have inner: "map_of (members ?t) ''ROOM01'' = Some ms'
         \<and> map_of ms' ''s3'' = Some mem'
         \<and> length ms' = 2
         \<and> map_of (members (fst (step ServerJs ?t (Disconnect ''s3'')))) ''ROOM01'' = Some ms'
         \<and> (\<exists>rsp l. Emit [''s4''] (Ack rsp) \<in> set (snd (step ServerJs ?t
              (RoomJoin ''s4'' ?da 5000)))
            \<and> success rsp \<and> resp_members rsp = Some l \<and> mem' \<in> set l)"
    by (rule conjI[OF g1 conjI[OF g2 conjI[OF c3 conjI[OF c4 c5]]]])
  have ex: "\<exists>ms' mem'. map_of (members ?t) ''ROOM01'' = Some ms'
         \<and> map_of ms' ''s3'' = Some mem'
         \<and> length ms' = 2
         \<and> map_of (members (fst (step ServerJs ?t (Disconnect ''s3'')))) ''ROOM01'' = Some ms'
         \<and> (\<exists>rsp l. Emit [''s4''] (Ack rsp) \<in> set (snd (step ServerJs ?t
              (RoomJoin ''s4'' ?da 5000)))
            \<and> success rsp \<and> resp_members rsp = Some l \<and> mem' \<in> set l)"
    by (rule exI[of _ ms'], rule exI[of _ mem'], rule inner)
  show ?thesis by (rule conjI[OF t1 conjI[OF t2 ex]])
qed

end
